theory Spec2Isabelle
  imports Complex_Main "HOL-Library.Sublist" "HOL-Library.Multiset"
begin

section \<open>Fingerprint store (src/src/database_manager.py)\<close>

text \<open>
  The two SQLite tables of \<open>FingerprintDatabase\<close> are lists of rows in rowid order, which
  is the order in which \<open>SELECT ... FROM fingerprints\<close> (a full table scan with no
  \<open>ORDER BY\<close>) delivers them. Both tables declare \<open>id INTEGER PRIMARY KEY AUTOINCREMENT\<close>;
  the counter that SQLite keeps for each table is a field of the state. A feature vector
  is a list of reals; the float32 blob written by \<open>tobytes()\<close> and read back by
  \<open>np.frombuffer\<close> is the vector itself.
\<close>

type_synonym vec = "real list"

text \<open>
  The exceptions the modelled code can raise. \<open>NotANumber\<close> is not a Python exception:
  it marks a result of a formula over the reals that is NaN, which is no real number.
  The code computes with floats, where NaN is a value like any other (\<open>pyfloat\<close> below).
\<close>

datatype error = ValueError | TypeError | IndexError | NotANumber

record media_row =
  m_id :: int
  m_title :: string
  m_year :: "int option"
  m_duration :: "real option"
  m_filepath :: "string option"
  m_total_frames :: "int option"

record fingerprint_row =
  f_id :: int
  f_media_id :: int
  f_timestamp :: real
  f_frame_index :: nat
  f_phash :: string
  f_cnn_features :: vec

record database =
  media :: "media_row list"
  fingerprints :: "fingerprint_row list"
  media_seq :: int
  fingerprints_seq :: int

definition create_tables :: database where
  "create_tables = \<lparr>media = [], fingerprints = [], media_seq = 0, fingerprints_seq = 0\<rparr>"

text \<open>\<open>add_media\<close>: one \<open>INSERT INTO media\<close>; returns \<open>cursor.lastrowid\<close> and the new state.\<close>

definition add_media ::
  "database \<Rightarrow> string \<Rightarrow> int option \<Rightarrow> string option \<Rightarrow> real option \<Rightarrow> int option
     \<Rightarrow> int \<times> database" where
  "add_media db title year filepath duration total_frames =
     (let media_id = media_seq db + 1 in
      (media_id,
       db\<lparr>media := media db @
              [\<lparr>m_id = media_id, m_title = title, m_year = year, m_duration = duration,
                m_filepath = filepath, m_total_frames = total_frames\<rparr>],
          media_seq := media_id\<rparr>))"

text \<open>
  \<open>add_fingerprints\<close>: the loop \<open>for idx, (timestamp, phash, cnn_features) in
  enumerate(fingerprints)\<close> runs one \<open>INSERT\<close> per element. The source compares no hash
  length and no vector dimension and has no \<open>raise\<close>.
\<close>

definition insert_fingerprint ::
  "database \<Rightarrow> int \<Rightarrow> real \<Rightarrow> nat \<Rightarrow> string \<Rightarrow> vec \<Rightarrow> database" where
  "insert_fingerprint db media_id timestamp idx phash cnn_blob =
     db\<lparr>fingerprints := fingerprints db @
           [\<lparr>f_id = fingerprints_seq db + 1, f_media_id = media_id, f_timestamp = timestamp,
             f_frame_index = idx, f_phash = phash, f_cnn_features = cnn_blob\<rparr>],
        fingerprints_seq := fingerprints_seq db + 1\<rparr>"

fun add_fingerprints_loop ::
  "database \<Rightarrow> int \<Rightarrow> nat \<Rightarrow> (real \<times> string \<times> vec) list \<Rightarrow> database" where
  "add_fingerprints_loop db media_id idx [] = db"
| "add_fingerprints_loop db media_id idx ((timestamp, phash, cnn_features) # rest) =
     add_fingerprints_loop (insert_fingerprint db media_id timestamp idx phash cnn_features)
       media_id (Suc idx) rest"

definition add_fingerprints ::
  "database \<Rightarrow> int \<Rightarrow> (real \<times> string \<times> vec) list \<Rightarrow> database" where
  "add_fingerprints db media_id fps = add_fingerprints_loop db media_id 0 fps"

subsection \<open>Hamming distance between two hex hashes\<close>

text \<open>
  \<open>int(h, 16)\<close> on a string of hexadecimal digits; any other string is the
  \<open>ValueError\<close> branch. (Python's \<open>int\<close> also reads a sign, a \<open>0x\<close> prefix, underscores
  and surrounding blanks; the extractor's \<open>str(phash)\<close> produces none of these, and
  the theorems below assume plain hexadecimal digits wherever parsing matters.)
\<close>

definition hex_value :: "char \<Rightarrow> nat option" where
  "hex_value c =
     (let n = (of_char c :: nat) in
      if 48 \<le> n \<and> n \<le> 57 then Some (n - 48)
      else if 97 \<le> n \<and> n \<le> 102 then Some (n - 87)
      else if 65 \<le> n \<and> n \<le> 70 then Some (n - 55)
      else None)"

fun int16_from :: "nat \<Rightarrow> string \<Rightarrow> error + nat" where
  "int16_from acc [] = Inr acc"
| "int16_from acc (c # cs) =
     (case hex_value c of None \<Rightarrow> Inl ValueError
      | Some d \<Rightarrow> int16_from (16 * acc + d) cs)"

definition int16 :: "string \<Rightarrow> error + nat" where
  "int16 s = (if s = [] then Inl ValueError else int16_from 0 s)"

text \<open>\<open>bin(n)[2:]\<close>: the binary digits of \<open>n\<close>, most significant first, \<open>0\<close> for zero.\<close>

fun bin :: "nat \<Rightarrow> string" where
  "bin n =
     (if n < 2 then [if n = 0 then CHR ''0'' else CHR ''1'']
      else bin (n div 2) @ [if even n then CHR ''0'' else CHR ''1''])"

declare bin.simps [simp del]

definition zfill :: "nat \<Rightarrow> string \<Rightarrow> string" where
  "zfill width s = replicate (width - length s) CHR ''0'' @ s"

definition hamming_distance :: "string \<Rightarrow> string \<Rightarrow> error + nat" where
  "hamming_distance hash1 hash2 =
     (case int16 hash1 of Inl e \<Rightarrow> Inl e
      | Inr n1 \<Rightarrow>
          (case int16 hash2 of Inl e \<Rightarrow> Inl e
           | Inr n2 \<Rightarrow>
               Inr (length (filter (\<lambda>(c1, c2). c1 \<noteq> c2)
                      (zip (zfill 64 (bin n1)) (zfill 64 (bin n2)))))))"

subsection \<open>Stage 1: \<open>search_by_phash\<close>\<close>

text \<open>A candidate is the tuple \<open>(fingerprint_id, media_id, timestamp, phash, cnn_blob)\<close>.\<close>

type_synonym candidate = "int \<times> int \<times> real \<times> string \<times> vec"

definition select_fingerprints :: "database \<Rightarrow> candidate list" where
  "select_fingerprints db =
     map (\<lambda>r. (f_id r, f_media_id r, f_timestamp r, f_phash r, f_cnn_features r))
       (fingerprints db)"

definition cand_id :: "candidate \<Rightarrow> int" where
  "cand_id x = fst x"

definition cand_phash :: "candidate \<Rightarrow> string" where
  "cand_phash x = fst (snd (snd (snd x)))"

definition cand_media_id :: "candidate \<Rightarrow> int" where
  "cand_media_id x = fst (snd x)"

definition cand_timestamp :: "candidate \<Rightarrow> real" where
  "cand_timestamp x = fst (snd (snd x))"

definition cand_blob :: "candidate \<Rightarrow> vec" where
  "cand_blob x = snd (snd (snd (snd x)))"

text \<open>The loop over \<open>cursor.fetchall()\<close>; \<open>results\<close> is the list being appended to.\<close>

fun scan_rows :: "string \<Rightarrow> int \<Rightarrow> candidate list \<Rightarrow> candidate list \<Rightarrow> error + candidate list" where
  "scan_rows query_hash max_distance results [] = Inr results"
| "scan_rows query_hash max_distance results (row # rows) =
     (case hamming_distance query_hash (cand_phash row) of Inl e \<Rightarrow> Inl e
      | Inr distance \<Rightarrow>
          scan_rows query_hash max_distance
            (if int distance \<le> max_distance then results @ [row] else results) rows)"

text \<open>
  \<open>results.sort(key=...)\<close>: the key of every element is computed first (a key that raises
  aborts the sort), then the list is sorted stably, ascending by key. \<open>sort_key\<close> is a
  stable insertion sort, so it returns the list Python's stable sort returns.
\<close>

fun compute_keys :: "('a \<Rightarrow> error + 'k) \<Rightarrow> 'a list \<Rightarrow> error + ('k \<times> 'a) list" where
  "compute_keys key [] = Inr []"
| "compute_keys key (x # xs) =
     (case key x of Inl e \<Rightarrow> Inl e
      | Inr k \<Rightarrow> (case compute_keys key xs of Inl e \<Rightarrow> Inl e | Inr ks \<Rightarrow> Inr ((k, x) # ks)))"

definition list_sort :: "('a \<Rightarrow> error + 'k::linorder) \<Rightarrow> 'a list \<Rightarrow> error + 'a list" where
  "list_sort key xs =
     (case compute_keys key xs of Inl e \<Rightarrow> Inl e
      | Inr ks \<Rightarrow> Inr (map snd (sort_key fst ks)))"

text \<open>\<open>xs[:n]\<close>: a negative \<open>n\<close> counts from the end.\<close>

definition slice_to :: "int \<Rightarrow> 'a list \<Rightarrow> 'a list" where
  "slice_to n xs =
     (if 0 \<le> n then take (nat n) xs else take (nat (int (length xs) + n)) xs)"

definition search_by_phash :: "database \<Rightarrow> string \<Rightarrow> int \<Rightarrow> int \<Rightarrow> error + candidate list" where
  "search_by_phash db query_hash max_distance limit =
     (case scan_rows query_hash max_distance [] (select_fingerprints db) of Inl e \<Rightarrow> Inl e
      | Inr results \<Rightarrow>
          (case list_sort (\<lambda>x. hamming_distance query_hash (cand_phash x)) results of
             Inl e \<Rightarrow> Inl e
           | Inr sorted_results \<Rightarrow> Inr (slice_to limit sorted_results)))"

subsection \<open>Python floats and the library functions\<close>

text \<open>
  A similarity is a Python float: a number or NaN (infinities do not arise from the
  vectors of this model). \<open>float_lt\<close> and \<open>float_ge\<close> are the comparisons \<open><\<close> and
  \<open>>=\<close>, which are false whenever an operand is NaN; \<open>float_sub\<close> is the subtraction,
  whose result is NaN whenever an operand is.
\<close>

datatype pyfloat = Num real | NaN

fun float_lt :: "pyfloat \<Rightarrow> pyfloat \<Rightarrow> bool" where
  "float_lt (Num x) (Num y) = (x < y)"
| "float_lt (Num x) NaN = False"
| "float_lt NaN y = False"

fun float_ge :: "pyfloat \<Rightarrow> pyfloat \<Rightarrow> bool" where
  "float_ge (Num x) (Num y) = (x \<ge> y)"
| "float_ge (Num x) NaN = False"
| "float_ge NaN y = False"

fun float_sub :: "pyfloat \<Rightarrow> pyfloat \<Rightarrow> pyfloat" where
  "float_sub (Num x) (Num y) = Num (x - y)"
| "float_sub (Num x) NaN = NaN"
| "float_sub NaN y = NaN"

text \<open>
  A row of Stage 2 is the tuple \<open>(media_id, title, timestamp, similarity_score)\<close>.
\<close>

type_synonym scored = "int \<times> string \<times> real \<times> pyfloat"

definition scored_similarity :: "scored \<Rightarrow> pyfloat" where
  "scored_similarity m = snd (snd (snd m))"

text \<open>
  The functions the code takes from outside the repository are parameters of the model:
  \<open>scipy.spatial.distance.cosine\<close>, \<open>np.linspace(start, stop, num, dtype=int)\<close>, and the
  part of \<open>list.sort\<close> that Python does not document. For keys that \<open><\<close> orders
  consistently \<open>list.sort\<close> is documented: the result is the stable ascending sort. For a
  list of float keys that holds a NaN the result is whatever the interpreter's algorithm
  leaves, a rearrangement of the list; \<open>sort_unordered\<close> is that algorithm on the rows of
  Stage 2, keyed by their similarity.
\<close>

record libs =
  cosine :: "vec \<Rightarrow> vec \<Rightarrow> error + pyfloat"
  linspace :: "int \<Rightarrow> int \<Rightarrow> int \<Rightarrow> error + int list"
  sort_unordered :: "scored list \<Rightarrow> scored list"

subsection \<open>Stage 2: \<open>verify_with_cnn\<close>\<close>

text \<open>
  \<open>SELECT title FROM media WHERE id = ?\<close> followed by \<open>cursor.fetchone()[0]\<close>:
  with no such row \<open>fetchone()\<close> is \<open>None\<close> and the subscript raises \<open>TypeError\<close>.
\<close>

definition select_title :: "database \<Rightarrow> int \<Rightarrow> error + string" where
  "select_title db media_id =
     (case filter (\<lambda>m. m_id m = media_id) (media db) of
        [] \<Rightarrow> Inl TypeError
      | m # _ \<Rightarrow> Inr (m_title m))"

text \<open>
  The loop over the candidates. \<open>similarity = 1 - cosine(query_features, cnn_features)\<close>
  is float arithmetic: a NaN distance gives a NaN similarity, and the row is appended
  like any other.
\<close>

fun verify_rows ::
  "libs \<Rightarrow> database \<Rightarrow> vec \<Rightarrow> scored list \<Rightarrow> candidate list \<Rightarrow> error + scored list" where
  "verify_rows L db query_features results [] = Inr results"
| "verify_rows L db query_features results
      ((fp_id, media_id, timestamp, phash, cnn_blob) # rest) =
     (case cosine L query_features cnn_blob of Inl e \<Rightarrow> Inl e
      | Inr d \<Rightarrow>
          (case select_title db media_id of Inl e \<Rightarrow> Inl e
           | Inr title \<Rightarrow>
               verify_rows L db query_features
                 (results @ [(media_id, title, timestamp, float_sub (Num 1) d)]) rest))"

text \<open>
  \<open>results.sort(key=lambda x: x[3], reverse=True)\<close>: CPython reverses the list, sorts it
  ascending and reverses the result. When every key is a number the ascending sort is
  the stable one, so that equal keys keep their original order; \<open>number\<close> reads the key
  there. When a key is NaN the ascending sort is the interpreter's \<open>sort_unordered\<close>.
\<close>

definition number :: "pyfloat \<Rightarrow> real" where
  "number x = (case x of Num r \<Rightarrow> r | NaN \<Rightarrow> 0)"

definition list_sort_reverse :: "libs \<Rightarrow> scored list \<Rightarrow> scored list" where
  "list_sort_reverse L xs =
     (if list_all (\<lambda>x. scored_similarity x \<noteq> NaN) xs
      then rev (sort_key (\<lambda>x. number (scored_similarity x)) (rev xs))
      else rev (sort_unordered L (rev xs)))"

definition verify_with_cnn ::
  "libs \<Rightarrow> database \<Rightarrow> candidate list \<Rightarrow> vec \<Rightarrow> error + scored list" where
  "verify_with_cnn L db candidates query_features =
     (case verify_rows L db query_features [] candidates of Inl e \<Rightarrow> Inl e
      | Inr results \<Rightarrow> Inr (list_sort_reverse L results))"

subsection \<open>SciPy's cosine distance\<close>

text \<open>
  The documented formula of \<open>scipy.spatial.distance.cosine\<close>,
  \<open>1 - u.v / (|u| |v|)\<close>, with the two outcomes that are not a real number written out:
  vectors of different length are rejected with \<open>ValueError\<close>, and a zero magnitude makes
  the quotient a division by zero, whose floating-point result is NaN. The source line
  \<open>similarity = 1 - cosine(query_features, cnn_features)\<close> is \<open>similarity_score\<close>.
  \<open>cosine_float\<close> is the same function with the value NaN in place of the mark
  \<open>NotANumber\<close>: the float that SciPy returns.
\<close>

definition dot :: "vec \<Rightarrow> vec \<Rightarrow> real" where
  "dot u v = sum_list (map (\<lambda>(a, b). a * b) (zip u v))"

definition cosine_distance :: "vec \<Rightarrow> vec \<Rightarrow> error + real" where
  "cosine_distance u v =
     (if length u \<noteq> length v then Inl ValueError
      else if dot u u * dot v v = 0 then Inl NotANumber
      else Inr (1 - dot u v / sqrt (dot u u * dot v v)))"

definition similarity_score :: "vec \<Rightarrow> vec \<Rightarrow> error + real" where
  "similarity_score query_features cnn_features =
     (case cosine_distance query_features cnn_features of Inl e \<Rightarrow> Inl e
      | Inr d \<Rightarrow> Inr (1 - d))"

definition cosine_float :: "vec \<Rightarrow> vec \<Rightarrow> error + pyfloat" where
  "cosine_float u v =
     (case cosine_distance u v of
        Inl e \<Rightarrow> (if e = NotANumber then Inr NaN else Inl e)
      | Inr d \<Rightarrow> Inr (Num d))"

section \<open>Recognizer (src/visrec/recognizer.py, src/visrec/models.py)\<close>

datatype MatchType = STRONG | PROBABLE | WEAK | NONE

record RecognitionResult =
  matched :: bool
  title :: "string option"
  year :: "int option"
  timestamp :: "real option"
  confidence :: "real option"
  match_type :: MatchType
  processing_time_ms :: "real option"
  stage1_candidates :: int
  stage2_candidates :: int
  frames_sampled :: int
  frames_matched :: int

text \<open>\<open>RecognitionResult(matched=b)\<close>: every other field takes its dataclass default.\<close>

definition RecognitionResult_default :: "bool \<Rightarrow> RecognitionResult" where
  "RecognitionResult_default b =
     \<lparr>matched = b, title = None, year = None, timestamp = None, confidence = None,
      match_type = NONE, processing_time_ms = None, stage1_candidates = 0,
      stage2_candidates = 0, frames_sampled = 0, frames_matched = 0\<rparr>"

definition get_match_type :: "real \<Rightarrow> MatchType" where
  "get_match_type similarity =
     (if similarity \<ge> 0.95 then STRONG
      else if similarity \<ge> 0.80 then PROBABLE
      else if similarity \<ge> 0.70 then WEAK
      else NONE)"

text \<open>
  The recognizer object: its database, the two extractor methods (external collaborators,
  over an abstract frame type \<open>'f\<close>) and the two thresholds.
\<close>

record 'f recognizer =
  db :: database
  compute_phash :: "'f \<Rightarrow> string"
  compute_cnn_features :: "'f \<Rightarrow> vec"
  phash_threshold :: int
  cnn_threshold :: real

definition get_year :: "database \<Rightarrow> int \<Rightarrow> int option" where
  "get_year d media_id =
     (case filter (\<lambda>m. m_id m = media_id) (media d) of [] \<Rightarrow> None | row # _ \<Rightarrow> m_year row)"

text \<open>
  A match is a row of Stage 2 that has passed \<open>m[3] >= self.cnn_threshold\<close>. The
  comparison is false for NaN, so the similarity of a row that passes is a number, and
  from here on the tuple \<open>(media_id, title, timestamp, similarity)\<close> carries it as a
  real. \<open>at_least\<close> is the test of the comprehension
  \<open>[m for m in matches if m[3] >= self.cnn_threshold]\<close>: the row, if it is kept.
\<close>

type_synonym match = "int \<times> string \<times> real \<times> real"

definition match_media_id :: "match \<Rightarrow> int" where
  "match_media_id m = fst m"

definition match_title :: "match \<Rightarrow> string" where
  "match_title m = fst (snd m)"

definition match_timestamp :: "match \<Rightarrow> real" where
  "match_timestamp m = fst (snd (snd m))"

definition match_similarity :: "match \<Rightarrow> real" where
  "match_similarity m = snd (snd (snd m))"

definition at_least :: "real \<Rightarrow> scored \<Rightarrow> match option" where
  "at_least threshold m =
     (case m of (media_id, name, time, similarity) \<Rightarrow>
        (case similarity of
           NaN \<Rightarrow> None
         | Num s \<Rightarrow> if s \<ge> threshold then Some (media_id, name, time, s) else None))"

text \<open>
  \<open>_match_frame\<close>. \<open>match_frame_valid\<close> is the list \<open>valid\<close> of the source (\<open>[]\<close> when
  Stage 1 finds nothing, in which case the source returns before computing it).
\<close>

definition match_frame_valid :: "libs \<Rightarrow> 'f recognizer \<Rightarrow> 'f \<Rightarrow> error + match list" where
  "match_frame_valid L self frame =
     (let phash = compute_phash self frame;
          cnn_features = compute_cnn_features self frame
      in case search_by_phash (db self) phash (phash_threshold self) 50 of Inl e \<Rightarrow> Inl e
         | Inr candidates \<Rightarrow>
             if candidates = [] then Inr []
             else (case verify_with_cnn L (db self) candidates cnn_features of
                     Inl e \<Rightarrow> Inl e
                   | Inr matches \<Rightarrow>
                       Inr (List.map_filter (at_least (cnn_threshold self)) matches)))"

definition match_frame :: "libs \<Rightarrow> 'f recognizer \<Rightarrow> 'f \<Rightarrow> error + match option" where
  "match_frame L self frame =
     (case match_frame_valid L self frame of Inl e \<Rightarrow> Inl e
      | Inr [] \<Rightarrow> Inr None
      | Inr (best # _) \<Rightarrow> Inr (Some best))"

subsection \<open>Voting: \<open>Counter\<close>, \<open>most_common(1)\<close> and \<open>max\<close>\<close>

text \<open>
  A \<open>Counter\<close> is a dictionary, which keeps its keys in the order of their first
  insertion: an association list. \<open>most_common(1)\<close> is \<open>heapq.nlargest(1, items,
  key=count)\<close>, which is \<open>max(items, key=count)\<close>; Python's \<open>max\<close> walks the sequence
  and replaces its current best only by a strictly greater element, and raises
  \<open>ValueError\<close> on an empty sequence.
\<close>

fun counter_add :: "('k \<times> nat) list \<Rightarrow> 'k \<Rightarrow> ('k \<times> nat) list" where
  "counter_add [] k = [(k, 1)]"
| "counter_add ((k', n) # rest) k =
     (if k' = k then (k', n + 1) # rest else (k', n) # counter_add rest k)"

definition Counter :: "'k list \<Rightarrow> ('k \<times> nat) list" where
  "Counter xs = foldl counter_add [] xs"

fun max_loop :: "('a \<Rightarrow> 'k::linorder) \<Rightarrow> 'a \<Rightarrow> 'a list \<Rightarrow> 'a" where
  "max_loop key best [] = best"
| "max_loop key best (x # xs) = max_loop key (if key x > key best then x else best) xs"

definition max_key :: "('a \<Rightarrow> 'k::linorder) \<Rightarrow> 'a list \<Rightarrow> error + 'a" where
  "max_key key xs = (case xs of [] \<Rightarrow> Inl ValueError | x # rest \<Rightarrow> Inr (max_loop key x rest))"

definition most_common1 :: "('k \<times> nat) list \<Rightarrow> ('k \<times> nat) list" where
  "most_common1 c = (case max_key snd c of Inl e \<Rightarrow> [] | Inr item \<Rightarrow> [item])"

text \<open>\<open>title_votes.most_common(1)[0][0]\<close>; the subscript \<open>[0]\<close> of an empty list raises.\<close>

definition winning_title_of :: "match list \<Rightarrow> error + string" where
  "winning_title_of all_matches =
     (case most_common1 (Counter (map match_title all_matches)) of
        [] \<Rightarrow> Inl IndexError
      | item # _ \<Rightarrow> Inr (fst item))"

subsection \<open>\<open>_identify_video\<close>, \<open>_identify_image\<close> and \<open>identify\<close>\<close>

text \<open>
  An opened \<open>cv2.VideoCapture\<close>: the frame count it reports, its frame rate, the state
  the capture is in when it is opened, and what
  \<open>video.set(cv2.CAP_PROP_POS_FRAMES, i); video.read()\<close> does in a state: it yields a
  frame (\<open>None\<close> when \<open>ret\<close> is false) and leaves the capture in a new state. What the
  capture yields for an index may thus depend on what was read before.
\<close>

record ('f, 's) video =
  total_frames :: int
  fps :: real
  opened :: 's
  read_frame :: "'s \<Rightarrow> int \<Rightarrow> 'f option \<times> 's"

text \<open>
  The sampling loop; the state is the capture's state and
  \<open>(all_matches, total_stage1, total_stage2)\<close>.
\<close>

fun sample_loop ::
  "libs \<Rightarrow> 'f recognizer \<Rightarrow> ('f, 's) video \<Rightarrow> 's \<Rightarrow> match list \<times> int \<times> int \<Rightarrow> int list
     \<Rightarrow> error + match list \<times> int \<times> int" where
  "sample_loop L self v s st [] = Inr st"
| "sample_loop L self v s (all_matches, total_stage1, total_stage2) (frame_idx # rest) =
     (case read_frame v s frame_idx of (ret, s') \<Rightarrow>
        (case ret of
           None \<Rightarrow> sample_loop L self v s' (all_matches, total_stage1, total_stage2) rest
         | Some frame \<Rightarrow>
             (case match_frame L self frame of Inl e \<Rightarrow> Inl e
              | Inr None \<Rightarrow>
                  sample_loop L self v s' (all_matches, total_stage1, total_stage2) rest
              | Inr (Some m) \<Rightarrow>
                  sample_loop L self v s' (all_matches @ [m], total_stage1, total_stage2 + 1)
                    rest)))"

text \<open>Lines 159 to 188 of \<open>_identify_video\<close>: from the collected matches to the result.\<close>

definition aggregate ::
  "database \<Rightarrow> int \<Rightarrow> match list \<times> int \<times> int \<Rightarrow> error + RecognitionResult" where
  "aggregate d sample_frames st =
     (case st of (all_matches, total_stage1, total_stage2) \<Rightarrow>
        if all_matches = [] then
          Inr ((RecognitionResult_default False)
                 \<lparr>frames_sampled := sample_frames, frames_matched := 0\<rparr>)
        else
          (case winning_title_of all_matches of Inl e \<Rightarrow> Inl e
           | Inr winning_title \<Rightarrow>
               (case max_key match_similarity
                       (filter (\<lambda>m. match_title m = winning_title) all_matches) of
                  Inl e \<Rightarrow> Inl e
                | Inr best \<Rightarrow>
                    Inr \<lparr>matched = True,
                         title = Some (match_title best),
                         year = get_year d (match_media_id best),
                         timestamp = Some (match_timestamp best),
                         confidence = Some (match_similarity best),
                         match_type = get_match_type (match_similarity best),
                         processing_time_ms = None,
                         stage1_candidates = total_stage1,
                         stage2_candidates = total_stage2,
                         frames_sampled = sample_frames,
                         frames_matched = int (length all_matches)\<rparr>)))"

definition identify_video ::
  "libs \<Rightarrow> 'f recognizer \<Rightarrow> ('f, 's) video option \<Rightarrow> int \<Rightarrow> error + RecognitionResult" where
  "identify_video L self capture sample_frames =
     (case capture of
        None \<Rightarrow> Inr (RecognitionResult_default False)
      | Some v \<Rightarrow>
          (case linspace L 0 (total_frames v - 1) sample_frames of Inl e \<Rightarrow> Inl e
           | Inr frame_indices \<Rightarrow>
               (case sample_loop L self v (opened v) ([], 0, 0) frame_indices of Inl e \<Rightarrow> Inl e
                | Inr st \<Rightarrow> aggregate (db self) sample_frames st)))"

definition identify_image :: "libs \<Rightarrow> 'f recognizer \<Rightarrow> 'f option \<Rightarrow> error + RecognitionResult" where
  "identify_image L self img =
     (case img of
        None \<Rightarrow> Inr (RecognitionResult_default False)
      | Some frame \<Rightarrow>
          (case match_frame L self frame of Inl e \<Rightarrow> Inl e
           | Inr None \<Rightarrow>
               Inr ((RecognitionResult_default False)\<lparr>frames_sampled := 1, frames_matched := 0\<rparr>)
           | Inr (Some m) \<Rightarrow>
               Inr ((RecognitionResult_default True)
                      \<lparr>title := Some (match_title m),
                       year := get_year (db self) (match_media_id m),
                       timestamp := Some (match_timestamp m),
                       confidence := Some (match_similarity m),
                       match_type := get_match_type (match_similarity m),
                       frames_sampled := 1,
                       frames_matched := 1\<rparr>)))"

text \<open>
  \<open>identify\<close>: the path's extension selects the image or the video branch; the argument
  is what the path denotes, \<open>cv2.imread\<close>'s frame (\<open>None\<close> when the file cannot be read)
  or the \<open>cv2.VideoCapture\<close> (\<open>None\<close> when it is not opened). \<open>elapsed_ms\<close> is the
  measured \<open>(time.time() - start_time) * 1000\<close>. No branch catches an exception: one
  raised while a frame is matched leaves \<open>identify\<close>.
\<close>

datatype ('f, 's) media_file = Image_file "'f option" | Video_file "('f, 's) video option"

definition identify ::
  "libs \<Rightarrow> 'f recognizer \<Rightarrow> ('f, 's) media_file \<Rightarrow> int \<Rightarrow> real \<Rightarrow> error + RecognitionResult" where
  "identify L self path sample_frames elapsed_ms =
     (case (case path of
              Image_file img \<Rightarrow> identify_image L self img
            | Video_file capture \<Rightarrow> identify_video L self capture sample_frames) of
        Inl e \<Rightarrow> Inl e
      | Inr result \<Rightarrow> Inr (result\<lparr>processing_time_ms := Some elapsed_ms\<rparr>))"

section \<open>Auxiliary notions for stating the properties\<close>

text \<open>
  A hash the model parses: a non-empty string of hexadecimal digits. \<open>distance_to\<close> is
  the Hamming distance of a candidate to the query where \<open>hamming_distance\<close> returns
  one. \<open>ids_ascending\<close> says that the rows of the fingerprint table carry ascending ids,
  none above the table's counter, as \<open>AUTOINCREMENT\<close> assigns them.
\<close>

definition is_hex :: "string \<Rightarrow> bool" where
  "is_hex s = (s \<noteq> [] \<and> list_all (\<lambda>c. hex_value c \<noteq> None) s)"

definition distance_to :: "string \<Rightarrow> candidate \<Rightarrow> nat" where
  "distance_to query_hash x =
     (case hamming_distance query_hash (cand_phash x) of Inl e \<Rightarrow> 0 | Inr d \<Rightarrow> d)"

definition ids_ascending :: "database \<Rightarrow> bool" where
  "ids_ascending d =
     (sorted_wrt (<) (map f_id (fingerprints d))
      \<and> list_all (\<lambda>r. f_id r \<le> fingerprints_seq d) (fingerprints d))"

text \<open>
  The magnitude of a vector. \<open>scored_row\<close> is the row \<open>verify_with_cnn\<close> appends for a
  candidate. \<open>has_media_row\<close> says that the candidate's media row exists, and
  \<open>returns_float\<close> that the cosine call made for it returns a float, a number or NaN,
  and does not raise; \<open>scorable\<close> says both. \<open>sort_permutes\<close> says of the interpreter's
  sort that it returns a rearrangement of its argument.
\<close>

definition magnitude :: "vec \<Rightarrow> real" where
  "magnitude v = sqrt (dot v v)"

definition scored_row :: "libs \<Rightarrow> database \<Rightarrow> vec \<Rightarrow> candidate \<Rightarrow> scored" where
  "scored_row L d query_features c =
     (cand_media_id c,
      (case select_title d (cand_media_id c) of Inl e \<Rightarrow> [] | Inr t \<Rightarrow> t),
      cand_timestamp c,
      float_sub (Num 1)
        (case cosine L query_features (cand_blob c) of Inl e \<Rightarrow> NaN | Inr dv \<Rightarrow> dv))"

definition has_media_row :: "database \<Rightarrow> candidate \<Rightarrow> bool" where
  "has_media_row d c =
     (case select_title d (cand_media_id c) of Inl e \<Rightarrow> False | Inr t \<Rightarrow> True)"

definition returns_float :: "libs \<Rightarrow> vec \<Rightarrow> candidate \<Rightarrow> bool" where
  "returns_float L query_features c =
     (case cosine L query_features (cand_blob c) of Inl e \<Rightarrow> False | Inr dv \<Rightarrow> True)"

definition scorable :: "libs \<Rightarrow> database \<Rightarrow> vec \<Rightarrow> candidate \<Rightarrow> bool" where
  "scorable L d query_features c = (returns_float L query_features c \<and> has_media_row d c)"

definition sort_permutes :: "libs \<Rightarrow> bool" where
  "sort_permutes L = (\<forall>xs. mset (sort_unordered L xs) = mset xs)"

text \<open>
  \<open>votes\<close> counts the collected matches that carry a title, and \<open>best_matches\<close> lists
  the matches of a title that have the highest similarity among them. \<open>frames_read\<close> is the
  sequence of frames a capture yields when it is asked for the sampled indices in order,
  as the sampling loop asks it (the loop stops at a frame that raises), and
  \<open>frame_outcome\<close> is what the loop gets for one of them: nothing for a frame that
  cannot be read, and the result of \<open>_match_frame\<close> otherwise. \<open>no_match\<close> says that a
  frame yields no match without raising, \<open>frame_ok\<close> that it raises nothing, and
  \<open>matches_of\<close> lists the matches among a sequence of outcomes.
\<close>

definition votes :: "match list \<Rightarrow> string \<Rightarrow> nat" where
  "votes all_matches t = count_list (map match_title all_matches) t"

definition best_matches :: "match list \<Rightarrow> string \<Rightarrow> match list" where
  "best_matches all_matches w =
     filter (\<lambda>m. match_title m = w
                 \<and> list_all (\<lambda>z. match_title z = w \<longrightarrow> match_similarity z \<le> match_similarity m)
                      all_matches)
       all_matches"

fun frames_read :: "('f, 's) video \<Rightarrow> 's \<Rightarrow> int list \<Rightarrow> 'f option list" where
  "frames_read v s [] = []"
| "frames_read v s (i # idxs) =
     fst (read_frame v s i) # frames_read v (snd (read_frame v s i)) idxs"

definition frame_outcome :: "libs \<Rightarrow> 'f recognizer \<Rightarrow> 'f option \<Rightarrow> error + match option" where
  "frame_outcome L self ret =
     (case ret of None \<Rightarrow> Inr None | Some frame \<Rightarrow> match_frame L self frame)"

definition no_match :: "libs \<Rightarrow> 'f recognizer \<Rightarrow> 'f option \<Rightarrow> bool" where
  "no_match L self ret = (frame_outcome L self ret = Inr None)"

definition frame_ok :: "libs \<Rightarrow> 'f recognizer \<Rightarrow> 'f option \<Rightarrow> bool" where
  "frame_ok L self ret = (case frame_outcome L self ret of Inl e \<Rightarrow> False | Inr m \<Rightarrow> True)"

definition matches_of :: "match option list \<Rightarrow> match list" where
  "matches_of outcomes = List.map_filter (\<lambda>m. m) outcomes"

section \<open>Concrete inputs\<close>

text \<open>
  A store holding one media item and one fingerprint with a 16-digit hash and a
  two-dimensional feature vector.
\<close>

definition store_with_one :: database where
  "store_with_one =
     add_fingerprints (snd (add_media create_tables ''A'' None None None None)) 1
       [(0, ''ffffffffffffffff'', [1, 0])]"

text \<open>
  A store built by the insertion operations: media \<open>A\<close> with two fingerprints and media
  \<open>B\<close> with three. Against the query hash \<open>ffffffffffffffff\<close> the five stored hashes
  are at Hamming distances 3, 0, 4, 64 and 3.
\<close>

definition example_store :: database where
  "example_store =
     (let (a, d1) = add_media create_tables ''A'' (Some 2012) None None None;
          d2 = add_fingerprints d1 a
                 [(10, ''fffffffffffffff8'', [1, 0]), (20, ''ffffffffffffffff'', [1, 0])];
          (b, d3) = add_media d2 ''B'' None None None None
      in add_fingerprints d3 b
           [(30, ''fffffffffffffff0'', [0, 1]), (40, ''0000000000000000'', [0, 1]),
            (50, ''fffffffffffffff1'', [0, 1])])"

text \<open>
  A store in which the first of two fingerprints has the zero vector, and a store whose
  only fingerprint names a media id that has no row (\<open>add_fingerprints\<close> accepts any
  \<open>media_id\<close>).
\<close>

definition zero_vector_store :: database where
  "zero_vector_store =
     (let (a, d1) = add_media create_tables ''A'' None None None None;
          d2 = add_fingerprints d1 a [(10, ''ffffffffffffffff'', [0, 0])];
          (b, d3) = add_media d2 ''B'' None None None None
      in add_fingerprints d3 b [(20, ''ffffffffffffffff'', [1, 0])])"

definition orphan_store :: database where
  "orphan_store = add_fingerprints create_tables 7 [(0, ''ffffffffffffffff'', [1, 0])]"

text \<open>
  A store for the vote: media \<open>A\<close> with three fingerprints and media \<open>B\<close> with two, whose
  five-dimensional feature vectors are the unit vectors of the five axes. All five
  hashes are within distance 4 of \<open>ffffffffffffffff\<close>.
\<close>

definition vote_store :: database where
  "vote_store =
     (let (a, d1) = add_media create_tables ''A'' (Some 2012) None None None;
          d2 = add_fingerprints d1 a
                 [(10, ''fffffffffffffff8'', [1, 0, 0, 0, 0]),
                  (20, ''ffffffffffffffff'', [0, 1, 0, 0, 0]),
                  (30, ''fffffffffffffff0'', [0, 0, 1, 0, 0])];
          (b, d3) = add_media d2 ''B'' None None None None
      in add_fingerprints d3 b
           [(40, ''fffffffffffffff1'', [0, 0, 0, 1, 0]),
            (50, ''fffffffffffffff3'', [0, 0, 0, 0, 1])])"

text \<open>
  The library functions of the examples. \<open>linspace_exact\<close> is
  \<open>np.linspace(start, stop, num, dtype=int)\<close> evaluated in exact arithmetic and rounded
  down (\<open>num < 0\<close> is NumPy's \<open>ValueError\<close>). NumPy computes \<open>start + i * step\<close> in double
  precision, which gives the same list wherever \<open>num - 1\<close> divides \<open>stop - start\<close>, and
  for \<open>num \<le> 1\<close>; the examples use it only there. The cosine distance is SciPy's.
\<close>

definition linspace_exact :: "int \<Rightarrow> int \<Rightarrow> int \<Rightarrow> error + int list" where
  "linspace_exact start stop num =
     (if num < 0 then Inl ValueError
      else if num = 1 then Inr [start]
      else Inr (map (\<lambda>i. start + (int i * (stop - start)) div (num - 1)) [0..<nat num]))"

text \<open>
  CPython's \<open>list.sort\<close> on a list of fewer than 64 elements (\<open>listobject.c\<close> of
  CPython 3.11), with \<open><\<close> on floats as the comparison: \<open>count_run\<close> finds the run the
  list starts with, either the longest prefix in which no key is less than the one
  before it, or the longest prefix in which every key is less than the one before it,
  which is then reversed; \<open>binarysort\<close> inserts each of the remaining elements into the
  run, at the place a binary search for its key ends at.
\<close>

fun run_ascending :: "scored list \<Rightarrow> nat" where
  "run_ascending (x # y # rest) =
     (if float_lt (scored_similarity y) (scored_similarity x) then 1
      else 1 + run_ascending (y # rest))"
| "run_ascending [x] = 1"
| "run_ascending [] = 0"

fun run_descending :: "scored list \<Rightarrow> nat" where
  "run_descending (x # y # rest) =
     (if float_lt (scored_similarity y) (scored_similarity x) then 1 + run_descending (y # rest)
      else 1)"
| "run_descending [x] = 1"
| "run_descending [] = 0"

definition count_run :: "scored list \<Rightarrow> nat \<times> bool" where
  "count_run xs =
     (case xs of
        x # y # rest \<Rightarrow>
          if float_lt (scored_similarity y) (scored_similarity x) then (run_descending xs, True)
          else (run_ascending xs, False)
      | _ \<Rightarrow> (length xs, False))"

function bisect :: "pyfloat \<Rightarrow> scored list \<Rightarrow> nat \<Rightarrow> nat \<Rightarrow> nat" where
  "bisect pivot xs l r =
     (if l < r then
        (let p = l + (r - l) div 2 in
         if float_lt pivot (scored_similarity (xs ! p)) then bisect pivot xs l p
         else bisect pivot xs (p + 1) r)
      else l)"
  by pat_completeness auto

termination bisect
  by (relation "measure (\<lambda>(pivot, xs, l, r). r - l)") auto

declare bisect.simps [simp del]

definition binary_insert :: "scored list \<Rightarrow> scored \<Rightarrow> scored list" where
  "binary_insert run x =
     (let l = bisect (scored_similarity x) run 0 (length run)
      in take l run @ x # drop l run)"

definition binarysort :: "scored list \<Rightarrow> scored list \<Rightarrow> scored list" where
  "binarysort run rest = foldl binary_insert run rest"

definition timsort_short :: "scored list \<Rightarrow> scored list" where
  "timsort_short xs =
     (case count_run xs of (n, descending) \<Rightarrow>
        binarysort (if descending then rev (take n xs) else take n xs) (drop n xs))"

definition example_libs :: libs where
  "example_libs =
     \<lparr>cosine = cosine_float, linspace = linspace_exact, sort_unordered = timsort_short\<rparr>"

text \<open>
  Recognizers over the example store, the store for the vote and the store with the
  zero vector, with the default thresholds. A frame of the examples is the pair of
  fingerprints the extractor computes for it.
\<close>

definition example_recognizer :: "(string \<times> vec) recognizer" where
  "example_recognizer =
     \<lparr>db = example_store, compute_phash = fst, compute_cnn_features = snd,
      phash_threshold = 15, cnn_threshold = 0.6\<rparr>"

definition vote_recognizer :: "(string \<times> vec) recognizer" where
  "vote_recognizer =
     \<lparr>db = vote_store, compute_phash = fst, compute_cnn_features = snd,
      phash_threshold = 15, cnn_threshold = 0.6\<rparr>"

definition zero_vector_recognizer :: "(string \<times> vec) recognizer" where
  "zero_vector_recognizer =
     \<lparr>db = zero_vector_store, compute_phash = fst, compute_cnn_features = snd,
      phash_threshold = 15, cnn_threshold = 0.6\<rparr>"

text \<open>
  Collected matches \<open>(media_id, title, timestamp, similarity)\<close>: the five frames of the
  specification's example in two orders, and two lists in which \<open>A\<close> and \<open>B\<close> tie.
\<close>

definition five_frames :: "match list" where
  "five_frames =
     [(1, ''A'', 10, 0.81), (1, ''A'', 20, 0.85), (1, ''A'', 30, 0.90),
      (2, ''B'', 40, 0.99), (2, ''B'', 50, 0.99)]"

definition five_frames_shuffled :: "match list" where
  "five_frames_shuffled =
     [(2, ''B'', 40, 0.99), (1, ''A'', 10, 0.81), (2, ''B'', 50, 0.99),
      (1, ''A'', 30, 0.90), (1, ''A'', 20, 0.85)]"

definition tie_frames :: "match list" where
  "tie_frames =
     [(2, ''B'', 40, 0.6), (1, ''A'', 10, 0.9), (1, ''A'', 20, 0.7), (2, ''B'', 50, 0.8)]"

definition tie_frames_two :: "match list" where
  "tie_frames_two = [(1, ''A'', 10, 0.7), (2, ''B'', 40, 0.9)]"

text \<open>
  Clips whose capture yields the same frame for an index whenever it is asked: a clip of
  one frame that matches; a clip of five sampled frames none of which gives a match
  (the first cannot be read, the second has only NaN similarities, the third has no
  similarity above the threshold, the fourth has no Stage-1 candidate, the fifth cannot
  be read); and a clip of which only the third frame can be read, whose feature vector
  has three dimensions where the stored vectors have two.
\<close>

definition clip_of :: "int \<Rightarrow> (int \<Rightarrow> 'f option) \<Rightarrow> ('f, unit) video" where
  "clip_of n frames =
     \<lparr>total_frames = n, fps = 25, opened = (), read_frame = (\<lambda>s i. (frames i, s))\<rparr>"

definition one_frame_video :: "(string \<times> vec, unit) video" where
  "one_frame_video =
     clip_of 1 (\<lambda>i. if i = 0 then Some (''ffffffffffffffff'', [1, 0]) else None)"

definition no_match_video :: "(string \<times> vec, unit) video" where
  "no_match_video =
     clip_of 5 (\<lambda>i. if i = 1 then Some (''ffffffffffffffff'', [0, 0])
                    else if i = 2 then Some (''ffffffffffffffff'', [-1, 0])
                    else if i = 3 then Some (''00000000ffffffff'', [1, 0])
                    else None)"

definition raising_video :: "(string \<times> vec, unit) video" where
  "raising_video =
     clip_of 5 (\<lambda>i. if i = 2 then Some (''ffffffffffffffff'', [1, 0, 0]) else None)"

text \<open>
  Two clips of five frames over the store for the vote. The feature vectors have the
  magnitudes 100, 20, 10, 100 and 100, so that the similarities of the five frames to the
  fingerprints they match are 0.81, 0.85, 0.90 (with \<open>A\<close>) and 0.99, 0.99 (with \<open>B\<close>).
  The second clip holds the same frames in another order.
\<close>

definition frame_at :: "'f list \<Rightarrow> int \<Rightarrow> 'f option" where
  "frame_at frames i =
     (if 0 \<le> i \<and> i < int (length frames) then Some (frames ! nat i) else None)"

definition vote_frames :: "(string \<times> vec) list" where
  "vote_frames =
     [(''ffffffffffffffff'', [81, 58, 5, 5, 5]),
      (''ffffffffffffffff'', [10, 17, 3, 1, 1]),
      (''ffffffffffffffff'', [3, 3, 9, 1, 0]),
      (''ffffffffffffffff'', [1, 1, 1, 99, 14]),
      (''ffffffffffffffff'', [1, 1, 1, 14, 99])]"

definition vote_frames_shuffled :: "(string \<times> vec) list" where
  "vote_frames_shuffled =
     [(''ffffffffffffffff'', [1, 1, 1, 99, 14]),
      (''ffffffffffffffff'', [81, 58, 5, 5, 5]),
      (''ffffffffffffffff'', [1, 1, 1, 14, 99]),
      (''ffffffffffffffff'', [3, 3, 9, 1, 0]),
      (''ffffffffffffffff'', [10, 17, 3, 1, 1])]"

definition five_frame_clip :: "(string \<times> vec, unit) video" where
  "five_frame_clip = clip_of 5 (frame_at vote_frames)"

definition five_frame_clip_shuffled :: "(string \<times> vec, unit) video" where
  "five_frame_clip_shuffled = clip_of 5 (frame_at vote_frames_shuffled)"

section \<open>The store: insertion\<close>

lemma add_fingerprints_loop_rows:
  "fingerprints (add_fingerprints_loop d mid idx batch) =
     fingerprints d @
       map (\<lambda>(i, ts, ph, cnn).
              \<lparr>f_id = fingerprints_seq d + 1 + int (i - idx), f_media_id = mid,
               f_timestamp = ts, f_frame_index = i, f_phash = ph, f_cnn_features = cnn\<rparr>)
         (enumerate idx batch)"
proof (induction batch arbitrary: d idx)
  case Nil
  then show ?case by simp
next
  case (Cons a batch)
  obtain ts ph cnn where a: "a = (ts, ph, cnn)" by (cases a)
  let ?d = "insert_fingerprint d mid ts idx ph cnn"
  have shift:
    "map (\<lambda>(i, ts, ph, cnn).
            \<lparr>f_id = fingerprints_seq ?d + 1 + int (i - Suc idx), f_media_id = mid,
             f_timestamp = ts, f_frame_index = i, f_phash = ph, f_cnn_features = cnn\<rparr>)
       (enumerate (Suc idx) batch) =
     map (\<lambda>(i, ts, ph, cnn).
            \<lparr>f_id = fingerprints_seq d + 1 + int (i - idx), f_media_id = mid,
             f_timestamp = ts, f_frame_index = i, f_phash = ph, f_cnn_features = cnn\<rparr>)
       (enumerate (Suc idx) batch)"
  proof (rule map_cong[OF refl])
    fix x assume "x \<in> set (enumerate (Suc idx) batch)"
    then have "Suc idx \<le> fst x" by (auto simp: in_set_enumerate_eq)
    then show
      "(case x of (i, ts, ph, cnn) \<Rightarrow>
          \<lparr>f_id = fingerprints_seq ?d + 1 + int (i - Suc idx), f_media_id = mid,
           f_timestamp = ts, f_frame_index = i, f_phash = ph, f_cnn_features = cnn\<rparr>) =
       (case x of (i, ts, ph, cnn) \<Rightarrow>
          \<lparr>f_id = fingerprints_seq d + 1 + int (i - idx), f_media_id = mid,
           f_timestamp = ts, f_frame_index = i, f_phash = ph, f_cnn_features = cnn\<rparr>)"
      by (cases x) (auto simp: insert_fingerprint_def)
  qed
  have "fingerprints (add_fingerprints_loop d mid idx (a # batch)) =
        fingerprints (add_fingerprints_loop ?d mid (Suc idx) batch)"
    by (simp add: a)
  also have "\<dots> = fingerprints ?d @
       map (\<lambda>(i, ts, ph, cnn).
              \<lparr>f_id = fingerprints_seq ?d + 1 + int (i - Suc idx), f_media_id = mid,
               f_timestamp = ts, f_frame_index = i, f_phash = ph, f_cnn_features = cnn\<rparr>)
         (enumerate (Suc idx) batch)"
    by (rule Cons.IH)
  finally show ?case
    unfolding shift by (simp add: a insert_fingerprint_def)
qed

lemma add_fingerprints_loop_seq:
  "fingerprints_seq (add_fingerprints_loop d mid idx batch) =
     fingerprints_seq d + int (length batch)"
  by (induction batch arbitrary: d idx) (auto simp: insert_fingerprint_def)

lemma add_fingerprints_loop_media:
  "media (add_fingerprints_loop d mid idx batch) = media d"
  by (induction batch arbitrary: d idx) (auto simp: insert_fingerprint_def)

lemma store_with_one_rows:
  "fingerprints store_with_one =
     [\<lparr>f_id = 1, f_media_id = 1, f_timestamp = 0, f_frame_index = 0,
       f_phash = ''ffffffffffffffff'', f_cnn_features = [1, 0]\<rparr>]"
  by (simp add: store_with_one_def add_fingerprints_def add_media_def create_tables_def
      insert_fingerprint_def)

lemma store_with_one_seq: "fingerprints_seq store_with_one = 1"
  by (simp add: store_with_one_def add_fingerprints_def add_media_def create_tables_def
      insert_fingerprint_def)

text \<open>
  C3, as the code behaves. \<open>add_fingerprints\<close> checks neither hash length nor vector
  dimension: every batch, whatever its hashes and vectors, is inserted in full and in
  order after the rows already stored, with consecutive ids and \<open>frame_index\<close> equal to
  the position in the batch; the media table is untouched and no error is raised.
\<close>

theorem add_fingerprints_inserts_whole_batch:
  "fingerprints (add_fingerprints d mid batch) =
     fingerprints d @
       map (\<lambda>(i, ts, ph, cnn).
              \<lparr>f_id = fingerprints_seq d + 1 + int i, f_media_id = mid,
               f_timestamp = ts, f_frame_index = i, f_phash = ph, f_cnn_features = cnn\<rparr>)
         (enumerate 0 batch)
   \<and> length (fingerprints (add_fingerprints d mid batch)) =
       length (fingerprints d) + length batch
   \<and> fingerprints_seq (add_fingerprints d mid batch) = fingerprints_seq d + int (length batch)
   \<and> media (add_fingerprints d mid batch) = media d"
  unfolding add_fingerprints_def
  by (simp add: add_fingerprints_loop_rows add_fingerprints_loop_seq add_fingerprints_loop_media)

text \<open>
  C3 as stated fails: the store's first fingerprint has a 16-digit hash and a
  two-dimensional vector; a batch whose only element has a 2-digit hash and a
  three-dimensional vector is inserted, and the store changes.
\<close>

theorem add_fingerprints_mismatch_counterexample:
  "map f_phash (fingerprints store_with_one) = [''ffffffffffffffff'']
   \<and> map f_cnn_features (fingerprints store_with_one) = [[1, 0]]
   \<and> fingerprints (add_fingerprints store_with_one 1 [(1, ''ff'', [1, 0, 0])]) =
       fingerprints store_with_one @
         [\<lparr>f_id = 2, f_media_id = 1, f_timestamp = 1, f_frame_index = 0,
           f_phash = ''ff'', f_cnn_features = [1, 0, 0]\<rparr>]
   \<and> fingerprints (add_fingerprints store_with_one 1 [(1, ''ff'', [1, 0, 0])]) \<noteq>
       fingerprints store_with_one"
  by (simp add: add_fingerprints_def insert_fingerprint_def store_with_one_rows
      store_with_one_seq)

lemma add_media_fingerprints: "fingerprints (snd (add_media d t y f du tf)) = fingerprints d"
  by (simp add: add_media_def Let_def)

lemma insert_fingerprint_ids_ascending:
  "ids_ascending d \<Longrightarrow> ids_ascending (insert_fingerprint d mid ts idx ph cnn)"
  by (auto simp: ids_ascending_def insert_fingerprint_def sorted_wrt_append list_all_iff)

lemma add_fingerprints_loop_ids_ascending:
  "ids_ascending d \<Longrightarrow> ids_ascending (add_fingerprints_loop d mid idx batch)"
  by (induction batch arbitrary: d idx) (auto simp: insert_fingerprint_ids_ascending)

lemma add_fingerprints_ids_ascending:
  "ids_ascending d \<Longrightarrow> ids_ascending (add_fingerprints d mid batch)"
  by (simp add: add_fingerprints_def add_fingerprints_loop_ids_ascending)

lemma add_media_ids_ascending:
  "ids_ascending d \<Longrightarrow> ids_ascending (snd (add_media d t y f du tf))"
  by (simp add: ids_ascending_def add_media_def Let_def)

lemma create_tables_ids_ascending: "ids_ascending create_tables"
  by (simp add: ids_ascending_def create_tables_def)

section \<open>Stage 1: parsing, scanning and sorting\<close>

lemma int16_from_hex: "list_all (\<lambda>c. hex_value c \<noteq> None) s \<Longrightarrow> \<exists>n. int16_from acc s = Inr n"
  by (induction s arbitrary: acc) auto

lemma int16_from_Inr: "int16_from acc s = Inr n \<Longrightarrow> list_all (\<lambda>c. hex_value c \<noteq> None) s"
  by (induction s arbitrary: acc) (auto split: option.splits)

lemma int16_Inr_iff: "(\<exists>n. int16 s = Inr n) \<longleftrightarrow> is_hex s"
  using int16_from_hex[of s 0] int16_from_Inr[of 0 s]
  by (auto simp: int16_def is_hex_def)

lemma hamming_distance_Inr_iff:
  "(\<exists>k. hamming_distance h1 h2 = Inr k) \<longleftrightarrow> is_hex h1 \<and> is_hex h2"
  unfolding int16_Inr_iff[symmetric] hamming_distance_def
  by (auto split: sum.splits)

lemma hamming_distance_to:
  "hamming_distance q (cand_phash x) = Inr k \<Longrightarrow> distance_to q x = k"
  by (simp add: distance_to_def)

text \<open>
  For hashes of at most 16 hexadecimal digits the value is below \<open>2 ^ 64\<close>, the padded
  binary strings are the 64 bits of the two values, and \<open>hamming_distance\<close> is the
  number of bit positions in which they differ.
\<close>

lemma zfill_bin_bits:
  "n < 2 ^ w \<Longrightarrow> 0 < w \<Longrightarrow>
     zfill w (bin n) = map (\<lambda>i. if bit n (w - 1 - i) then CHR ''1'' else CHR ''0'') [0..<w]"
proof (induction w arbitrary: n)
  case 0
  then show ?case by simp
next
  case (Suc w)
  show ?case
  proof (cases "n < 2")
    case True
    then have b: "bin n = [if n = 0 then CHR ''0'' else CHR ''1'']" by (subst bin.simps) simp
    have hi: "\<not> bit n (Suc k)" for k using True by (simp add: bit_Suc)
    have "map (\<lambda>i. if bit n (Suc w - 1 - i) then CHR ''1'' else CHR ''0'') [0..<Suc w] =
          map (\<lambda>i. CHR ''0'') [0..<w] @ [if bit n 0 then CHR ''1'' else CHR ''0'']"
    proof -
      have "map (\<lambda>i. if bit n (Suc w - 1 - i) then CHR ''1'' else CHR ''0'') [0..<w] =
            map (\<lambda>i. CHR ''0'') [0..<w]"
      proof (rule map_cong[OF refl])
        fix i assume "i \<in> set [0..<w]"
        then have "Suc w - 1 - i = Suc (w - 1 - i)" by auto
        then show "(if bit n (Suc w - 1 - i) then CHR ''1'' else CHR ''0'') = CHR ''0''"
          using hi by simp
      qed
      then show ?thesis by simp
    qed
    moreover have "bit n 0 \<longleftrightarrow> n \<noteq> 0" using True by (cases "n = 0") (auto simp: bit_0)
    ultimately show ?thesis
      by (simp add: zfill_def b map_replicate_const)
  next
    case False
    then have b: "bin n = bin (n div 2) @ [if even n then CHR ''0'' else CHR ''1'']"
      by (subst bin.simps) simp
    have w: "0 < w" using Suc.prems False by (cases w) auto
    have d: "n div 2 < 2 ^ w" using Suc.prems by simp
    note ih = Suc.IH[OF d w]
    have "zfill (Suc w) (bin n) =
          zfill w (bin (n div 2)) @ [if even n then CHR ''0'' else CHR ''1'']"
      by (simp add: zfill_def b)
    also have "\<dots> = map (\<lambda>i. if bit (n div 2) (w - 1 - i) then CHR ''1'' else CHR ''0'') [0..<w]
                 @ [if even n then CHR ''0'' else CHR ''1'']"
      by (simp add: ih)
    also have "map (\<lambda>i. if bit (n div 2) (w - 1 - i) then CHR ''1'' else CHR ''0'') [0..<w] =
               map (\<lambda>i. if bit n (Suc w - 1 - i) then CHR ''1'' else CHR ''0'') [0..<w]"
    proof (rule map_cong[OF refl])
      fix i assume "i \<in> set [0..<w]"
      then have "Suc w - 1 - i = Suc (w - 1 - i)" by auto
      then show "(if bit (n div 2) (w - 1 - i) then CHR ''1'' else CHR ''0'') =
                 (if bit n (Suc w - 1 - i) then CHR ''1'' else CHR ''0'')"
        by (simp add: bit_Suc)
    qed
    finally show ?thesis by (simp add: bit_0)
  qed
qed

lemma hex_value_less: "hex_value c = Some d \<Longrightarrow> d < 16"
  by (auto simp: hex_value_def Let_def split: if_splits)

lemma int16_from_bound:
  "int16_from acc s = Inr n \<Longrightarrow> n < (acc + 1) * 16 ^ length s"
proof (induction s arbitrary: acc)
  case Nil
  then show ?case by simp
next
  case (Cons c s)
  from Cons.prems obtain d where d: "hex_value c = Some d"
    and r: "int16_from (16 * acc + d) s = Inr n" by (auto split: option.splits)
  from Cons.IH[OF r] have "n < (16 * acc + d + 1) * 16 ^ length s" .
  also have "16 * acc + d + 1 \<le> (acc + 1) * 16" using hex_value_less[OF d] by simp
  then have "(16 * acc + d + 1) * 16 ^ length s \<le> ((acc + 1) * 16) * 16 ^ length s"
    by (rule mult_le_mono1)
  finally show ?case by (simp add: algebra_simps)
qed

lemma int16_bound:
  assumes "int16 s = Inr n" "length s \<le> 16"
  shows "n < 2 ^ 64"
proof -
  from assms(1) have "int16_from 0 s = Inr n" by (auto simp: int16_def split: if_splits)
  from int16_from_bound[OF this] have "n < 16 ^ length s" by simp
  also have "(16::nat) ^ length s \<le> 16 ^ 16" using assms(2) by (intro power_increasing) simp_all
  also have "(16::nat) ^ 16 = 2 ^ 64" by simp
  finally show ?thesis .
qed

lemma map_mirror_upt: "map (\<lambda>i. n - 1 - i) [0..<n] = rev [0..<n]"
  by (rule nth_equalityI) (auto simp: rev_nth)

lemma hamming_distance_bit_count:
  assumes "int16 h1 = Inr n1" "int16 h2 = Inr n2" "n1 < 2 ^ 64" "n2 < 2 ^ 64"
  shows "hamming_distance h1 h2 = Inr (length (filter (\<lambda>i. bit n1 i \<noteq> bit n2 i) [0..<64]))"
proof -
  let ?c = "\<lambda>n i. if bit n (64 - 1 - i) then CHR ''1'' else CHR ''0''"
  have z1: "zfill 64 (bin n1) = map (?c n1) [0..<64]" by (rule zfill_bin_bits[OF assms(3)]) simp
  have z2: "zfill 64 (bin n2) = map (?c n2) [0..<64]" by (rule zfill_bin_bits[OF assms(4)]) simp
  have "zip (map (?c n1) [0..<64]) (map (?c n2) [0..<64]) = map (\<lambda>i. (?c n1 i, ?c n2 i)) [0..<64]"
    by (simp add: zip_map_map zip_same_conv_map)
  then have "length (filter (\<lambda>(c1, c2). c1 \<noteq> c2) (zip (zfill 64 (bin n1)) (zfill 64 (bin n2)))) =
        length (filter (\<lambda>i. ?c n1 i \<noteq> ?c n2 i) [0..<64])"
    unfolding z1 z2 by (simp add: filter_map comp_def)
  also have "(\<lambda>i. ?c n1 i \<noteq> ?c n2 i) = (\<lambda>i. bit n1 (64 - 1 - i) \<noteq> bit n2 (64 - 1 - i))"
    by (rule ext) simp
  also have "length (filter (\<lambda>i. bit n1 (64 - 1 - i) \<noteq> bit n2 (64 - 1 - i)) [0..<64]) =
        length (filter (\<lambda>j. bit n1 j \<noteq> bit n2 j) (map (\<lambda>i. 64 - 1 - i) [0..<64]))"
    by (simp add: filter_map comp_def)
  also have "map (\<lambda>i. 64 - 1 - i) [0..<64] = rev [0..<64::nat]"
    by (rule map_mirror_upt)
  also have "length (filter (\<lambda>j. bit n1 j \<noteq> bit n2 j) (rev [0..<64])) =
        length (filter (\<lambda>j. bit n1 j \<noteq> bit n2 j) [0..<64])"
    by (simp flip: rev_filter)
  finally show ?thesis by (simp add: hamming_distance_def assms(1,2))
qed

lemma scan_rows_Inr:
  "scan_rows q md acc rows = Inr res \<Longrightarrow>
     (\<forall>r\<in>set rows. \<exists>k. hamming_distance q (cand_phash r) = Inr k)
     \<and> res = acc @ filter (\<lambda>r. int (distance_to q r) \<le> md) rows"
proof (induction rows arbitrary: acc)
  case Nil
  then show ?case by simp
next
  case (Cons r rows)
  from Cons.prems obtain k where k: "hamming_distance q (cand_phash r) = Inr k"
    by (auto split: sum.splits)
  with Cons.prems have
    "scan_rows q md (if int k \<le> md then acc @ [r] else acc) rows = Inr res"
    by simp
  from Cons.IH[OF this] k show ?case
    by (auto simp: hamming_distance_to)
qed

lemma scan_rows_total:
  "\<forall>r\<in>set rows. \<exists>k. hamming_distance q (cand_phash r) = Inr k \<Longrightarrow>
     scan_rows q md acc rows = Inr (acc @ filter (\<lambda>r. int (distance_to q r) \<le> md) rows)"
proof (induction rows arbitrary: acc)
  case Nil
  then show ?case by simp
next
  case (Cons r rows)
  then obtain k where k: "hamming_distance q (cand_phash r) = Inr k" by auto
  then show ?case using Cons by (auto simp: hamming_distance_to)
qed

lemma insort_key_decorated:
  "insort_key fst (g x, x) (map (\<lambda>y. (g y, y)) ys) = map (\<lambda>y. (g y, y)) (insort_key g x ys)"
  by (induction ys) auto

lemma sort_key_decorated:
  "sort_key fst (map (\<lambda>y. (g y, y)) xs) = map (\<lambda>y. (g y, y)) (sort_key g xs)"
  by (induction xs) (auto simp: insort_key_decorated)

lemma compute_keys_total:
  "\<forall>x\<in>set xs. key x = Inr (g x) \<Longrightarrow> compute_keys key xs = Inr (map (\<lambda>y. (g y, y)) xs)"
  by (induction xs) auto

lemma list_sort_total:
  assumes "\<forall>x\<in>set xs. key x = Inr (g x)"
  shows "list_sort key xs = Inr (sort_key g xs)"
  unfolding list_sort_def compute_keys_total[OF assms]
  by (simp add: sort_key_decorated comp_def)

lemma search_by_phash_total:
  assumes "\<forall>r\<in>set (select_fingerprints d). \<exists>k. hamming_distance q (cand_phash r) = Inr k"
  shows "search_by_phash d q md lmt =
           Inr (slice_to lmt (sort_key (distance_to q)
                  (filter (\<lambda>r. int (distance_to q r) \<le> md) (select_fingerprints d))))"
proof -
  have keys: "\<forall>x\<in>set (filter (\<lambda>r. int (distance_to q r) \<le> md) (select_fingerprints d)).
          hamming_distance q (cand_phash x) = Inr (distance_to q x)"
    using assms by (auto simp: hamming_distance_to)
  show ?thesis
    unfolding search_by_phash_def scan_rows_total[OF assms]
    by (simp add: list_sort_total[OF keys])
qed

lemma search_by_phash_Inr:
  assumes "search_by_phash d q md lmt = Inr rs"
  shows "\<forall>r\<in>set (select_fingerprints d). \<exists>k. hamming_distance q (cand_phash r) = Inr k"
proof -
  from assms obtain res where "scan_rows q md [] (select_fingerprints d) = Inr res"
    by (auto simp: search_by_phash_def split: sum.splits)
  from scan_rows_Inr[OF this] show ?thesis by simp
qed

text \<open>A stable sort of a list that is sorted by \<open>R\<close> orders it by key first and by \<open>R\<close> among equal keys.\<close>

lemma sorted_wrt_lex_key_le:
  "sorted_wrt (\<lambda>a b. f a < f b \<or> (f a = f b \<and> R a b)) ys \<Longrightarrow> sorted (map f ys)"
  by (induction ys) (auto simp: less_imp_le)

lemma insort_key_lex:
  fixes f :: "'a \<Rightarrow> 'k::linorder"
  assumes "sorted_wrt (\<lambda>a b. f a < f b \<or> (f a = f b \<and> R a b)) ys"
      and "\<forall>y\<in>set ys. R x y"
  shows "sorted_wrt (\<lambda>a b. f a < f b \<or> (f a = f b \<and> R a b)) (insort_key f x ys)"
  using assms
proof (induction ys)
  case Nil
  then show ?case by simp
next
  case (Cons y ys)
  show ?case
  proof (cases "f x \<le> f y")
    case True
    have "\<forall>z\<in>set ys. f y \<le> f z" using Cons.prems(1) by (auto simp: less_imp_le)
    with True have "\<forall>z\<in>set (y # ys). f x \<le> f z" by auto
    with Cons.prems True show ?thesis by (auto simp: le_less)
  next
    case False
    with Cons show ?thesis by (auto simp: set_insort_key)
  qed
qed

lemma sort_key_lex:
  fixes f :: "'a \<Rightarrow> 'k::linorder"
  assumes "sorted_wrt R xs"
  shows "sorted_wrt (\<lambda>a b. f a < f b \<or> (f a = f b \<and> R a b)) (sort_key f xs)"
  using assms
proof (induction xs)
  case Nil
  then show ?case by simp
next
  case (Cons x xs)
  then show ?case by (auto intro!: insort_key_lex)
qed

text \<open>A list sorted by key splits at any threshold on the key.\<close>

lemma sorted_split_filter:
  fixes f :: "'a \<Rightarrow> 'k::linorder"
  assumes "sorted (map f ys)" and "\<And>a b. f a \<le> f b \<Longrightarrow> P b \<Longrightarrow> P a"
  shows "ys = filter P ys @ filter (\<lambda>y. \<not> P y) ys"
  using assms
proof (induction ys)
  case Nil
  then show ?case by simp
next
  case (Cons y ys)
  show ?case
  proof (cases "P y")
    case True
    with Cons show ?thesis by simp
  next
    case False
    have "\<forall>z\<in>set ys. \<not> P z" using Cons.prems False by auto
    then have "filter P ys = []" "filter (\<lambda>y. \<not> P y) ys = ys" by (auto simp: filter_empty_conv filter_id_conv)
    with False show ?thesis by simp
  qed
qed

lemma sort_key_threshold_prefix:
  fixes t t' :: int
  assumes "t \<le> t'"
  shows "prefix (sort_key f (filter (\<lambda>r. int (f r) \<le> t) xs))
                (sort_key f (filter (\<lambda>r. int (f r) \<le> t') xs))"
proof -
  let ?ys = "sort_key f (filter (\<lambda>r. int (f r) \<le> t') xs)"
  have "?ys = filter (\<lambda>r. int (f r) \<le> t) ?ys @ filter (\<lambda>r. \<not> int (f r) \<le> t) ?ys"
    by (rule sorted_split_filter[where f=f]) auto
  moreover have "filter (\<lambda>r. int (f r) \<le> t) ?ys = sort_key f (filter (\<lambda>r. int (f r) \<le> t) xs)"
  proof -
    have "filter (\<lambda>r. int (f r) \<le> t) (filter (\<lambda>r. int (f r) \<le> t') xs) = filter (\<lambda>r. int (f r) \<le> t) xs"
      using assms by (auto intro: filter_cong)
    then show ?thesis by (simp add: filter_sort del: filter_filter)
  qed
  ultimately show ?thesis by (metis prefixI)
qed

lemma slice_to_prefix:
  assumes "prefix xs ys"
  shows "prefix (slice_to n xs) (slice_to n ys)"
proof -
  from assms obtain zs where ys: "ys = xs @ zs" by (auto simp: prefix_def)
  show ?thesis
  proof (cases "0 \<le> n")
    case True
    then show ?thesis by (simp add: slice_to_def ys)
  next
    case False
    let ?m = "nat (int (length xs) + n)"
    have "?m \<le> length xs" using False by auto
    then have "take ?m xs = take ?m (xs @ zs)" by simp
    moreover have "?m \<le> nat (int (length xs + length zs) + n)" by auto
    then have "prefix (take ?m (xs @ zs)) (take (nat (int (length xs + length zs) + n)) (xs @ zs))"
      by (metis min.absorb_iff1 take_is_prefix take_take)
    ultimately show ?thesis using False by (simp add: slice_to_def ys)
  qed
qed


lemma select_fingerprints_ids:
  "map cand_id (select_fingerprints d) = map f_id (fingerprints d)"
  by (simp add: select_fingerprints_def cand_id_def comp_def)

lemma select_fingerprints_phash:
  "map cand_phash (select_fingerprints d) = map f_phash (fingerprints d)"
  by (simp add: select_fingerprints_def cand_phash_def comp_def)

lemma search_by_phash_empty_store:
  "fingerprints d = [] \<Longrightarrow> search_by_phash d q md lmt = Inr []"
  by (simp add: search_by_phash_def select_fingerprints_def list_sort_def slice_to_def)

section \<open>The example store\<close>

lemma example_store_select:
  "select_fingerprints example_store =
     [(1, 1, 10, ''fffffffffffffff8'', [1, 0]),
      (2, 1, 20, ''ffffffffffffffff'', [1, 0]),
      (3, 2, 30, ''fffffffffffffff0'', [0, 1]),
      (4, 2, 40, ''0000000000000000'', [0, 1]),
      (5, 2, 50, ''fffffffffffffff1'', [0, 1])]"
  by (simp add: example_store_def select_fingerprints_def add_media_def create_tables_def
      add_fingerprints_def insert_fingerprint_def Let_def)

lemma example_store_media:
  "media example_store =
     [\<lparr>m_id = 1, m_title = ''A'', m_year = Some 2012, m_duration = None, m_filepath = None,
       m_total_frames = None\<rparr>,
      \<lparr>m_id = 2, m_title = ''B'', m_year = None, m_duration = None, m_filepath = None,
       m_total_frames = None\<rparr>]"
  by (simp add: example_store_def add_media_def create_tables_def
      add_fingerprints_def insert_fingerprint_def Let_def)

lemma replicate_numeral: "replicate (numeral k) x = x # replicate (pred_numeral k) x"
  by (simp add: numeral_eq_Suc)

lemmas hamming_eval =
  hamming_distance_def int16_def hex_value_def bin.simps zfill_def replicate_numeral

lemma example_distances:
  "hamming_distance ''ffffffffffffffff'' ''fffffffffffffff8'' = Inr 3"
  "hamming_distance ''ffffffffffffffff'' ''ffffffffffffffff'' = Inr 0"
  "hamming_distance ''ffffffffffffffff'' ''fffffffffffffff0'' = Inr 4"
  "hamming_distance ''ffffffffffffffff'' ''0000000000000000'' = Inr 64"
  "hamming_distance ''ffffffffffffffff'' ''fffffffffffffff1'' = Inr 3"
  by (simp_all add: hamming_eval)

lemma example_search_15:
  "search_by_phash example_store ''ffffffffffffffff'' 15 50 =
     Inr [(2, 1, 20, ''ffffffffffffffff'', [1, 0]),
          (1, 1, 10, ''fffffffffffffff8'', [1, 0]),
          (5, 2, 50, ''fffffffffffffff1'', [0, 1]),
          (3, 2, 30, ''fffffffffffffff0'', [0, 1])]"
  by (simp add: search_by_phash_def example_store_select cand_phash_def example_distances
      list_sort_def slice_to_def)

lemma example_search_3_limit_2:
  "search_by_phash example_store ''ffffffffffffffff'' 3 2 =
     Inr [(2, 1, 20, ''ffffffffffffffff'', [1, 0]),
          (1, 1, 10, ''fffffffffffffff8'', [1, 0])]"
  by (simp add: search_by_phash_def example_store_select cand_phash_def example_distances
      list_sort_def slice_to_def)

lemma is_hex_examples:
  "is_hex ''ffffffffffffffff''" "is_hex ''fffffffffffffff8''" "is_hex ''fffffffffffffff0''"
  "is_hex ''0000000000000000''" "is_hex ''fffffffffffffff1''"
  by (simp_all add: is_hex_def hex_value_def)

lemma example_store_rows:
  "fingerprints example_store =
     [\<lparr>f_id = 1, f_media_id = 1, f_timestamp = 10, f_frame_index = 0,
       f_phash = ''fffffffffffffff8'', f_cnn_features = [1, 0]\<rparr>,
      \<lparr>f_id = 2, f_media_id = 1, f_timestamp = 20, f_frame_index = 1,
       f_phash = ''ffffffffffffffff'', f_cnn_features = [1, 0]\<rparr>,
      \<lparr>f_id = 3, f_media_id = 2, f_timestamp = 30, f_frame_index = 0,
       f_phash = ''fffffffffffffff0'', f_cnn_features = [0, 1]\<rparr>,
      \<lparr>f_id = 4, f_media_id = 2, f_timestamp = 40, f_frame_index = 1,
       f_phash = ''0000000000000000'', f_cnn_features = [0, 1]\<rparr>,
      \<lparr>f_id = 5, f_media_id = 2, f_timestamp = 50, f_frame_index = 2,
       f_phash = ''fffffffffffffff1'', f_cnn_features = [0, 1]\<rparr>]"
  by (simp add: example_store_def add_media_def create_tables_def
      add_fingerprints_def insert_fingerprint_def Let_def)

section \<open>Stage 1: the search contract\<close>

text \<open>
  C7. On an empty store \<open>search_by_phash\<close> returns the empty list. For a query and stored
  hashes made of hexadecimal digits, a fingerprint table in ascending id order (which
  \<open>AUTOINCREMENT\<close> insertion gives, see \<open>add_fingerprints_ids_ascending\<close>) and a
  non-negative limit, the result is the first \<open>limit\<close> elements of the list \<open>full\<close> that
  holds exactly the stored fingerprints within \<open>max_distance\<close>, each once, ordered
  ascending by Hamming distance and, among equal distances, by ascending fingerprint id;
  when no stored hash is within budget the result is the empty list. No error is raised.
  (The distance is the one \<open>hamming_distance\<close> computes; for hashes of at most 16
  digits it is the number of differing bits, see \<open>hamming_distance_bit_count\<close>.)
\<close>

theorem search_by_phash_contract:
  "(fingerprints d = [] \<longrightarrow> search_by_phash d q md lmt = Inr [])
   \<and> (is_hex q \<and> (\<forall>r\<in>set (fingerprints d). is_hex (f_phash r))
        \<and> sorted_wrt (<) (map f_id (fingerprints d)) \<and> 0 \<le> lmt \<longrightarrow>
      (\<exists>full.
         search_by_phash d q md lmt = Inr (take (nat lmt) full)
         \<and> (\<forall>x\<in>set (select_fingerprints d).
               hamming_distance q (cand_phash x) = Inr (distance_to q x))
         \<and> set full = {x \<in> set (select_fingerprints d). int (distance_to q x) \<le> md}
         \<and> distinct full
         \<and> sorted_wrt (\<lambda>a b. distance_to q a < distance_to q b
                 \<or> (distance_to q a = distance_to q b \<and> cand_id a < cand_id b)) full
         \<and> ((\<forall>x\<in>set (select_fingerprints d). md < int (distance_to q x)) \<longrightarrow>
               search_by_phash d q md lmt = Inr [])))"
proof (intro conjI impI)
  show "search_by_phash d q md lmt = Inr []" if "fingerprints d = []"
    using that by (rule search_by_phash_empty_store)
next
  assume a: "is_hex q \<and> (\<forall>r\<in>set (fingerprints d). is_hex (f_phash r))
        \<and> sorted_wrt (<) (map f_id (fingerprints d)) \<and> 0 \<le> lmt"
  let ?rows = "select_fingerprints d"
  let ?full = "sort_key (distance_to q) (filter (\<lambda>r. int (distance_to q r) \<le> md) ?rows)"
  have hex: "\<forall>x\<in>set ?rows. is_hex (cand_phash x)"
  proof
    fix x assume "x \<in> set ?rows"
    then have "cand_phash x \<in> set (map cand_phash ?rows)" by simp
    then show "is_hex (cand_phash x)" using a unfolding select_fingerprints_phash by auto
  qed
  have ok: "\<forall>r\<in>set ?rows. \<exists>k. hamming_distance q (cand_phash r) = Inr k"
    using hex a hamming_distance_Inr_iff by blast
  have ids: "sorted_wrt (\<lambda>a b. cand_id a < cand_id b) ?rows"
    using a by (simp add: sorted_wrt_map flip: select_fingerprints_ids)
  have "distinct (map cand_id ?rows)"
    using a unfolding select_fingerprints_ids by (simp add: strict_sorted_iff)
  then have dist: "distinct ?rows" by (simp add: distinct_map)
  have 1: "search_by_phash d q md lmt = Inr (take (nat lmt) ?full)"
    using search_by_phash_total[OF ok, of md lmt] a by (simp add: slice_to_def)
  have 2: "\<forall>x\<in>set ?rows. hamming_distance q (cand_phash x) = Inr (distance_to q x)"
    using ok by (auto simp: hamming_distance_to)
  have 3: "set ?full = {x \<in> set ?rows. int (distance_to q x) \<le> md}" by auto
  have 4: "distinct ?full" using dist by simp
  have 5: "sorted_wrt (\<lambda>a b. distance_to q a < distance_to q b
                 \<or> (distance_to q a = distance_to q b \<and> cand_id a < cand_id b)) ?full"
    by (intro sort_key_lex sorted_wrt_filter ids)
  have 6: "search_by_phash d q md lmt = Inr []"
    if "\<forall>x\<in>set ?rows. md < int (distance_to q x)"
  proof -
    have "filter (\<lambda>r. int (distance_to q r) \<le> md) ?rows = []"
      using that by (auto simp: filter_empty_conv)
    then show ?thesis unfolding 1 by simp
  qed
  show "\<exists>full.
         search_by_phash d q md lmt = Inr (take (nat lmt) full)
         \<and> (\<forall>x\<in>set (select_fingerprints d).
               hamming_distance q (cand_phash x) = Inr (distance_to q x))
         \<and> set full = {x \<in> set (select_fingerprints d). int (distance_to q x) \<le> md}
         \<and> distinct full
         \<and> sorted_wrt (\<lambda>a b. distance_to q a < distance_to q b
                 \<or> (distance_to q a = distance_to q b \<and> cand_id a < cand_id b)) full
         \<and> ((\<forall>x\<in>set (select_fingerprints d). md < int (distance_to q x)) \<longrightarrow>
               search_by_phash d q md lmt = Inr [])"
    using 1 2 3 4 5 6 by blast
qed

text \<open>C7 at the example store, at an empty store and at a budget no hash meets.\<close>

theorem search_by_phash_contract_witness:
  "fingerprints create_tables = []
   \<and> search_by_phash create_tables ''ffffffffffffffff'' 15 50 = Inr []
   \<and> is_hex ''ffffffffffffffff''
   \<and> list_all is_hex (map f_phash (fingerprints example_store))
   \<and> sorted_wrt (<) (map f_id (fingerprints example_store)) \<and> (0::int) \<le> 3
   \<and> search_by_phash example_store ''ffffffffffffffff'' 15 3 =
        Inr [(2, 1, 20, ''ffffffffffffffff'', [1, 0]),
             (1, 1, 10, ''fffffffffffffff8'', [1, 0]),
             (5, 2, 50, ''fffffffffffffff1'', [0, 1])]
   \<and> list_all (\<lambda>x. (-1) < int (distance_to ''ffffffffffffffff'' x))
         (select_fingerprints example_store)
   \<and> search_by_phash example_store ''ffffffffffffffff'' (-1) 3 = Inr []"
proof -
  have e: "fingerprints create_tables = []" by (simp add: create_tables_def)
  have h: "is_hex ''ffffffffffffffff'' \<and> (\<forall>r\<in>set (fingerprints example_store). is_hex (f_phash r))
        \<and> sorted_wrt (<) (map f_id (fingerprints example_store)) \<and> (0::int) \<le> 3"
    by (simp add: example_store_rows is_hex_examples)
  have s: "search_by_phash example_store ''ffffffffffffffff'' 15 3 =
        Inr [(2, 1, 20, ''ffffffffffffffff'', [1, 0]),
             (1, 1, 10, ''fffffffffffffff8'', [1, 0]),
             (5, 2, 50, ''fffffffffffffff1'', [0, 1])]"
    by (simp add: search_by_phash_def example_store_select cand_phash_def example_distances
      list_sort_def slice_to_def)
  have n: "\<forall>x\<in>set (select_fingerprints example_store). (-1) < int (distance_to ''ffffffffffffffff'' x)"
    by simp
  from search_by_phash_contract[of create_tables "''ffffffffffffffff''" 15 50] e
  have 1: "search_by_phash create_tables ''ffffffffffffffff'' 15 50 = Inr []" by blast
  from search_by_phash_contract[of example_store "''ffffffffffffffff''" "-1" 3] h n
  have 2: "search_by_phash example_store ''ffffffffffffffff'' (-1) 3 = Inr []" by blast
  show ?thesis using e h s n 1 2 by (simp add: list_all_iff)
qed


text \<open>
  C9. Stage 1 is monotonic in \<open>max_distance\<close>: whenever the search at threshold \<open>t\<close>
  returns a list, the search at any \<open>t' \<ge> t\<close> with the same limit returns a list that
  starts with it, so no candidate is lost, truncation included.
\<close>

theorem search_by_phash_monotone:
  assumes "t \<le> t'" and "search_by_phash d q t lmt = Inr rs"
  shows "\<exists>rs'. search_by_phash d q t' lmt = Inr rs' \<and> prefix rs rs' \<and> set rs \<subseteq> set rs'"
proof -
  note ok = search_by_phash_Inr[OF assms(2)]
  let ?at = "\<lambda>m. slice_to lmt (sort_key (distance_to q)
                  (filter (\<lambda>r. int (distance_to q r) \<le> m) (select_fingerprints d)))"
  have rs: "rs = ?at t" using assms(2) search_by_phash_total[OF ok, of t lmt] by simp
  have "prefix (?at t) (?at t')"
    by (intro slice_to_prefix sort_key_threshold_prefix assms(1))
  then show ?thesis
    unfolding rs search_by_phash_total[OF ok] by (auto dest: set_mono_prefix)
qed

text \<open>C9 at the example store: thresholds 3 and 15 with the limit 2.\<close>

theorem search_by_phash_monotone_witness:
  "(3::int) \<le> 15
   \<and> search_by_phash example_store ''ffffffffffffffff'' 3 2 =
       Inr [(2, 1, 20, ''ffffffffffffffff'', [1, 0]), (1, 1, 10, ''fffffffffffffff8'', [1, 0])]
   \<and> (\<exists>rs'. search_by_phash example_store ''ffffffffffffffff'' 15 2 = Inr rs'
         \<and> prefix [(2, 1, 20, ''ffffffffffffffff'', [1, 0]), (1, 1, 10, ''fffffffffffffff8'', [1, 0])] rs'
         \<and> set [(2, 1, 20, ''ffffffffffffffff'', [1, 0]), (1, 1, 10, ''fffffffffffffff8'', [1::real, 0])]
              \<subseteq> set rs')"
  using search_by_phash_monotone[of 3 15 example_store "''ffffffffffffffff''" 2, OF _ example_search_3_limit_2]
  by (simp add: example_search_3_limit_2)

section \<open>Stage 2: scoring and sorting\<close>

lemma scorable_row:
  "scorable L d q (fp, mid, ts, ph, blob) \<longleftrightarrow>
     (\<exists>dv t. cosine L q blob = Inr dv \<and> select_title d mid = Inr t)"
  by (auto simp: scorable_def returns_float_def has_media_row_def cand_blob_def
      cand_media_id_def split: sum.splits)

lemma scored_row_eq:
  "cosine L q blob = Inr dv \<Longrightarrow> select_title d mid = Inr t \<Longrightarrow>
     scored_row L d q (fp, mid, ts, ph, blob) = (mid, t, ts, float_sub (Num 1) dv)"
  by (simp add: scored_row_def cand_media_id_def cand_timestamp_def cand_blob_def)

lemma verify_rows_Inr:
  "verify_rows L d q acc cands = Inr res \<Longrightarrow>
     list_all (scorable L d q) cands \<and> res = acc @ map (scored_row L d q) cands"
proof (induction cands arbitrary: acc)
  case Nil
  then show ?case by simp
next
  case (Cons c cands)
  obtain fp mid ts ph blob where c: "c = (fp, mid, ts, ph, blob)" by (cases c)
  from Cons.prems obtain dv where dv: "cosine L q blob = Inr dv"
    by (auto simp: c split: sum.splits)
  from Cons.prems dv obtain t where t: "select_title d mid = Inr t"
    by (auto simp: c split: sum.splits)
  from Cons.prems dv t
  have step: "verify_rows L d q (acc @ [(mid, t, ts, float_sub (Num 1) dv)]) cands = Inr res"
    by (simp add: c)
  have row: "scored_row L d q c = (mid, t, ts, float_sub (Num 1) dv)"
    unfolding c by (rule scored_row_eq[OF dv t])
  have ok: "scorable L d q c"
    unfolding c scorable_row using dv t by blast
  from Cons.IH[OF step] row ok show ?case by simp
qed

lemma verify_rows_total:
  "list_all (scorable L d q) cands \<Longrightarrow>
     verify_rows L d q acc cands = Inr (acc @ map (scored_row L d q) cands)"
proof (induction cands arbitrary: acc)
  case Nil
  then show ?case by simp
next
  case (Cons c cands)
  obtain fp mid ts ph blob where c: "c = (fp, mid, ts, ph, blob)" by (cases c)
  from Cons.prems have "scorable L d q (fp, mid, ts, ph, blob)" by (simp add: c)
  then obtain dv t where dt: "cosine L q blob = Inr dv" "select_title d mid = Inr t"
    unfolding scorable_row by blast
  have row: "scored_row L d q c = (mid, t, ts, float_sub (Num 1) dv)"
    unfolding c by (rule scored_row_eq[OF dt])
  from Cons.prems have "list_all (scorable L d q) cands" by simp
  from Cons.IH[OF this, of "acc @ [(mid, t, ts, float_sub (Num 1) dv)]"] show ?case
    using row by (simp add: c dt)
qed

text \<open>A candidate that is not scorable makes the call raise: no list is returned.\<close>

lemma verify_rows_raises:
  "\<not> list_all (scorable L d q) cands \<Longrightarrow> \<exists>e. verify_rows L d q acc cands = Inl e"
  using verify_rows_Inr[of L d q acc cands] by (cases "verify_rows L d q acc cands") auto

lemma verify_with_cnn_Inr:
  "verify_with_cnn L d cands q = Inr ms \<Longrightarrow>
     list_all (scorable L d q) cands
     \<and> ms = list_sort_reverse L (map (scored_row L d q) cands)"
  using verify_rows_Inr[of L d q "[]" cands]
  by (auto simp: verify_with_cnn_def split: sum.splits)

lemma verify_with_cnn_total:
  "list_all (scorable L d q) cands \<Longrightarrow>
     verify_with_cnn L d cands q = Inr (list_sort_reverse L (map (scored_row L d q) cands))"
  by (simp add: verify_with_cnn_def verify_rows_total)

lemma verify_with_cnn_raises:
  "\<not> list_all (scorable L d q) cands \<Longrightarrow> \<exists>e. verify_with_cnn L d cands q = Inl e"
  using verify_rows_raises[of L d q cands "[]"] by (auto simp: verify_with_cnn_def)

subsection \<open>The sort\<close>

lemma float_ge_number:
  "a \<noteq> NaN \<Longrightarrow> b \<noteq> NaN \<Longrightarrow> float_ge a b \<longleftrightarrow> number a \<ge> number b"
  by (cases a; cases b) (simp_all add: number_def)

lemma number_eq_iff: "a \<noteq> NaN \<Longrightarrow> a = Num r \<longleftrightarrow> number a = r"
  by (cases a) (simp_all add: number_def)

lemma list_sort_reverse_numbers:
  "list_all (\<lambda>x. scored_similarity x \<noteq> NaN) xs \<Longrightarrow>
     list_sort_reverse L xs = rev (sort_key (\<lambda>x. number (scored_similarity x)) (rev xs))"
  by (simp add: list_sort_reverse_def)

lemma list_sort_reverse_descending:
  assumes "list_all (\<lambda>x. scored_similarity x \<noteq> NaN) xs"
  shows "sorted_wrt (\<lambda>a b. float_ge (scored_similarity a) (scored_similarity b))
           (list_sort_reverse L xs)"
proof -
  let ?k = "\<lambda>x. number (scored_similarity x)"
  let ?ys = "rev (sort_key ?k (rev xs))"
  have "sorted (map ?k (sort_key ?k (rev xs)))" by simp
  then have "sorted_wrt (\<lambda>a b. ?k a \<le> ?k b) (sort_key ?k (rev xs))"
    by (simp add: sorted_map)
  then have s: "sorted_wrt (\<lambda>a b. ?k a \<ge> ?k b) ?ys" by (simp add: sorted_wrt_rev)
  have set: "\<forall>x\<in>set ?ys. scored_similarity x \<noteq> NaN"
    using assms by (simp add: list_all_iff)
  have "sorted_wrt (\<lambda>a b. float_ge (scored_similarity a) (scored_similarity b)) ?ys"
    by (rule sorted_wrt_mono_rel[OF _ s]) (use set in \<open>simp add: float_ge_number\<close>)
  then show ?thesis unfolding list_sort_reverse_numbers[OF assms] .
qed

lemma list_sort_reverse_stable:
  assumes "list_all (\<lambda>x. scored_similarity x \<noteq> NaN) xs"
  shows "filter (\<lambda>y. scored_similarity y = s) (list_sort_reverse L xs) =
         filter (\<lambda>y. scored_similarity y = s) xs"
proof (cases s)
  case NaN
  have "filter (\<lambda>y. scored_similarity y = NaN) xs = []"
    using assms by (auto simp: filter_empty_conv list_all_iff)
  moreover have "filter (\<lambda>y. scored_similarity y = NaN)
        (rev (sort_key (\<lambda>x. number (scored_similarity x)) (rev xs))) = []"
    using assms by (auto simp: filter_empty_conv list_all_iff)
  ultimately show ?thesis unfolding list_sort_reverse_numbers[OF assms] NaN by simp
next
  case (Num r)
  let ?k = "\<lambda>x. number (scored_similarity x)"
  let ?ys = "rev (sort_key ?k (rev xs))"
  have 1: "filter (\<lambda>y. scored_similarity y = Num r) xs = filter (\<lambda>y. ?k y = r) xs"
    using assms by (intro filter_cong) (auto simp: list_all_iff number_eq_iff)
  have 2: "filter (\<lambda>y. scored_similarity y = Num r) ?ys = filter (\<lambda>y. ?k y = r) ?ys"
    using assms by (intro filter_cong) (auto simp: list_all_iff number_eq_iff)
  have "filter (\<lambda>y. ?k y = r) ?ys = filter (\<lambda>y. ?k y = r) xs"
    by (simp add: sort_key_stable flip: rev_filter)
  then show ?thesis unfolding list_sort_reverse_numbers[OF assms] Num 1 2 .
qed

lemma list_sort_reverse_mset:
  "sort_permutes L \<Longrightarrow> mset (list_sort_reverse L xs) = mset xs"
  by (simp add: list_sort_reverse_def sort_permutes_def)

lemma list_sort_reverse_length:
  assumes "sort_permutes L"
  shows "length (list_sort_reverse L xs) = length xs"
  using list_sort_reverse_mset[OF assms, of xs] by (metis size_mset)

text \<open>The interpreter's sort of the examples returns a rearrangement of its argument.\<close>

lemma binary_insert_mset: "mset (binary_insert run x) = add_mset x (mset run)"
proof -
  have "mset (take l run) + mset (drop l run) = mset run" for l
    by (metis append_take_drop_id mset_append)
  then show ?thesis by (simp add: binary_insert_def Let_def)
qed

lemma binarysort_mset: "mset (binarysort run rest) = mset run + mset rest"
  unfolding binarysort_def
  by (induction rest arbitrary: run) (simp_all add: binary_insert_mset)

lemma timsort_short_mset: "mset (timsort_short xs) = mset xs"
proof -
  obtain n descending where c: "count_run xs = (n, descending)" by (cases "count_run xs")
  have "mset (take n xs) + mset (drop n xs) = mset xs"
    by (metis append_take_drop_id mset_append)
  then show ?thesis by (simp add: timsort_short_def c binarysort_mset)
qed

lemma example_libs_sort_permutes: "sort_permutes example_libs"
  by (simp add: sort_permutes_def example_libs_def timsort_short_mset)

lemmas timsort_eval =
  timsort_short_def count_run_def binarysort_def binary_insert_def bisect.simps
  scored_similarity_def Let_def

subsection \<open>SciPy's cosine distance\<close>

lemma magnitude_zero_iff: "magnitude v = 0 \<longleftrightarrow> dot v v = 0"
  by (simp add: magnitude_def)

lemma dot_self_nonneg: "0 \<le> dot v v"
  by (induction v) (auto simp: dot_def)

lemma similarity_score_eq:
  assumes "length q = length c" "magnitude q \<noteq> 0" "magnitude c \<noteq> 0"
  shows "similarity_score q c = Inr (dot q c / (magnitude q * magnitude c))"
  using assms
  by (simp add: similarity_score_def cosine_distance_def magnitude_def real_sqrt_mult)

lemma similarity_score_nan:
  assumes "length q = length c" "magnitude q = 0 \<or> magnitude c = 0"
  shows "similarity_score q c = Inl NotANumber"
  using assms
  by (auto simp: similarity_score_def cosine_distance_def magnitude_def)

text \<open>
  C6, as the code behaves. For a query vector and a stored vector of equal dimension
  and non-zero magnitude, the similarity \<open>1 - cosine(query, stored)\<close> is the dot product
  divided by the product of the magnitudes. The source applies no guard for a zero
  magnitude: there the quotient is a division by zero, whose result is NaN and not 0.
\<close>

theorem similarity_score_formula:
  "(length q = length c \<and> magnitude q \<noteq> 0 \<and> magnitude c \<noteq> 0 \<longrightarrow>
      similarity_score q c = Inr (dot q c / (magnitude q * magnitude c)))
   \<and> (length q = length c \<and> (magnitude q = 0 \<or> magnitude c = 0) \<longrightarrow>
      similarity_score q c = Inl NotANumber)"
  using similarity_score_eq similarity_score_nan by blast

lemma example_magnitudes:
  "magnitude [1, 0] = 1" "magnitude [0, 1] = 1" "magnitude [0, 0] = 0"
  by (simp_all add: magnitude_def dot_def)

text \<open>C6 at two unit vectors, and at a zero query vector.\<close>

theorem similarity_score_formula_witness:
  "length [1, 0 :: real] = length [1, 0 :: real] \<and> magnitude [1, 0] \<noteq> 0
   \<and> similarity_score [1, 0] [1, 0] = Inr 1
   \<and> magnitude [0, 0] = 0
   \<and> similarity_score [0, 0] [1, 0] = Inl NotANumber"
  using similarity_score_formula[of "[1, 0]" "[1, 0]"] similarity_score_formula[of "[0, 0]" "[1, 0]"]
  by (simp add: example_magnitudes dot_def)

text \<open>
  C6 as stated fails: for the zero query vector \<open>[0, 0]\<close> the similarity to \<open>[1, 0]\<close>
  is not 0.
\<close>

theorem similarity_score_zero_vector_counterexample:
  "magnitude [0, 0] = 0 \<and> similarity_score [0, 0] [1, 0] \<noteq> Inr 0"
  by (simp add: example_magnitudes similarity_score_def cosine_distance_def dot_def)

text \<open>
  The similarity that \<open>verify_with_cnn\<close> computes with SciPy's function is
  \<open>similarity_score\<close>, with the float NaN where the formula has no real value. It
  raises exactly when the dimensions differ, and it is NaN exactly when a magnitude is
  zero.
\<close>

lemma cosine_float_similarity:
  "(case cosine_float q c of Inl e \<Rightarrow> Inl e | Inr dv \<Rightarrow> Inr (float_sub (Num 1) dv)) =
   (case similarity_score q c of
      Inl e \<Rightarrow> (if e = NotANumber then Inr NaN else Inl e)
    | Inr s \<Rightarrow> Inr (Num s))"
  by (simp add: cosine_float_def similarity_score_def cosine_distance_def)

lemma cosine_float_returns:
  "(\<exists>dv. cosine_float q c = Inr dv) \<longleftrightarrow> length q = length c"
  by (simp add: cosine_float_def cosine_distance_def)

lemma cosine_float_nan:
  "cosine_float q c = Inr NaN \<longleftrightarrow> length q = length c \<and> (magnitude q = 0 \<or> magnitude c = 0)"
  by (auto simp: cosine_float_def cosine_distance_def magnitude_def)

lemma scorable_cosine_float:
  assumes "cosine L = cosine_float"
  shows "scorable L d q c \<longleftrightarrow> length q = length (cand_blob c) \<and> has_media_row d c"
proof -
  have "returns_float L q c \<longleftrightarrow> (\<exists>dv. cosine_float q (cand_blob c) = Inr dv)"
    by (auto simp: returns_float_def assms split: sum.splits)
  then show ?thesis by (simp add: scorable_def cosine_float_returns)
qed

lemma scored_row_nan_cosine_float:
  assumes "cosine L = cosine_float" "length q = length (cand_blob c)"
  shows "scored_similarity (scored_row L d q c) = NaN \<longleftrightarrow>
           magnitude q = 0 \<or> magnitude (cand_blob c) = 0"
  using assms
  by (auto simp: scored_row_def scored_similarity_def cosine_float_def cosine_distance_def
      magnitude_def)

subsection \<open>Stage 2 at the example stores\<close>

lemma example_cosines:
  "cosine_float [1, 0] [1, 0] = Inr (Num 0)"
  "cosine_float [1, 0] [0, 1] = Inr (Num 1)"
  "cosine_float [1, 0] [0, 0] = Inr NaN"
  "cosine_float [0, 0] [1, 0] = Inr NaN"
  "cosine_float [0, 0] [0, 1] = Inr NaN"
  "cosine_float [1, 0, 0] [1, 0] = Inl ValueError"
  by (simp_all add: cosine_float_def cosine_distance_def dot_def)

lemma example_titles:
  "select_title example_store 1 = Inr ''A''"
  "select_title example_store 2 = Inr ''B''"
  by (simp_all add: select_title_def example_store_media)

lemma example_libs_cosine: "cosine example_libs = cosine_float"
  by (simp add: example_libs_def)

lemma example_libs_sort: "sort_unordered example_libs = timsort_short"
  by (simp add: example_libs_def)

lemma example_verify:
  "verify_with_cnn example_libs example_store
     [(2, 1, 20, ''ffffffffffffffff'', [1, 0]),
      (1, 1, 10, ''fffffffffffffff8'', [1, 0]),
      (5, 2, 50, ''fffffffffffffff1'', [0, 1]),
      (3, 2, 30, ''fffffffffffffff0'', [0, 1])] [1, 0] =
   Inr [(1, ''A'', 20, Num 1), (1, ''A'', 10, Num 1), (2, ''B'', 50, Num 0),
        (2, ''B'', 30, Num 0)]"
  by (simp add: verify_with_cnn_def example_libs_cosine example_cosines example_titles
      list_sort_reverse_def scored_similarity_def number_def)

lemma example_valid:
  "match_frame_valid example_libs example_recognizer (''ffffffffffffffff'', [1, 0]) =
     Inr [(1, ''A'', 20, 1), (1, ''A'', 10, 1)]"
  by (simp add: match_frame_valid_def example_recognizer_def
      example_search_15 example_verify List.map_filter_simps at_least_def)

lemma zero_vector_store_select:
  "select_fingerprints zero_vector_store =
     [(1, 1, 10, ''ffffffffffffffff'', [0, 0]), (2, 2, 20, ''ffffffffffffffff'', [1, 0])]"
  by (simp add: zero_vector_store_def select_fingerprints_def add_media_def create_tables_def
      add_fingerprints_def insert_fingerprint_def Let_def)

lemma zero_vector_store_titles:
  "select_title zero_vector_store 1 = Inr ''A''"
  "select_title zero_vector_store 2 = Inr ''B''"
  by (simp_all add: select_title_def zero_vector_store_def add_media_def create_tables_def
      add_fingerprints_def insert_fingerprint_def Let_def)

lemma zero_vector_search:
  "search_by_phash zero_vector_store ''ffffffffffffffff'' 15 50 =
     Inr [(1, 1, 10, ''ffffffffffffffff'', [0, 0]), (2, 2, 20, ''ffffffffffffffff'', [1, 0])]"
  by (simp add: search_by_phash_def zero_vector_store_select cand_phash_def example_distances
      list_sort_def slice_to_def)

lemma zero_vector_verify:
  "verify_with_cnn example_libs zero_vector_store
     [(1, 1, 10, ''ffffffffffffffff'', [0, 0]), (2, 2, 20, ''ffffffffffffffff'', [1, 0])]
     [1, 0] =
   Inr [(1, ''A'', 10, NaN), (2, ''B'', 20, Num 1)]"
  by (simp add: verify_with_cnn_def example_libs_cosine example_libs_sort example_cosines
      zero_vector_store_titles list_sort_reverse_def timsort_eval)

lemma orphan_store_select:
  "select_fingerprints orphan_store = [(1, 7, 0, ''ffffffffffffffff'', [1, 0])]"
  by (simp add: orphan_store_def select_fingerprints_def create_tables_def
      add_fingerprints_def insert_fingerprint_def)

lemma orphan_search:
  "search_by_phash orphan_store ''ffffffffffffffff'' 15 50 =
     Inr [(1, 7, 0, ''ffffffffffffffff'', [1, 0])]"
  by (simp add: search_by_phash_def orphan_store_select cand_phash_def example_distances
      list_sort_def slice_to_def)

lemma orphan_verify:
  "verify_with_cnn example_libs orphan_store [(1, 7, 0, ''ffffffffffffffff'', [1, 0])] [1, 0] =
     Inl TypeError"
  by (simp add: verify_with_cnn_def example_libs_cosine example_cosines select_title_def
      orphan_store_def create_tables_def add_fingerprints_def insert_fingerprint_def)

subsection \<open>The order of the output and the threshold\<close>

lemma at_least_Some:
  "at_least t m = Some m' \<Longrightarrow>
     scored_similarity m = Num (match_similarity m') \<and> match_similarity m' \<ge> t
     \<and> match_media_id m' = fst m \<and> match_title m' = fst (snd m)
     \<and> match_timestamp m' = fst (snd (snd m))"
  by (cases m)
    (auto simp: at_least_def scored_similarity_def match_similarity_def match_media_id_def
      match_title_def match_timestamp_def split: pyfloat.splits if_splits)

lemma map_filter_at_least_above:
  "list_all (\<lambda>m. match_similarity m \<ge> t) (List.map_filter (at_least t) ms)"
  by (auto simp: list_all_iff List.map_filter_def dest: at_least_Some)

lemma map_filter_at_least_sorted:
  assumes "sorted_wrt (\<lambda>a b. float_ge (scored_similarity a) (scored_similarity b)) ms"
  shows "sorted_wrt (\<lambda>a b. match_similarity a \<ge> match_similarity b)
           (List.map_filter (at_least t) ms)"
proof -
  let ?P = "\<lambda>x. at_least t x \<noteq> None"
  have f: "sorted_wrt (\<lambda>a b. float_ge (scored_similarity a) (scored_similarity b))
             (filter ?P ms)"
    using assms by (rule sorted_wrt_filter)
  have "sorted_wrt
          (\<lambda>a b. match_similarity (the (at_least t a)) \<ge> match_similarity (the (at_least t b)))
          (filter ?P ms)"
  proof (rule sorted_wrt_mono_rel[OF _ f])
    fix a b
    assume a: "a \<in> set (filter ?P ms)" and b: "b \<in> set (filter ?P ms)"
      and ge: "float_ge (scored_similarity a) (scored_similarity b)"
    from a obtain a' where a': "at_least t a = Some a'" by auto
    from b obtain b' where b': "at_least t b = Some b'" by auto
    from at_least_Some[OF a'] at_least_Some[OF b'] ge
    show "match_similarity (the (at_least t a)) \<ge> match_similarity (the (at_least t b))"
      by (simp add: a' b')
  qed
  then show ?thesis by (simp add: List.map_filter_def sorted_wrt_map comp_def)
qed

lemma match_frame_valid_cases:
  assumes "match_frame_valid L self frame = Inr valid"
  shows "valid = [] \<or>
         (\<exists>candidates matches.
            verify_with_cnn L (db self) candidates (compute_cnn_features self frame) =
              Inr matches
            \<and> valid = List.map_filter (at_least (cnn_threshold self)) matches)"
  using assms
  by (auto simp: match_frame_valid_def Let_def split: sum.splits if_splits)

lemma match_frame_valid_total:
  assumes "search_by_phash (db self) (compute_phash self frame) (phash_threshold self) 50 =
             Inr candidates"
    and "list_all (scorable L (db self) (compute_cnn_features self frame)) candidates"
  shows "match_frame_valid L self frame =
           Inr (List.map_filter (at_least (cnn_threshold self))
                  (list_sort_reverse L
                     (map (scored_row L (db self) (compute_cnn_features self frame))
                        candidates)))"
proof (cases "candidates = []")
  case True
  then show ?thesis
    by (simp add: match_frame_valid_def assms(1) list_sort_reverse_def List.map_filter_simps)
next
  case False
  then show ?thesis
    by (simp add: match_frame_valid_def assms(1) verify_with_cnn_total[OF assms(2)])
qed

text \<open>
  C8, as the code behaves. Wherever \<open>verify_with_cnn\<close> returns (the cosine call raises
  for no candidate and every candidate's media row exists) and no similarity is NaN,
  the list it returns is sorted descending by similarity, and results of equal
  similarity keep the order of the candidate list (for Stage-1 output: ascending Hamming
  distance, then ascending fingerprint id); no fingerprint id takes part in the sort.
  The list \<open>valid\<close> that \<open>_match_frame\<close> keeps has no element below the similarity
  threshold, whatever the similarities are, NaN included, and is sorted descending when
  no similarity is NaN.
\<close>

theorem verify_output_descending:
  "(list_all (scorable L d q) candidates
      \<and> list_all (\<lambda>c. scored_similarity (scored_row L d q c) \<noteq> NaN) candidates \<longrightarrow>
      (\<exists>matches. verify_with_cnn L d candidates q = Inr matches
         \<and> sorted_wrt (\<lambda>a b. float_ge (scored_similarity a) (scored_similarity b)) matches
         \<and> (\<forall>s. filter (\<lambda>m. scored_similarity m = s) matches =
                 filter (\<lambda>m. scored_similarity m = s) (map (scored_row L d q) candidates))))
   \<and> (search_by_phash (db self) (compute_phash self frame) (phash_threshold self) 50 =
         Inr stage1
      \<and> list_all (scorable L (db self) (compute_cnn_features self frame)) stage1 \<longrightarrow>
      (\<exists>valid. match_frame_valid L self frame = Inr valid
         \<and> list_all (\<lambda>m. match_similarity m \<ge> cnn_threshold self) valid
         \<and> (list_all (\<lambda>c. scored_similarity
                             (scored_row L (db self) (compute_cnn_features self frame) c) \<noteq> NaN)
               stage1 \<longrightarrow>
             sorted_wrt (\<lambda>a b. match_similarity a \<ge> match_similarity b) valid)))
   \<and> (match_frame_valid L self frame = Inr kept \<longrightarrow>
      list_all (\<lambda>m. match_similarity m \<ge> cnn_threshold self) kept)"
proof (intro conjI impI)
  assume a: "list_all (scorable L d q) candidates
      \<and> list_all (\<lambda>c. scored_similarity (scored_row L d q c) \<noteq> NaN) candidates"
  let ?rows = "map (scored_row L d q) candidates"
  have n: "list_all (\<lambda>x. scored_similarity x \<noteq> NaN) ?rows"
    using a by (simp add: list_all_iff)
  have v: "verify_with_cnn L d candidates q = Inr (list_sort_reverse L ?rows)"
    using a by (simp add: verify_with_cnn_total)
  have s: "sorted_wrt (\<lambda>a b. float_ge (scored_similarity a) (scored_similarity b))
             (list_sort_reverse L ?rows)"
    by (rule list_sort_reverse_descending[OF n])
  have st: "\<forall>s. filter (\<lambda>m. scored_similarity m = s) (list_sort_reverse L ?rows) =
                 filter (\<lambda>m. scored_similarity m = s) ?rows"
    by (simp add: list_sort_reverse_stable[OF n])
  show "\<exists>matches. verify_with_cnn L d candidates q = Inr matches
         \<and> sorted_wrt (\<lambda>a b. float_ge (scored_similarity a) (scored_similarity b)) matches
         \<and> (\<forall>s. filter (\<lambda>m. scored_similarity m = s) matches =
                 filter (\<lambda>m. scored_similarity m = s) (map (scored_row L d q) candidates))"
    apply (rule exI[of _ "list_sort_reverse L ?rows"])
    using v s st by simp
next
  assume a: "search_by_phash (db self) (compute_phash self frame) (phash_threshold self) 50 =
         Inr stage1
      \<and> list_all (scorable L (db self) (compute_cnn_features self frame)) stage1"
  let ?q = "compute_cnn_features self frame"
  let ?rows = "map (scored_row L (db self) ?q) stage1"
  let ?valid = "List.map_filter (at_least (cnn_threshold self)) (list_sort_reverse L ?rows)"
  have v: "match_frame_valid L self frame = Inr ?valid"
    using a by (simp add: match_frame_valid_total)
  have ab: "list_all (\<lambda>m. match_similarity m \<ge> cnn_threshold self) ?valid"
    by (rule map_filter_at_least_above)
  have so: "sorted_wrt (\<lambda>a b. match_similarity a \<ge> match_similarity b) ?valid"
    if "list_all (\<lambda>c. scored_similarity (scored_row L (db self) ?q c) \<noteq> NaN) stage1"
  proof -
    from that have "list_all (\<lambda>x. scored_similarity x \<noteq> NaN) ?rows"
      by (simp add: list_all_iff)
    from list_sort_reverse_descending[OF this] show ?thesis
      by (rule map_filter_at_least_sorted)
  qed
  show "\<exists>valid. match_frame_valid L self frame = Inr valid
         \<and> list_all (\<lambda>m. match_similarity m \<ge> cnn_threshold self) valid
         \<and> (list_all (\<lambda>c. scored_similarity
                             (scored_row L (db self) (compute_cnn_features self frame) c) \<noteq> NaN)
               stage1 \<longrightarrow>
             sorted_wrt (\<lambda>a b. match_similarity a \<ge> match_similarity b) valid)"
    apply (rule exI[of _ ?valid])
    using v ab so by simp
next
  assume "match_frame_valid L self frame = Inr kept"
  from match_frame_valid_cases[OF this]
  show "list_all (\<lambda>m. match_similarity m \<ge> cnn_threshold self) kept"
    by (auto simp: map_filter_at_least_above)
qed

text \<open>
  C8 at the example store, for a frame whose Stage-1 candidates are four, and at the
  store with the zero vector, where one of the two similarities is NaN.
\<close>

theorem verify_output_descending_witness:
  "list_all (scorable example_libs example_store [1, 0])
     [(2, 1, 20, ''ffffffffffffffff'', [1, 0]),
      (1, 1, 10, ''fffffffffffffff8'', [1, 0]),
      (5, 2, 50, ''fffffffffffffff1'', [0, 1]),
      (3, 2, 30, ''fffffffffffffff0'', [0, 1])]
   \<and> list_all (\<lambda>c. scored_similarity (scored_row example_libs example_store [1, 0] c) \<noteq> NaN)
     [(2, 1, 20, ''ffffffffffffffff'', [1, 0]),
      (1, 1, 10, ''fffffffffffffff8'', [1, 0]),
      (5, 2, 50, ''fffffffffffffff1'', [0, 1]),
      (3, 2, 30, ''fffffffffffffff0'', [0, 1])]
   \<and> verify_with_cnn example_libs example_store
     [(2, 1, 20, ''ffffffffffffffff'', [1, 0]),
      (1, 1, 10, ''fffffffffffffff8'', [1, 0]),
      (5, 2, 50, ''fffffffffffffff1'', [0, 1]),
      (3, 2, 30, ''fffffffffffffff0'', [0, 1])] [1, 0] =
     Inr [(1, ''A'', 20, Num 1), (1, ''A'', 10, Num 1), (2, ''B'', 50, Num 0),
          (2, ''B'', 30, Num 0)]
   \<and> sorted_wrt (\<lambda>a b. float_ge (scored_similarity a) (scored_similarity b))
        [(1, ''A'', 20, Num 1), (1, ''A'', 10, Num 1), (2, ''B'', 50, Num 0),
         (2, ''B'', 30, Num 0)]
   \<and> match_frame_valid example_libs example_recognizer (''ffffffffffffffff'', [1, 0]) =
        Inr [(1, ''A'', 20, 1), (1, ''A'', 10, 1)]
   \<and> list_all (\<lambda>m. match_similarity m \<ge> cnn_threshold example_recognizer)
        [(1, ''A'', 20, 1), (1, ''A'', 10, 1)]
   \<and> sorted_wrt (\<lambda>a b. match_similarity a \<ge> match_similarity b)
        [(1, ''A'', 20, 1), (1, ''A'', 10, 1)]
   \<and> search_by_phash (db zero_vector_recognizer)
        (compute_phash zero_vector_recognizer (''ffffffffffffffff'', [1, 0]))
        (phash_threshold zero_vector_recognizer) 50 =
        Inr [(1, 1, 10, ''ffffffffffffffff'', [0, 0]), (2, 2, 20, ''ffffffffffffffff'', [1, 0])]
   \<and> list_all (scorable example_libs (db zero_vector_recognizer)
                  (compute_cnn_features zero_vector_recognizer (''ffffffffffffffff'', [1, 0])))
        [(1, 1, 10, ''ffffffffffffffff'', [0, 0]), (2, 2, 20, ''ffffffffffffffff'', [1, 0])]
   \<and> match_frame_valid example_libs zero_vector_recognizer (''ffffffffffffffff'', [1, 0]) =
        Inr [(2, ''B'', 20, 1)]
   \<and> list_all (\<lambda>m. match_similarity m \<ge> cnn_threshold zero_vector_recognizer)
        [(2, ''B'', 20, 1)]"
proof -
  let ?cands = "[(2, 1, 20, ''ffffffffffffffff'', [1, 0]),
      (1, 1, 10, ''fffffffffffffff8'', [1, 0]),
      (5, 2, 50, ''fffffffffffffff1'', [0, 1]),
      (3, 2, 30, ''fffffffffffffff0'', [0, 1])] :: candidate list"
  let ?zcands = "[(1, 1, 10, ''ffffffffffffffff'', [0, 0]),
      (2, 2, 20, ''ffffffffffffffff'', [1, 0])] :: candidate list"
  let ?frame = "(''ffffffffffffffff'', [1, 0]) :: string \<times> vec"
  have sc: "list_all (scorable example_libs example_store [1, 0]) ?cands"
    by (simp add: scorable_row example_libs_cosine example_cosines example_titles)
  have nn: "list_all (\<lambda>c. scored_similarity (scored_row example_libs example_store [1, 0] c)
                      \<noteq> NaN) ?cands"
    by (simp add: scored_row_def scored_similarity_def cand_blob_def example_libs_cosine
        example_cosines)
  have s1: "search_by_phash (db example_recognizer) (compute_phash example_recognizer ?frame)
              (phash_threshold example_recognizer) 50 = Inr ?cands"
    by (simp add: example_recognizer_def example_search_15)
  have sc1: "list_all (scorable example_libs (db example_recognizer)
                (compute_cnn_features example_recognizer ?frame)) ?cands"
    using sc by (simp add: example_recognizer_def)
  have nn1: "list_all (\<lambda>c. scored_similarity (scored_row example_libs (db example_recognizer)
                (compute_cnn_features example_recognizer ?frame) c) \<noteq> NaN) ?cands"
    using nn by (simp add: example_recognizer_def)
  have zs: "search_by_phash (db zero_vector_recognizer)
              (compute_phash zero_vector_recognizer ?frame)
              (phash_threshold zero_vector_recognizer) 50 = Inr ?zcands"
    by (simp add: zero_vector_recognizer_def zero_vector_search)
  have zsc: "list_all (scorable example_libs (db zero_vector_recognizer)
                (compute_cnn_features zero_vector_recognizer ?frame)) ?zcands"
    by (simp add: zero_vector_recognizer_def scorable_row example_libs_cosine example_cosines
        zero_vector_store_titles)
  have zv: "match_frame_valid example_libs zero_vector_recognizer ?frame =
              Inr [(2, ''B'', 20, 1)]"
    by (simp add: match_frame_valid_def zero_vector_recognizer_def zero_vector_search
        zero_vector_verify List.map_filter_simps at_least_def)
  note t = verify_output_descending[where L = example_libs and d = example_store
      and candidates = ?cands and q = "[1, 0]" and self = example_recognizer
      and frame = ?frame and ?stage1.0 = ?cands]
  note z = verify_output_descending[where L = example_libs and self = zero_vector_recognizer
      and frame = ?frame and ?stage1.0 = ?zcands]
  from t sc nn example_verify
  have 1: "sorted_wrt (\<lambda>a b. float_ge (scored_similarity a) (scored_similarity b))
        [(1, ''A'', 20, Num 1), (1, ''A'', 10, Num 1), (2, ''B'', 50, Num 0),
         (2, ''B'', 30, Num 0)]"
    by auto
  from t s1 sc1 nn1 example_valid
  have 2: "list_all (\<lambda>m. match_similarity m \<ge> cnn_threshold example_recognizer)
        [(1, ''A'', 20, 1), (1, ''A'', 10, 1)]
      \<and> sorted_wrt (\<lambda>a b. match_similarity a \<ge> match_similarity b)
        [(1, ''A'', 20, 1), (1, ''A'', 10, 1)]"
    by auto
  from z zs zsc zv
  have 3: "list_all (\<lambda>m. match_similarity m \<ge> cnn_threshold zero_vector_recognizer)
        [(2, ''B'', 20, 1)]"
    by auto
  show ?thesis using sc nn example_verify 1 example_valid 2 zs zsc zv 3 by blast
qed

text \<open>
  C8 as stated fails twice. Stage 1 lists fingerprint 2 (distance 0, timestamp 20) before
  fingerprint 1 (distance 3, timestamp 10); both score similarity 1, and the result of
  fingerprint 2 stays ahead of the result of fingerprint 1 in the Stage-2 output. And
  where a stored vector is the zero vector its similarity is NaN: the output lists the
  NaN row before the row of similarity 1, so it is not sorted descending.
\<close>

theorem verify_order_counterexample:
  "search_by_phash example_store ''ffffffffffffffff'' 15 50 =
     Inr [(2, 1, 20, ''ffffffffffffffff'', [1, 0]),
          (1, 1, 10, ''fffffffffffffff8'', [1, 0]),
          (5, 2, 50, ''fffffffffffffff1'', [0, 1]),
          (3, 2, 30, ''fffffffffffffff0'', [0, 1])]
   \<and> verify_with_cnn example_libs example_store
     [(2, 1, 20, ''ffffffffffffffff'', [1, 0]),
      (1, 1, 10, ''fffffffffffffff8'', [1, 0]),
      (5, 2, 50, ''fffffffffffffff1'', [0, 1]),
      (3, 2, 30, ''fffffffffffffff0'', [0, 1])] [1, 0] =
     Inr [(1, ''A'', 20, Num 1), (1, ''A'', 10, Num 1), (2, ''B'', 50, Num 0),
          (2, ''B'', 30, Num 0)]
   \<and> scored_row example_libs example_store [1, 0]
        (2, 1, 20, ''ffffffffffffffff'', [1, 0]) = (1, ''A'', 20, Num 1)
   \<and> scored_row example_libs example_store [1, 0]
        (1, 1, 10, ''fffffffffffffff8'', [1, 0]) = (1, ''A'', 10, Num 1)
   \<and> match_frame_valid example_libs example_recognizer (''ffffffffffffffff'', [1, 0]) =
        Inr [(1, ''A'', 20, 1), (1, ''A'', 10, 1)]
   \<and> search_by_phash zero_vector_store ''ffffffffffffffff'' 15 50 =
        Inr [(1, 1, 10, ''ffffffffffffffff'', [0, 0]), (2, 2, 20, ''ffffffffffffffff'', [1, 0])]
   \<and> verify_with_cnn example_libs zero_vector_store
        [(1, 1, 10, ''ffffffffffffffff'', [0, 0]), (2, 2, 20, ''ffffffffffffffff'', [1, 0])]
        [1, 0] =
        Inr [(1, ''A'', 10, NaN), (2, ''B'', 20, Num 1)]
   \<and> \<not> sorted_wrt (\<lambda>a b. float_ge (scored_similarity a) (scored_similarity b))
          [(1, ''A'', 10, NaN), (2, ''B'', 20, Num 1)]"
  by (simp add: example_search_15 example_verify example_valid zero_vector_search
      zero_vector_verify scored_row_def scored_similarity_def cand_media_id_def
      cand_timestamp_def cand_blob_def example_libs_cosine example_cosines example_titles)

text \<open>
  C10, as the code behaves. \<open>verify_with_cnn\<close> has no similarity floor: whenever the
  cosine call returns a float for every candidate (with SciPy's function: whenever the
  candidate's vector has the query's dimension) and every candidate's media row exists,
  it returns exactly one scored row per candidate, whatever the similarities, NaN
  included. When a candidate's vector has another dimension or its media row is
  missing, the call raises and returns no list. The threshold is applied afterwards by
  \<open>_match_frame\<close>, which filters the returned list.
\<close>

theorem verify_with_cnn_no_floor:
  "(list_all (scorable L d q) candidates \<and> sort_permutes L \<longrightarrow>
      (\<exists>matches. verify_with_cnn L d candidates q = Inr matches
         \<and> length matches = length candidates
         \<and> mset matches = mset (map (scored_row L d q) candidates)))
   \<and> (cosine L = cosine_float \<longrightarrow>
        scorable L d q c = (length q = length (cand_blob c) \<and> has_media_row d c))
   \<and> (\<not> list_all (scorable L d q) candidates \<longrightarrow>
        (\<exists>e. verify_with_cnn L d candidates q = Inl e))
   \<and> (search_by_phash (db self) (compute_phash self frame) (phash_threshold self) 50 =
         Inr stage1
       \<and> stage1 \<noteq> []
       \<and> verify_with_cnn L (db self) stage1 (compute_cnn_features self frame) =
           Inr returned \<longrightarrow>
      match_frame_valid L self frame =
        Inr (List.map_filter (at_least (cnn_threshold self)) returned))"
proof (intro conjI impI)
  assume a: "list_all (scorable L d q) candidates \<and> sort_permutes L"
  let ?ms = "list_sort_reverse L (map (scored_row L d q) candidates)"
  have v: "verify_with_cnn L d candidates q = Inr ?ms"
    using a by (simp add: verify_with_cnn_total)
  have l: "length ?ms = length candidates"
    using a by (simp add: list_sort_reverse_length)
  have m: "mset ?ms = mset (map (scored_row L d q) candidates)"
    using a by (simp add: list_sort_reverse_mset)
  show "\<exists>matches. verify_with_cnn L d candidates q = Inr matches
         \<and> length matches = length candidates
         \<and> mset matches = mset (map (scored_row L d q) candidates)"
    apply (rule exI[of _ ?ms])
    using v l m by simp
next
  assume "cosine L = cosine_float"
  then show "scorable L d q c = (length q = length (cand_blob c) \<and> has_media_row d c)"
    by (rule scorable_cosine_float)
next
  assume "\<not> list_all (scorable L d q) candidates"
  then show "\<exists>e. verify_with_cnn L d candidates q = Inl e"
    by (rule verify_with_cnn_raises)
next
  assume "search_by_phash (db self) (compute_phash self frame) (phash_threshold self) 50 =
         Inr stage1
       \<and> stage1 \<noteq> []
       \<and> verify_with_cnn L (db self) stage1 (compute_cnn_features self frame) =
           Inr returned"
  then show "match_frame_valid L self frame =
        Inr (List.map_filter (at_least (cnn_threshold self)) returned)"
    by (simp add: match_frame_valid_def Let_def)
qed

text \<open>
  C10 at the store with the zero vector (two candidates, two rows, one of them NaN), at
  the example store (four candidates, four rows, two of similarity 0), and at the store
  whose fingerprint has no media row.
\<close>

theorem verify_with_cnn_no_floor_witness:
  "list_all (scorable example_libs zero_vector_store [1, 0])
     [(1, 1, 10, ''ffffffffffffffff'', [0, 0]), (2, 2, 20, ''ffffffffffffffff'', [1, 0])]
   \<and> sort_permutes example_libs
   \<and> verify_with_cnn example_libs zero_vector_store
        [(1, 1, 10, ''ffffffffffffffff'', [0, 0]), (2, 2, 20, ''ffffffffffffffff'', [1, 0])]
        [1, 0] =
        Inr [(1, ''A'', 10, NaN), (2, ''B'', 20, Num 1)]
   \<and> length ([(1, ''A'', 10, NaN), (2, ''B'', 20, Num 1)] :: scored list) =
       length ([(1, 1, 10, ''ffffffffffffffff'', [0, 0]),
                (2, 2, 20, ''ffffffffffffffff'', [1, 0])] :: candidate list)
   \<and> cosine example_libs = cosine_float
   \<and> scorable example_libs zero_vector_store [1, 0] (1, 1, 10, ''ffffffffffffffff'', [0, 0])
   \<and> length [1 :: real, 0] = length (cand_blob (1, 1, 10, ''ffffffffffffffff'', [0, 0]))
   \<and> has_media_row zero_vector_store (1, 1, 10, ''ffffffffffffffff'', [0, 0])
   \<and> \<not> list_all (scorable example_libs orphan_store [1, 0])
         [(1, 7, 0, ''ffffffffffffffff'', [1, 0])]
   \<and> verify_with_cnn example_libs orphan_store [(1, 7, 0, ''ffffffffffffffff'', [1, 0])]
        [1, 0] = Inl TypeError
   \<and> search_by_phash (db example_recognizer)
        (compute_phash example_recognizer (''ffffffffffffffff'', [1, 0]))
        (phash_threshold example_recognizer) 50 =
        Inr [(2, 1, 20, ''ffffffffffffffff'', [1, 0]),
             (1, 1, 10, ''fffffffffffffff8'', [1, 0]),
             (5, 2, 50, ''fffffffffffffff1'', [0, 1]),
             (3, 2, 30, ''fffffffffffffff0'', [0, 1])]
   \<and> verify_with_cnn example_libs (db example_recognizer)
        [(2, 1, 20, ''ffffffffffffffff'', [1, 0]),
         (1, 1, 10, ''fffffffffffffff8'', [1, 0]),
         (5, 2, 50, ''fffffffffffffff1'', [0, 1]),
         (3, 2, 30, ''fffffffffffffff0'', [0, 1])]
        (compute_cnn_features example_recognizer (''ffffffffffffffff'', [1, 0])) =
        Inr [(1, ''A'', 20, Num 1), (1, ''A'', 10, Num 1), (2, ''B'', 50, Num 0),
             (2, ''B'', 30, Num 0)]
   \<and> match_frame_valid example_libs example_recognizer (''ffffffffffffffff'', [1, 0]) =
        Inr (List.map_filter (at_least (cnn_threshold example_recognizer))
               [(1, ''A'', 20, Num 1), (1, ''A'', 10, Num 1), (2, ''B'', 50, Num 0),
                (2, ''B'', 30, Num 0)])"
proof -
  let ?cands = "[(2, 1, 20, ''ffffffffffffffff'', [1, 0]),
      (1, 1, 10, ''fffffffffffffff8'', [1, 0]),
      (5, 2, 50, ''fffffffffffffff1'', [0, 1]),
      (3, 2, 30, ''fffffffffffffff0'', [0, 1])] :: candidate list"
  let ?rows = "[(1, ''A'', 20, Num 1), (1, ''A'', 10, Num 1), (2, ''B'', 50, Num 0),
      (2, ''B'', 30, Num 0)] :: scored list"
  let ?zcands = "[(1, 1, 10, ''ffffffffffffffff'', [0, 0]),
      (2, 2, 20, ''ffffffffffffffff'', [1, 0])] :: candidate list"
  let ?ocands = "[(1, 7, 0, ''ffffffffffffffff'', [1, 0])] :: candidate list"
  let ?frame = "(''ffffffffffffffff'', [1, 0]) :: string \<times> vec"
  have zsc: "list_all (scorable example_libs zero_vector_store [1, 0]) ?zcands"
    by (simp add: scorable_row example_libs_cosine example_cosines zero_vector_store_titles)
  have hm: "has_media_row zero_vector_store (1, 1, 10, ''ffffffffffffffff'', [0, 0])"
    by (simp add: has_media_row_def cand_media_id_def zero_vector_store_titles)
  have ln: "length [1 :: real, 0] = length (cand_blob (1, 1, 10, ''ffffffffffffffff'', [0, 0]))"
    by (simp add: cand_blob_def)
  have s1: "search_by_phash (db example_recognizer) (compute_phash example_recognizer ?frame)
              (phash_threshold example_recognizer) 50 = Inr ?cands"
    by (simp add: example_recognizer_def example_search_15)
  have v1: "verify_with_cnn example_libs (db example_recognizer) ?cands
              (compute_cnn_features example_recognizer ?frame) = Inr ?rows"
    by (simp add: example_recognizer_def example_verify)
  note t = verify_with_cnn_no_floor[where L = example_libs and d = zero_vector_store
      and q = "[1, 0]" and candidates = ?zcands
      and c = "(1, 1, 10, ''ffffffffffffffff'', [0, 0])"
      and self = example_recognizer and frame = ?frame and ?stage1.0 = ?cands
      and returned = ?rows]
  note u = verify_with_cnn_no_floor[where L = example_libs and d = orphan_store
      and q = "[1, 0]" and candidates = ?ocands]
  have no: "\<not> list_all (scorable example_libs orphan_store [1, 0]) ?ocands"
    using orphan_verify verify_with_cnn_total[of example_libs orphan_store "[1, 0]" ?ocands]
    by auto
  from u no orphan_verify
  have 0: "verify_with_cnn example_libs orphan_store ?ocands [1, 0] = Inl TypeError" by simp
  from t zsc example_libs_sort_permutes zero_vector_verify
  have 1: "length ([(1, ''A'', 10, NaN), (2, ''B'', 20, Num 1)] :: scored list) =
             length ?zcands"
    by simp
  from t example_libs_cosine hm ln
  have 2: "scorable example_libs zero_vector_store [1, 0]
             (1, 1, 10, ''ffffffffffffffff'', [0, 0])"
    by simp
  from t s1 v1
  have 3: "match_frame_valid example_libs example_recognizer ?frame =
        Inr (List.map_filter (at_least (cnn_threshold example_recognizer)) ?rows)"
    by simp
  show ?thesis
    using zsc example_libs_sort_permutes zero_vector_verify 1 example_libs_cosine 2 ln hm
      no 0 s1 v1 3
    by blast
qed

text \<open>
  C10 as stated fails: the store's only fingerprint names media id 7, which has no row.
  Stage 1 returns it as a candidate; the candidate list is non-empty and its vector has
  the query's dimension, and \<open>verify_with_cnn\<close> raises \<open>TypeError\<close> instead of returning
  one row.
\<close>

theorem verify_missing_media_counterexample:
  "search_by_phash orphan_store ''ffffffffffffffff'' 15 50 =
     Inr [(1, 7, 0, ''ffffffffffffffff'', [1, 0])]
   \<and> [(1, 7, 0, ''ffffffffffffffff'', [1 :: real, 0])] \<noteq> []
   \<and> length [1 :: real, 0] = length (cand_blob (1, 7, 0, ''ffffffffffffffff'', [1, 0]))
   \<and> media orphan_store = []
   \<and> verify_with_cnn example_libs orphan_store [(1, 7, 0, ''ffffffffffffffff'', [1, 0])]
        [1, 0] = Inl TypeError"
proof -
  have "media orphan_store = []"
    by (simp add: orphan_store_def add_fingerprints_def insert_fingerprint_def
        create_tables_def)
  then show ?thesis by (simp add: orphan_search orphan_verify cand_blob_def)
qed

section \<open>Voting and aggregation\<close>

lemma counter_add_map:
  "distinct K \<Longrightarrow>
     counter_add (map (\<lambda>k. (k, f k)) K) x =
       (if x \<in> set K then map (\<lambda>k. (k, (f(x := f x + 1)) k)) K
        else map (\<lambda>k. (k, f k)) K @ [(x, 1)])"
proof (induction K)
  case Nil
  then show ?case by simp
next
  case (Cons k K)
  show ?case
  proof (cases "k = x")
    case True
    then have "x \<notin> set K" using Cons.prems by simp
    then have "map (\<lambda>k. (k, f k)) K = map (\<lambda>k. (k, (f(x := f x + 1)) k)) K"
      by (intro map_cong) auto
    with True show ?thesis by simp
  next
    case False
    with Cons show ?thesis by simp
  qed
qed

lemma count_list_snoc: "count_list (xs @ [x]) k = count_list xs k + (if k = x then 1 else 0)"
  by (induction xs) auto

lemma Counter_eq:
  "Counter xs = map (\<lambda>k. (k, count_list xs k)) (rev (remdups (rev xs)))"
proof (induction xs rule: rev_induct)
  case Nil
  then show ?case by (simp add: Counter_def)
next
  case (snoc x xs)
  let ?K = "rev (remdups (rev xs))"
  have step: "Counter (xs @ [x]) = counter_add (Counter xs) x" by (simp add: Counter_def)
  have dK: "distinct ?K" and sK: "set ?K = set xs" by simp_all
  show ?case
  proof (cases "x \<in> set xs")
    case True
    have "map (\<lambda>k. (k, ((count_list xs)(x := count_list xs x + 1)) k)) ?K =
          map (\<lambda>k. (k, count_list (xs @ [x]) k)) ?K"
      by (intro map_cong) (auto simp: count_list_snoc)
    with True show ?thesis
      unfolding step snoc.IH counter_add_map[OF dK] by (simp add: sK)
  next
    case False
    have "map (\<lambda>k. (k, count_list xs k)) ?K = map (\<lambda>k. (k, count_list (xs @ [x]) k)) ?K"
      using False by (intro map_cong) (auto simp: count_list_snoc)
    with False show ?thesis
      unfolding step snoc.IH counter_add_map[OF dK]
      by (simp add: sK count_list_snoc count_list_0_iff)
  qed
qed

lemma max_loop_first_max:
  fixes key :: "'a \<Rightarrow> 'k::linorder"
  shows "\<exists>pre post. b # xs = pre @ max_loop key b xs # post
           \<and> (\<forall>y\<in>set pre. key y < key (max_loop key b xs))
           \<and> (\<forall>y\<in>set post. key y \<le> key (max_loop key b xs))"
proof (induction xs arbitrary: b)
  case Nil
  show ?case by (rule exI[of _ "[]"]) simp
next
  case (Cons x xs)
  define b' where "b' = (if key x > key b then x else b)"
  define r where "r = max_loop key b' xs"
  from Cons.IH[of b'] obtain pre post where
    split: "b' # xs = pre @ r # post" and lt: "\<forall>y\<in>set pre. key y < key r"
    and le: "\<forall>y\<in>set post. key y \<le> key r" unfolding r_def by blast
  have r: "max_loop key b (x # xs) = r" by (simp add: r_def b'_def)
  have b'_le: "key b' \<le> key r"
  proof (cases pre)
    case Nil
    with split have "b' = r" by simp
    then show ?thesis by simp
  next
    case (Cons p ps)
    with split have "b' = p" by simp
    moreover have "key p < key r" using lt Cons by simp
    ultimately show ?thesis by simp
  qed
  show ?case
  proof (cases "key x > key b")
    case True
    then have bx: "b' = x" by (simp add: b'_def)
    have "b # x # xs = (b # pre) @ r # post" using split bx by simp
    moreover have "\<forall>y\<in>set (b # pre). key y < key r" using lt b'_le True bx by auto
    ultimately show ?thesis unfolding r using le by blast
  next
    case False
    then have bb: "b' = b" by (simp add: b'_def)
    show ?thesis
    proof (cases pre)
      case Nil
      with split bb have rb: "r = b" and px: "post = xs" by simp_all
      have "b # x # xs = [] @ r # (x # xs)" using rb by simp
      moreover have "\<forall>y\<in>set (x # xs). key y \<le> key r"
        using le False rb px by auto
      moreover have "\<forall>y\<in>set ([]::'a list). key y < key r" by simp
      ultimately show ?thesis unfolding r by blast
    next
      case (Cons p ps)
      with split bb have p: "p = b" and xs: "xs = ps @ r # post" by simp_all
      have br: "key b < key r" using lt Cons p by simp
      then have "key x < key r" using False by simp
      moreover have "\<forall>y\<in>set ps. key y < key r" using lt Cons by simp
      ultimately have "\<forall>y\<in>set (b # x # ps). key y < key r" using br by simp
      moreover have "b # x # xs = (b # x # ps) @ r # post" using xs by simp
      ultimately show ?thesis unfolding r using le by blast
    qed
  qed
qed

lemma max_loop_mem: "max_loop key b xs \<in> set (b # xs)"
  by (induction xs arbitrary: b) auto

lemma max_loop_ge:
  fixes key :: "'a \<Rightarrow> 'k::linorder"
  shows "y \<in> set (b # xs) \<Longrightarrow> key y \<le> key (max_loop key b xs)"
  using max_loop_first_max[of b xs key]
  by (metis Un_iff insert_iff less_imp_le list.simps(15) order_refl set_append)

lemma takeWhile_first_seen:
  "w \<in> set xs \<Longrightarrow>
     set (takeWhile (\<lambda>t. t \<noteq> w) (rev (remdups (rev xs)))) = set (takeWhile (\<lambda>t. t \<noteq> w) xs)"
proof (induction xs rule: rev_induct)
  case Nil
  then show ?case by simp
next
  case (snoc x xs)
  let ?K = "rev (remdups (rev xs))"
  show ?case
  proof (cases "w \<in> set xs")
    case True
    then have "w \<in> set ?K" by simp
    then have 1: "takeWhile (\<lambda>t. t \<noteq> w) (?K @ [x]) = takeWhile (\<lambda>t. t \<noteq> w) ?K"
      by (intro takeWhile_append1[of w]) auto
    have 2: "takeWhile (\<lambda>t. t \<noteq> w) (xs @ [x]) = takeWhile (\<lambda>t. t \<noteq> w) xs"
      using True by (intro takeWhile_append1[of w]) auto
    show ?thesis using snoc.IH[OF True] 1 2 by (cases "x \<in> set xs") simp_all
  next
    case False
    with snoc.prems have wx: "w = x" by simp
    have "takeWhile (\<lambda>t. t \<noteq> w) (?K @ [x]) = ?K @ takeWhile (\<lambda>t. t \<noteq> w) [x]"
      by (rule takeWhile_append2) (use False wx in auto)
    then have "takeWhile (\<lambda>t. t \<noteq> w) (?K @ [x]) = ?K" using wx by simp
    moreover have "takeWhile (\<lambda>t. t \<noteq> w) (xs @ [x]) = xs @ takeWhile (\<lambda>t. t \<noteq> w) [x]"
      by (rule takeWhile_append2) (use False wx in auto)
    then have "takeWhile (\<lambda>t. t \<noteq> w) (xs @ [x]) = xs" using wx by simp
    ultimately show ?thesis using False wx by simp
  qed
qed

lemma winning_title_of_first_max:
  assumes "ms \<noteq> []"
  shows "\<exists>w pre post. winning_title_of ms = Inr w
           \<and> map match_title ms = pre @ w # post
           \<and> list_all (\<lambda>t. votes ms t < votes ms w) pre
           \<and> (\<forall>t. votes ms t \<le> votes ms w)"
proof -
  define ts where "ts = map match_title ms"
  define K where "K = rev (remdups (rev ts))"
  define g where "g = (\<lambda>k. (k, count_list ts k))"
  have ts_ne: "ts \<noteq> []" using assms by (simp add: ts_def)
  then have K_ne: "K \<noteq> []" by (simp add: K_def)
  have C: "Counter ts = map g K" by (simp add: Counter_eq K_def g_def)
  obtain c cs where ccs: "map g K = c # cs" using K_ne by (cases "map g K") auto
  define r where "r = max_loop snd c cs"
  have win: "winning_title_of ms = Inr (fst r)"
    by (simp add: winning_title_of_def most_common1_def max_key_def C ccs r_def flip: ts_def)
  from max_loop_first_max[of c cs snd] obtain preC postC where
    split: "map g K = preC @ r # postC" and lt: "\<forall>y\<in>set preC. snd y < snd r"
    and le: "\<forall>y\<in>set postC. snd y \<le> snd r" unfolding r_def ccs by blast
  from split obtain K1 w K2 where K: "K = K1 @ w # K2" and p: "preC = map g K1"
    and rw: "r = g w" and q: "postC = map g K2"
    by (auto simp: map_eq_append_conv map_eq_Cons_conv)
  have fw: "fst r = w" and sw: "snd r = count_list ts w" by (simp_all add: rw g_def)
  have dK: "distinct K" and sK: "set K = set ts" by (simp_all add: K_def)
  have w_in: "w \<in> set ts" using K sK by auto
  have w_notin: "w \<notin> set K1" using dK K by auto
  have "takeWhile (\<lambda>t. t \<noteq> w) (K1 @ w # K2) = K1 @ takeWhile (\<lambda>t. t \<noteq> w) (w # K2)"
    by (rule takeWhile_append2) (use w_notin in auto)
  then have K1: "takeWhile (\<lambda>t. t \<noteq> w) K = K1"
    unfolding K by simp
  have pre_lt: "\<forall>t\<in>set (takeWhile (\<lambda>t. t \<noteq> w) ts). count_list ts t < count_list ts w"
  proof
    fix t assume "t \<in> set (takeWhile (\<lambda>t. t \<noteq> w) ts)"
    then have "t \<in> set K1" using takeWhile_first_seen[OF w_in] K1 by (simp add: K_def)
    then have "g t \<in> set preC" using p by simp
    with lt sw show "count_list ts t < count_list ts w" by (auto simp: g_def)
  qed
  have all_le: "count_list ts t \<le> count_list ts w" for t
  proof (cases "t \<in> set ts")
    case True
    then have "t \<in> set K1 \<or> t = w \<or> t \<in> set K2" using sK K by auto
    then have "g t \<in> set preC \<or> t = w \<or> g t \<in> set postC" using p q by auto
    with lt le sw show ?thesis by (auto simp: g_def less_imp_le)
  next
    case False
    then show ?thesis by (simp add: count_list_0_iff)
  qed
  have dne: "dropWhile (\<lambda>t. t \<noteq> w) ts \<noteq> []"
    using w_in by (auto simp: dropWhile_eq_Nil_conv)
  then have "\<not> hd (dropWhile (\<lambda>t. t \<noteq> w) ts) \<noteq> w" by (rule hd_dropWhile)
  with dne have "dropWhile (\<lambda>t. t \<noteq> w) ts = w # tl (dropWhile (\<lambda>t. t \<noteq> w) ts)"
    by (cases "dropWhile (\<lambda>t. t \<noteq> w) ts") auto
  then have sp: "ts = takeWhile (\<lambda>t. t \<noteq> w) ts @ w # tl (dropWhile (\<lambda>t. t \<noteq> w) ts)"
    by (metis takeWhile_dropWhile_id)
  have 1: "winning_title_of ms = Inr w" using win fw by simp
  have 2: "list_all (\<lambda>t. votes ms t < votes ms w) (takeWhile (\<lambda>t. t \<noteq> w) ts)"
    using pre_lt by (simp add: votes_def list_all_iff ts_def)
  have 3: "\<forall>t. votes ms t \<le> votes ms w" using all_le by (simp add: votes_def ts_def)
  show ?thesis
    apply (rule exI[of _ w])
    apply (rule exI[of _ "takeWhile (\<lambda>t. t \<noteq> w) ts"])
    apply (rule exI[of _ "tl (dropWhile (\<lambda>t. t \<noteq> w) ts)"])
    using 1 2 3 sp unfolding ts_def by simp
qed

lemma max_key_filter_title:
  assumes "w \<in> set (map match_title ms)"
  shows "\<exists>best. max_key match_similarity (filter (\<lambda>m. match_title m = w) ms) = Inr best
           \<and> best \<in> set ms \<and> match_title best = w
           \<and> match_similarity best =
               Max (match_similarity ` {m \<in> set ms. match_title m = w})"
proof -
  let ?tm = "filter (\<lambda>m. match_title m = w) ms"
  from assms have "?tm \<noteq> []" by (auto simp: filter_empty_conv)
  then obtain x rest where xr: "?tm = x # rest" by (cases ?tm) auto
  define best where "best = max_loop match_similarity x rest"
  have mk: "max_key match_similarity ?tm = Inr best" by (simp add: max_key_def xr best_def)
  have mem: "best \<in> set ?tm" unfolding xr best_def by (rule max_loop_mem)
  have ge: "match_similarity y \<le> match_similarity best" if "y \<in> set ?tm" for y
    using that unfolding xr best_def by (rule max_loop_ge)
  have set_eq: "{m \<in> set ms. match_title m = w} = set ?tm" by auto
  have "Max (match_similarity ` set ?tm) = match_similarity best"
    using mem ge by (intro Max_eqI) auto
  then show ?thesis using mk mem unfolding set_eq by auto
qed

lemma aggregate_matched:
  assumes "ms \<noteq> []"
  shows "\<exists>w pre post best.
           aggregate d n (ms, s1, s2) =
             Inr \<lparr>matched = True, title = Some w, year = get_year d (match_media_id best),
                  timestamp = Some (match_timestamp best),
                  confidence = Some (match_similarity best),
                  match_type = get_match_type (match_similarity best),
                  processing_time_ms = None, stage1_candidates = s1, stage2_candidates = s2,
                  frames_sampled = n, frames_matched = int (length ms)\<rparr>
           \<and> map match_title ms = pre @ w # post
           \<and> list_all (\<lambda>t. votes ms t < votes ms w) pre
           \<and> (\<forall>t. votes ms t \<le> votes ms w)
           \<and> best \<in> set ms \<and> match_title best = w
           \<and> match_similarity best =
               Max (match_similarity ` {m \<in> set ms. match_title m = w})"
proof -
  from winning_title_of_first_max[OF assms] obtain w pre post where
    w: "winning_title_of ms = Inr w" and sp: "map match_title ms = pre @ w # post"
    and lt: "list_all (\<lambda>t. votes ms t < votes ms w) pre" and le: "\<forall>t. votes ms t \<le> votes ms w"
    by blast
  have "w \<in> set (map match_title ms)" unfolding sp by simp
  from max_key_filter_title[OF this] obtain best where
    b: "max_key match_similarity (filter (\<lambda>m. match_title m = w) ms) = Inr best"
    and bp: "best \<in> set ms" "match_title best = w"
      "match_similarity best = Max (match_similarity ` {m \<in> set ms. match_title m = w})"
    by blast
  have agg: "aggregate d n (ms, s1, s2) =
             Inr \<lparr>matched = True, title = Some w, year = get_year d (match_media_id best),
                  timestamp = Some (match_timestamp best),
                  confidence = Some (match_similarity best),
                  match_type = get_match_type (match_similarity best),
                  processing_time_ms = None, stage1_candidates = s1, stage2_candidates = s2,
                  frames_sampled = n, frames_matched = int (length ms)\<rparr>"
    using assms by (simp add: aggregate_def w b bp(2))
  show ?thesis
    apply (rule exI[of _ w])
    apply (rule exI[of _ pre])
    apply (rule exI[of _ post])
    apply (rule exI[of _ best])
    using agg sp lt le bp by simp
qed

lemma votes_mset: "mset ms' = mset ms \<Longrightarrow> votes ms' t = votes ms t"
proof -
  assume "mset ms' = mset ms"
  then have "mset (map match_title ms') = mset (map match_title ms)" by (metis mset_map)
  then show ?thesis unfolding votes_def count_mset[symmetric] by (rule arg_cong)
qed

lemma five_frames_votes:
  "votes five_frames t = (if t = ''A'' then 3 else if t = ''B'' then 2 else 0)"
  by (simp add: votes_def five_frames_def match_title_def)

lemma five_frames_max:
  "Max (match_similarity ` {m \<in> set five_frames. match_title m = ''A''}) = 0.90"
proof -
  have "{m \<in> set five_frames. match_title m = ''A''} =
        {(1, ''A'', 10, 0.81), (1, ''A'', 20, 0.85), (1, ''A'', 30, 0.90)}"
    by (auto simp: five_frames_def match_title_def)
  then show ?thesis by (simp add: match_similarity_def)
qed


lemma best_matches_iff:
  "m \<in> set (best_matches ms w) \<longleftrightarrow>
     m \<in> set ms \<and> match_title m = w
     \<and> match_similarity m = Max (match_similarity ` {z \<in> set ms. match_title z = w})"
proof -
  define S where "S = match_similarity ` {z \<in> set ms. match_title z = w}"
  have fin: "finite S" by (simp add: S_def)
  have unfold: "m \<in> set (best_matches ms w) \<longleftrightarrow>
      m \<in> set ms \<and> match_title m = w
      \<and> (\<forall>z\<in>set ms. match_title z = w \<longrightarrow> match_similarity z \<le> match_similarity m)"
    unfolding best_matches_def list_all_iff set_filter by blast
  have "(\<forall>z\<in>set ms. match_title z = w \<longrightarrow> match_similarity z \<le> match_similarity m)
          \<longleftrightarrow> match_similarity m = Max S"
    if mem: "m \<in> set ms" "match_title m = w"
  proof
    assume all: "\<forall>z\<in>set ms. match_title z = w \<longrightarrow> match_similarity z \<le> match_similarity m"
    have in_S: "match_similarity m \<in> S" unfolding S_def using mem by blast
    have le: "y \<le> match_similarity m" if "y \<in> S" for y
      using that all unfolding S_def by blast
    have "Max S = match_similarity m"
      using fin le in_S by (rule Max_eqI)
    then show "match_similarity m = Max S" by (rule sym)
  next
    assume eq: "match_similarity m = Max S"
    show "\<forall>z\<in>set ms. match_title z = w \<longrightarrow> match_similarity z \<le> match_similarity m"
    proof (intro ballI impI)
      fix z assume "z \<in> set ms" "match_title z = w"
      then have "match_similarity z \<in> S" unfolding S_def by blast
      with fin show "match_similarity z \<le> match_similarity m"
        unfolding eq by (rule Max_ge)
    qed
  qed
  then show ?thesis unfolding unfold S_def by blast
qed

lemma best_matches_set:
  "set ms' = set ms \<Longrightarrow> set (best_matches ms' w) = set (best_matches ms w)"
  by (auto simp: best_matches_iff)

text \<open>
  When one title has strictly more votes than every other, it wins and the
  representative is one of its matches of highest similarity.
\<close>

lemma aggregate_unique_majority:
  assumes maj: "\<forall>t. t \<noteq> w \<longrightarrow> votes ms t < votes ms w" and ne: "ms \<noteq> []"
  shows "\<exists>best. best \<in> set (best_matches ms w)
           \<and> aggregate d n (ms, s1, s2) =
               Inr \<lparr>matched = True, title = Some w, year = get_year d (match_media_id best),
                    timestamp = Some (match_timestamp best),
                    confidence = Some (Max (match_similarity ` {m \<in> set ms. match_title m = w})),
                    match_type = get_match_type (match_similarity best),
                    processing_time_ms = None, stage1_candidates = s1, stage2_candidates = s2,
                    frames_sampled = n, frames_matched = int (length ms)\<rparr>"
proof -
  from aggregate_matched[OF ne, of d n s1 s2] obtain w' pre post best where
    agg: "aggregate d n (ms, s1, s2) =
             Inr \<lparr>matched = True, title = Some w', year = get_year d (match_media_id best),
                  timestamp = Some (match_timestamp best),
                  confidence = Some (match_similarity best),
                  match_type = get_match_type (match_similarity best),
                  processing_time_ms = None, stage1_candidates = s1, stage2_candidates = s2,
                  frames_sampled = n, frames_matched = int (length ms)\<rparr>"
    and le: "\<forall>t. votes ms t \<le> votes ms w'"
    and bm: "best \<in> set ms" "match_title best = w'"
    and mx: "match_similarity best =
               Max (match_similarity ` {m \<in> set ms. match_title m = w'})"
    by blast
  have w: "w' = w"
  proof (rule ccontr)
    assume "w' \<noteq> w"
    with maj have "votes ms w' < votes ms w" by simp
    with le show False by (simp add: not_le[symmetric])
  qed
  have b: "best \<in> set (best_matches ms w)"
    using bm mx w by (simp add: best_matches_iff)
  show ?thesis
    apply (rule exI[of _ best])
    using b agg mx w by simp
qed

text \<open>
  With a strict majority the title, the confidence and the count do not depend on the
  order of the collected matches; if moreover one match alone has the highest
  similarity among the winner's matches, the whole result does not.
\<close>

lemma aggregate_order:
  assumes eq: "mset ms' = mset ms" and ne: "ms \<noteq> []"
    and maj: "\<forall>t. t \<noteq> w \<longrightarrow> votes ms t < votes ms w"
  shows "\<exists>r r'. aggregate d n (ms, s1, s2) = Inr r \<and> aggregate d n (ms', s1, s2) = Inr r'
           \<and> matched r \<and> title r = Some w
           \<and> confidence r = Some (Max (match_similarity ` {m \<in> set ms. match_title m = w}))
           \<and> frames_matched r = int (length ms) \<and> frames_sampled r = n
           \<and> stage1_candidates r = s1 \<and> stage2_candidates r = s2
           \<and> title r' = title r \<and> confidence r' = confidence r
           \<and> frames_matched r' = frames_matched r
           \<and> (\<forall>b. set (best_matches ms w) = {b} \<longrightarrow>
                  timestamp r = Some (match_timestamp b) \<and> r' = r)"
proof -
  have ne': "ms' \<noteq> []" using ne eq by (metis mset_zero_iff)
  have maj': "\<forall>t. t \<noteq> w \<longrightarrow> votes ms' t < votes ms' w" using maj by (simp add: votes_mset[OF eq])
  have sets: "set ms' = set ms" using eq by (metis set_mset_mset)
  have len: "length ms' = length ms" using eq by (metis size_mset)
  let ?res = "\<lambda>best k. \<lparr>matched = True, title = Some w, year = get_year d (match_media_id best),
                    timestamp = Some (match_timestamp best),
                    confidence = Some (Max (match_similarity ` {m \<in> set ms. match_title m = w})),
                    match_type = get_match_type (match_similarity best),
                    processing_time_ms = None, stage1_candidates = s1, stage2_candidates = s2,
                    frames_sampled = n, frames_matched = int k\<rparr>"
  from aggregate_unique_majority[OF maj ne, of d n s1 s2] obtain best where
    b: "best \<in> set (best_matches ms w)"
    and r: "aggregate d n (ms, s1, s2) = Inr (?res best (length ms))" by blast
  from aggregate_unique_majority[OF maj' ne', of d n s1 s2] obtain best' where
    b': "best' \<in> set (best_matches ms' w)"
    and r': "aggregate d n (ms', s1, s2) = Inr (?res best' (length ms))"
    unfolding sets len by blast
  have b'': "best' \<in> set (best_matches ms w)" using b' best_matches_set[OF sets] by simp
  have u: "timestamp (?res best (length ms)) = Some (match_timestamp x)
           \<and> ?res best' (length ms) = ?res best (length ms)"
    if "set (best_matches ms w) = {x}" for x
    using that b b'' by simp
  show ?thesis
    apply (rule exI[of _ "?res best (length ms)"])
    apply (rule exI[of _ "?res best' (length ms)"])
    using r r' u by simp
qed

lemma five_frames_best: "set (best_matches five_frames ''A'') = {(1, ''A'', 30, 0.90)}"
proof -
  have "best_matches five_frames ''A'' = [(1, ''A'', 30, 0.90)]"
    by (simp add: best_matches_def five_frames_def match_title_def match_similarity_def)
  then show ?thesis by simp
qed

text \<open>
  Every order of the five matches A 0.81, A 0.85, A 0.90, B 0.99, B 0.99 gives title A,
  confidence 0.90, the timestamp of the match of similarity 0.90 and five matched frames.
\<close>

lemma aggregate_five_frames:
  assumes eq: "mset ms = mset five_frames"
  shows "\<exists>r. aggregate d n (ms, s1, s2) = Inr r \<and> matched r \<and> title r = Some ''A''
           \<and> confidence r = Some 0.90 \<and> timestamp r = Some 30 \<and> frames_matched r = 5
           \<and> frames_sampled r = n"
proof -
  have ne: "five_frames \<noteq> []" by (simp add: five_frames_def)
  have maj: "\<forall>t. t \<noteq> ''A'' \<longrightarrow> votes five_frames t < votes five_frames ''A''"
    by (simp add: five_frames_votes)
  have len: "length five_frames = 5" by (simp add: five_frames_def)
  from aggregate_order[OF eq ne maj, of d n s1 s2] obtain r r' where
    r: "aggregate d n (five_frames, s1, s2) = Inr r" "aggregate d n (ms, s1, s2) = Inr r'"
      "matched r" "title r = Some ''A''"
      "confidence r = Some (Max (match_similarity ` {m \<in> set five_frames. match_title m = ''A''}))"
      "frames_matched r = int (length five_frames)" "frames_sampled r = n"
    and u: "\<forall>b. set (best_matches five_frames ''A'') = {b} \<longrightarrow>
                  timestamp r = Some (match_timestamp b) \<and> r' = r"
    by blast
  from u five_frames_best have "timestamp r = Some (match_timestamp (1, ''A'', 30, 0.90))"
    and rr: "r' = r" by blast+
  then have ts: "timestamp r = Some 30" by (simp add: match_timestamp_def)
  show ?thesis
    apply (rule exI[of _ r])
    using r rr ts len five_frames_max by simp
qed

lemmas aggregate_eval =
  aggregate_def winning_title_of_def most_common1_def max_key_def Counter_def
  match_title_def match_similarity_def match_media_id_def match_timestamp_def
  get_year_def get_match_type_def example_store_media

text \<open>
  When two matches of the winner share the highest similarity, the representative is
  the one collected first: the confidence is the same in both orders, the timestamp is
  not.
\<close>

lemma representative_tie_keeps_first:
  "aggregate example_store 2 ([(1, ''A'', 10, 0.9), (1, ''A'', 20, 0.9)], 0, 2) =
     Inr \<lparr>matched = True, title = Some ''A'', year = Some 2012, timestamp = Some 10,
          confidence = Some 0.9, match_type = PROBABLE, processing_time_ms = None,
          stage1_candidates = 0, stage2_candidates = 2, frames_sampled = 2,
          frames_matched = 2\<rparr>"
  "aggregate example_store 2 ([(1, ''A'', 20, 0.9), (1, ''A'', 10, 0.9)], 0, 2) =
     Inr \<lparr>matched = True, title = Some ''A'', year = Some 2012, timestamp = Some 20,
          confidence = Some 0.9, match_type = PROBABLE, processing_time_ms = None,
          stage1_candidates = 0, stage2_candidates = 2, frames_sampled = 2,
          frames_matched = 2\<rparr>"
  by (simp_all add: aggregate_eval)

text \<open>
  C5, as the code behaves. The winner has the most votes, and among titles tied for
  the most votes it is the one whose first match was collected earliest: every title
  seen before the winner's first match has strictly fewer votes. Similarities take no
  part in the vote.
\<close>

theorem tie_goes_to_first_seen_title:
  "ms \<noteq> [] \<longrightarrow>
     (\<exists>r w pre post. aggregate d n (ms, s1, s2) = Inr r \<and> title r = Some w
        \<and> map match_title ms = pre @ w # post
        \<and> list_all (\<lambda>t. votes ms t < votes ms w) pre
        \<and> (\<forall>t. votes ms t \<le> votes ms w))"
proof
  assume ne: "ms \<noteq> []"
  from aggregate_matched[OF ne, of d n s1 s2] obtain w pre post best where
    agg: "aggregate d n (ms, s1, s2) =
             Inr \<lparr>matched = True, title = Some w, year = get_year d (match_media_id best),
                  timestamp = Some (match_timestamp best),
                  confidence = Some (match_similarity best),
                  match_type = get_match_type (match_similarity best),
                  processing_time_ms = None, stage1_candidates = s1, stage2_candidates = s2,
                  frames_sampled = n, frames_matched = int (length ms)\<rparr>"
    and sp: "map match_title ms = pre @ w # post"
    and lt: "list_all (\<lambda>t. votes ms t < votes ms w) pre"
    and le: "\<forall>t. votes ms t \<le> votes ms w"
    by blast
  show "\<exists>r w pre post. aggregate d n (ms, s1, s2) = Inr r \<and> title r = Some w
        \<and> map match_title ms = pre @ w # post
        \<and> list_all (\<lambda>t. votes ms t < votes ms w) pre
        \<and> (\<forall>t. votes ms t \<le> votes ms w)"
    apply (rule exI[of _ "\<lparr>matched = True, title = Some w, year = get_year d (match_media_id best),
                  timestamp = Some (match_timestamp best),
                  confidence = Some (match_similarity best),
                  match_type = get_match_type (match_similarity best),
                  processing_time_ms = None, stage1_candidates = s1, stage2_candidates = s2,
                  frames_sampled = n, frames_matched = int (length ms)\<rparr>"])
    apply (rule exI[of _ w])
    apply (rule exI[of _ pre])
    apply (rule exI[of _ post])
    using agg sp lt le by simp
qed

lemma tie_frames_aggregate:
  "aggregate example_store 4 (tie_frames, 0, 4) =
     Inr \<lparr>matched = True, title = Some ''B'', year = None, timestamp = Some 50,
          confidence = Some 0.8, match_type = PROBABLE, processing_time_ms = None,
          stage1_candidates = 0, stage2_candidates = 4, frames_sampled = 4,
          frames_matched = 4\<rparr>"
  by (simp add: tie_frames_def aggregate_eval)

text \<open>
  C5 at a tie of two votes each: \<open>B\<close> is seen first and wins, although the best
  similarity of \<open>A\<close> is higher.
\<close>

theorem tie_goes_to_first_seen_title_witness:
  "tie_frames \<noteq> []
   \<and> aggregate example_store 4 (tie_frames, 0, 4) =
       Inr \<lparr>matched = True, title = Some ''B'', year = None, timestamp = Some 50,
            confidence = Some 0.8, match_type = PROBABLE, processing_time_ms = None,
            stage1_candidates = 0, stage2_candidates = 4, frames_sampled = 4,
            frames_matched = 4\<rparr>
   \<and> map match_title tie_frames = [] @ ''B'' # [''A'', ''A'', ''B'']
   \<and> votes tie_frames ''A'' = 2 \<and> votes tie_frames ''B'' = 2"
proof -
  have ne: "tie_frames \<noteq> []" by (simp add: tie_frames_def)
  from tie_goes_to_first_seen_title[of tie_frames example_store 4 0 4] ne
  obtain r w pre post where "aggregate example_store 4 (tie_frames, 0, 4) = Inr r"
    "title r = Some w" "map match_title tie_frames = pre @ w # post" by blast
  then have "w = ''B''" by (auto simp: tie_frames_aggregate)
  then show ?thesis
    using ne tie_frames_aggregate
    by (simp add: tie_frames_def votes_def match_title_def)
qed

text \<open>
  C5 as stated fails: \<open>A\<close> and \<open>B\<close> have one vote each, the best similarity of \<open>B\<close>
  (0.9) exceeds that of \<open>A\<close> (0.7), and the result is \<open>A\<close>, whose match was collected
  first.
\<close>

theorem tie_break_by_similarity_counterexample:
  "votes tie_frames_two ''A'' = 1 \<and> votes tie_frames_two ''B'' = 1
   \<and> Max (match_similarity ` {m \<in> set tie_frames_two. match_title m = ''A''}) = 0.7
   \<and> Max (match_similarity ` {m \<in> set tie_frames_two. match_title m = ''B''}) = 0.9
   \<and> aggregate example_store 2 (tie_frames_two, 0, 2) =
       Inr \<lparr>matched = True, title = Some ''A'', year = Some 2012, timestamp = Some 10,
            confidence = Some 0.7, match_type = WEAK, processing_time_ms = None,
            stage1_candidates = 0, stage2_candidates = 2, frames_sampled = 2,
            frames_matched = 2\<rparr>"
proof -
  have a: "{m \<in> set tie_frames_two. match_title m = ''A''} = {(1, ''A'', 10, 0.7)}"
    by (auto simp: tie_frames_two_def match_title_def)
  have b: "{m \<in> set tie_frames_two. match_title m = ''B''} = {(2, ''B'', 40, 0.9)}"
    by (auto simp: tie_frames_two_def match_title_def)
  have c: "aggregate example_store 2 (tie_frames_two, 0, 2) =
       Inr \<lparr>matched = True, title = Some ''A'', year = Some 2012, timestamp = Some 10,
            confidence = Some 0.7, match_type = WEAK, processing_time_ms = None,
            stage1_candidates = 0, stage2_candidates = 2, frames_sampled = 2,
            frames_matched = 2\<rparr>"
    by (simp add: tie_frames_two_def aggregate_eval)
  show ?thesis
    unfolding a b using c
    by (simp add: votes_def tie_frames_two_def match_title_def match_similarity_def)
qed

section \<open>The sampling loop and \<open>identify\<close>\<close>

lemma matches_of_simps:
  "matches_of [] = []"
  "matches_of (None # outcomes) = matches_of outcomes"
  "matches_of (Some m # outcomes) = m # matches_of outcomes"
  by (simp_all add: matches_of_def List.map_filter_simps)

lemma matches_of_Some: "matches_of (map Some ms) = ms"
  by (induction ms) (simp_all add: matches_of_simps)

lemma frames_read_clip_of: "frames_read (clip_of n frames) s idxs = map frames idxs"
  by (induction idxs arbitrary: s) (simp_all add: clip_of_def)

text \<open>
  When no frame raises, the loop returns: it appends the matches of the frames it read,
  in order, leaves the first counter alone and adds one to the second for each match.
\<close>

lemma sample_loop_outcomes:
  "map (frame_outcome L self) (frames_read v s idxs) = map Inr outcomes \<Longrightarrow>
     sample_loop L self v s (ms, c1, c2) idxs =
       Inr (ms @ matches_of outcomes, c1, c2 + int (length (matches_of outcomes)))"
proof (induction idxs arbitrary: s ms c2 outcomes)
  case Nil
  then show ?case by (simp add: matches_of_simps)
next
  case (Cons i idxs)
  obtain ret s' where rd: "read_frame v s i = (ret, s')" by (cases "read_frame v s i")
  from Cons.prems rd obtain out rest where
    outs: "outcomes = out # rest" and out: "frame_outcome L self ret = Inr out"
    and rest: "map (frame_outcome L self) (frames_read v s' idxs) = map Inr rest"
    by (cases outcomes) auto
  note ih = Cons.IH[OF rest]
  show ?case
  proof (cases ret)
    case None
    with out have "out = None" by (simp add: frame_outcome_def)
    then show ?thesis using ih[of ms c2] by (simp add: rd None outs matches_of_simps)
  next
    case (Some frame)
    with out have mf: "match_frame L self frame = Inr out" by (simp add: frame_outcome_def)
    show ?thesis
    proof (cases out)
      case None
      then show ?thesis
        using ih[of ms c2] by (simp add: rd Some mf outs matches_of_simps)
    next
      case (Some m)
      then show ?thesis
        using ih[of "ms @ [m]" "c2 + 1"]
        by (simp add: rd \<open>ret = Some frame\<close> mf outs matches_of_simps)
    qed
  qed
qed

lemma sample_loop_Inr:
  "sample_loop L self v s st idxs = Inr st' \<Longrightarrow>
     \<exists>outcomes. map (frame_outcome L self) (frames_read v s idxs) = map Inr outcomes"
proof (induction idxs arbitrary: s st)
  case Nil
  show ?case by (rule exI[of _ "[]"]) simp
next
  case (Cons i idxs)
  obtain ms c1 c2 where st: "st = (ms, c1, c2)" by (cases st)
  obtain ret s' where rd: "read_frame v s i = (ret, s')" by (cases "read_frame v s i")
  from Cons.prems obtain out st2 where
    out: "frame_outcome L self ret = Inr out"
    and step: "sample_loop L self v s' st2 idxs = Inr st'"
    by (cases ret)
      (auto simp: st rd frame_outcome_def split: sum.splits option.splits)
  from Cons.IH[OF step] obtain rest where
    rest: "map (frame_outcome L self) (frames_read v s' idxs) = map Inr rest" by blast
  show ?case
    by (rule exI[of _ "out # rest"]) (simp add: rd out rest)
qed

text \<open>A frame that raises ends the loop with its exception, whatever follows it.\<close>

lemma sample_loop_raises:
  "frames_read v s idxs = pre @ Some frame # post \<Longrightarrow> list_all (frame_ok L self) pre \<Longrightarrow>
     match_frame L self frame = Inl e \<Longrightarrow> sample_loop L self v s st idxs = Inl e"
proof (induction idxs arbitrary: s st pre)
  case Nil
  then show ?case by simp
next
  case (Cons i idxs)
  obtain ms c1 c2 where st: "st = (ms, c1, c2)" by (cases st)
  obtain ret s' where rd: "read_frame v s i = (ret, s')" by (cases "read_frame v s i")
  show ?case
  proof (cases pre)
    case Nil
    with Cons.prems(1) rd have "ret = Some frame" by simp
    then show ?thesis using Cons.prems(3) by (simp add: st rd)
  next
    case (Cons p pre')
    with Cons.prems(1) rd have p: "ret = p"
      and tl: "frames_read v s' idxs = pre' @ Some frame # post" by simp_all
    from Cons.prems(2) Cons have ok: "frame_ok L self ret" and oks: "list_all (frame_ok L self) pre'"
      by (simp_all add: p)
    note ih = Cons.IH[OF tl oks Cons.prems(3)]
    from ok obtain out where out: "frame_outcome L self ret = Inr out"
      by (auto simp: frame_ok_def split: sum.splits)
    show ?thesis
    proof (cases ret)
      case None
      then show ?thesis using ih by (simp add: st rd)
    next
      case (Some fr)
      with out have "match_frame L self fr = Inr out" by (simp add: frame_outcome_def)
      then show ?thesis using ih Some by (cases out) (simp_all add: st rd)
    qed
  qed
qed

lemma sample_loop_no_match:
  "list_all (no_match L self) (frames_read v s idxs) \<Longrightarrow>
     sample_loop L self v s (ms, c1, c2) idxs = Inr (ms, c1, c2)"
proof (induction idxs arbitrary: s)
  case Nil
  then show ?case by simp
next
  case (Cons i idxs)
  obtain ret s' where rd: "read_frame v s i = (ret, s')" by (cases "read_frame v s i")
  from Cons.prems rd have nm: "frame_outcome L self ret = Inr None"
    by (simp add: no_match_def)
  from Cons.prems rd have rest: "list_all (no_match L self) (frames_read v s' idxs)"
    by simp
  from Cons.IH[OF rest] nm show ?case
    by (cases ret) (simp_all add: rd frame_outcome_def)
qed

lemma identify_video_outcomes:
  assumes "linspace L 0 (total_frames v - 1) n = Inr idxs"
    and "map (frame_outcome L self) (frames_read v (opened v) idxs) = map Inr outcomes"
  shows "identify_video L self (Some v) n =
           aggregate (db self) n
             (matches_of outcomes, 0, int (length (matches_of outcomes)))"
  by (simp add: identify_video_def assms(1) sample_loop_outcomes[OF assms(2)])

lemma identify_video_Inr:
  assumes "identify_video L self (Some v) n = Inr r"
  shows "\<exists>idxs outcomes. linspace L 0 (total_frames v - 1) n = Inr idxs
           \<and> map (frame_outcome L self) (frames_read v (opened v) idxs) = map Inr outcomes
           \<and> aggregate (db self) n
                (matches_of outcomes, 0, int (length (matches_of outcomes))) = Inr r"
proof -
  from assms obtain idxs st where
    l: "linspace L 0 (total_frames v - 1) n = Inr idxs"
    and st: "sample_loop L self v (opened v) ([], 0, 0) idxs = Inr st"
    by (auto simp: identify_video_def split: sum.splits)
  from sample_loop_Inr[OF st] obtain outcomes where
    o: "map (frame_outcome L self) (frames_read v (opened v) idxs) = map Inr outcomes" by blast
  from assms have "aggregate (db self) n
      (matches_of outcomes, 0, int (length (matches_of outcomes))) = Inr r"
    unfolding identify_video_outcomes[OF l o] .
  with l o show ?thesis by blast
qed

text \<open>
  On every run of \<open>_identify_video\<close> that returns, the first counter is 0 and the second
  is the number of frames that matched; \<open>frames_matched\<close> is the number of frames read
  that yield a match.
\<close>

lemma aggregate_counters:
  assumes "aggregate d n (ms, s1, s2) = Inr r"
  shows "frames_sampled r = n \<and> frames_matched r = int (length ms)
         \<and> (ms \<noteq> [] \<longrightarrow> stage1_candidates r = s1 \<and> stage2_candidates r = s2)
         \<and> (ms = [] \<longrightarrow> stage1_candidates r = 0 \<and> stage2_candidates r = 0)"
proof (cases "ms = []")
  case True
  with assms show ?thesis by (auto simp: aggregate_def RecognitionResult_default_def)
next
  case False
  from aggregate_matched[OF False, of d n s1 s2] assms show ?thesis by auto
qed

lemma identify_video_counters:
  assumes "identify_video L self (Some v) n = Inr r"
  shows "stage1_candidates r = 0 \<and> stage2_candidates r = frames_matched r"
proof -
  from identify_video_Inr[OF assms] obtain outcomes where
    "aggregate (db self) n
       (matches_of outcomes, 0, int (length (matches_of outcomes))) = Inr r" by blast
  from aggregate_counters[OF this] show ?thesis by (cases "matches_of outcomes = []") auto
qed

lemma identify_video_frames_matched:
  assumes "identify_video L self (Some v) n = Inr r"
    and "linspace L 0 (total_frames v - 1) n = Inr idxs"
  shows "\<exists>outcomes.
           map (frame_outcome L self) (frames_read v (opened v) idxs) = map Inr outcomes
           \<and> frames_matched r = int (length (matches_of outcomes)) \<and> frames_sampled r = n"
proof -
  from identify_video_Inr[OF assms(1)] assms(2) obtain outcomes where
    o: "map (frame_outcome L self) (frames_read v (opened v) idxs) = map Inr outcomes"
    and a: "aggregate (db self) n
       (matches_of outcomes, 0, int (length (matches_of outcomes))) = Inr r" by auto
  from aggregate_counters[OF a] o show ?thesis by blast
qed

lemma identify_video_file:
  "identify L self (Video_file (Some v)) n elapsed =
     (case identify_video L self (Some v) n of Inl e \<Rightarrow> Inl e
      | Inr r \<Rightarrow> Inr (r\<lparr>processing_time_ms := Some elapsed\<rparr>))"
  by (simp add: identify_def)

subsection \<open>The store for the vote\<close>

lemma vote_store_select:
  "select_fingerprints vote_store =
     [(1, 1, 10, ''fffffffffffffff8'', [1, 0, 0, 0, 0]),
      (2, 1, 20, ''ffffffffffffffff'', [0, 1, 0, 0, 0]),
      (3, 1, 30, ''fffffffffffffff0'', [0, 0, 1, 0, 0]),
      (4, 2, 40, ''fffffffffffffff1'', [0, 0, 0, 1, 0]),
      (5, 2, 50, ''fffffffffffffff3'', [0, 0, 0, 0, 1])]"
  by (simp add: vote_store_def select_fingerprints_def add_media_def create_tables_def
      add_fingerprints_def insert_fingerprint_def Let_def)

lemma vote_store_media:
  "media vote_store =
     [\<lparr>m_id = 1, m_title = ''A'', m_year = Some 2012, m_duration = None, m_filepath = None,
       m_total_frames = None\<rparr>,
      \<lparr>m_id = 2, m_title = ''B'', m_year = None, m_duration = None, m_filepath = None,
       m_total_frames = None\<rparr>]"
  by (simp add: vote_store_def add_media_def create_tables_def
      add_fingerprints_def insert_fingerprint_def Let_def)

lemma vote_titles:
  "select_title vote_store 1 = Inr ''A''"
  "select_title vote_store 2 = Inr ''B''"
  by (simp_all add: select_title_def vote_store_media)

lemma vote_distance: "hamming_distance ''ffffffffffffffff'' ''fffffffffffffff3'' = Inr 2"
  by (simp add: hamming_eval)

lemma vote_search:
  "search_by_phash vote_store ''ffffffffffffffff'' 15 50 =
     Inr [(2, 1, 20, ''ffffffffffffffff'', [0, 1, 0, 0, 0]),
          (5, 2, 50, ''fffffffffffffff3'', [0, 0, 0, 0, 1]),
          (1, 1, 10, ''fffffffffffffff8'', [1, 0, 0, 0, 0]),
          (4, 2, 40, ''fffffffffffffff1'', [0, 0, 0, 1, 0]),
          (3, 1, 30, ''fffffffffffffff0'', [0, 0, 1, 0, 0])]"
  by (simp add: search_by_phash_def vote_store_select cand_phash_def example_distances
      vote_distance list_sort_def slice_to_def)

lemma sqrt_examples: "sqrt 10000 = 100" "sqrt 400 = 20" "sqrt 100 = 10"
  by (rule real_sqrt_unique; simp)+

lemma vote_recognizer_fields:
  "db vote_recognizer = vote_store" "compute_phash vote_recognizer = fst"
  "compute_cnn_features vote_recognizer = snd" "phash_threshold vote_recognizer = 15"
  "cnn_threshold vote_recognizer = 0.6"
  by (simp_all add: vote_recognizer_def)

lemmas vote_eval =
  match_frame_def match_frame_valid_def vote_recognizer_fields vote_search
  verify_with_cnn_def example_libs_cosine cosine_float_def cosine_distance_def dot_def
  sqrt_examples vote_titles list_sort_reverse_def scored_similarity_def number_def
  List.map_filter_simps at_least_def

lemma vote_match_1:
  "match_frame example_libs vote_recognizer (''ffffffffffffffff'', [81, 58, 5, 5, 5]) =
     Inr (Some (1, ''A'', 10, 0.81))"
  by (simp add: vote_eval)

lemma vote_match_2:
  "match_frame example_libs vote_recognizer (''ffffffffffffffff'', [10, 17, 3, 1, 1]) =
     Inr (Some (1, ''A'', 20, 0.85))"
  by (simp add: vote_eval)

lemma vote_match_3:
  "match_frame example_libs vote_recognizer (''ffffffffffffffff'', [3, 3, 9, 1, 0]) =
     Inr (Some (1, ''A'', 30, 0.90))"
  by (simp add: vote_eval)

lemma vote_match_4:
  "match_frame example_libs vote_recognizer (''ffffffffffffffff'', [1, 1, 1, 99, 14]) =
     Inr (Some (2, ''B'', 40, 0.99))"
  by (simp add: vote_eval)

lemma vote_match_5:
  "match_frame example_libs vote_recognizer (''ffffffffffffffff'', [1, 1, 1, 14, 99]) =
     Inr (Some (2, ''B'', 50, 0.99))"
  by (simp add: vote_eval)

lemma vote_frames_read:
  "frames_read five_frame_clip (opened five_frame_clip) [0, 1, 2, 3, 4] = map Some vote_frames"
  "frames_read five_frame_clip_shuffled (opened five_frame_clip_shuffled) [0, 1, 2, 3, 4] =
     map Some vote_frames_shuffled"
  unfolding five_frame_clip_def five_frame_clip_shuffled_def frames_read_clip_of
  by (simp_all add: frame_at_def vote_frames_def vote_frames_shuffled_def)

lemma vote_outcomes:
  "map (frame_outcome example_libs vote_recognizer)
     (frames_read five_frame_clip (opened five_frame_clip) [0, 1, 2, 3, 4]) =
   map Inr (map Some five_frames)"
  unfolding vote_frames_read
  by (simp add: vote_frames_def frame_outcome_def five_frames_def
      vote_match_1 vote_match_2 vote_match_3 vote_match_4 vote_match_5)

lemma vote_outcomes_shuffled:
  "map (frame_outcome example_libs vote_recognizer)
     (frames_read five_frame_clip_shuffled (opened five_frame_clip_shuffled) [0, 1, 2, 3, 4]) =
   map Inr (map Some five_frames_shuffled)"
  unfolding vote_frames_read
  by (simp add: vote_frames_shuffled_def frame_outcome_def five_frames_shuffled_def
      vote_match_1 vote_match_2 vote_match_3 vote_match_4 vote_match_5)

lemma vote_linspace:
  "linspace example_libs 0 (total_frames five_frame_clip - 1) 5 = Inr [0, 1, 2, 3, 4]"
  "linspace example_libs 0 (total_frames five_frame_clip_shuffled - 1) 5 = Inr [0, 1, 2, 3, 4]"
  by (simp_all add: example_libs_def five_frame_clip_def five_frame_clip_shuffled_def
      clip_of_def linspace_exact_def upt_rec)

text \<open>
  C1. For every identify call on a clip whose sampled frames raise nothing and give at
  least one match, the result is matched, its title has the most votes among the
  matches collected (no title has more), its confidence and timestamp are those of a
  match of that title whose similarity is the highest among the title's matches, and
  \<open>frames_matched\<close> counts all collected matches. When one title has strictly more
  votes than every other, then title, confidence and \<open>frames_matched\<close> are the same for
  every clip that yields the same matches in another order, and if one match alone has
  the highest similarity among the winner's matches, the timestamp is that match's and
  the whole result is the same. In particular every clip whose frames yield the five
  matches A 0.81, A 0.85, A 0.90, B 0.99, B 0.99, in any order, gives title A,
  confidence 0.90, the timestamp 30 of the third match, and \<open>frames_matched = 5\<close>.
\<close>

theorem identify_majority_vote:
  "(linspace L 0 (total_frames v - 1) n = Inr idxs
      \<and> map (frame_outcome L self) (frames_read v (opened v) idxs) = map Inr outcomes
      \<and> matches_of outcomes \<noteq> [] \<longrightarrow>
      (\<exists>r w best. identify L self (Video_file (Some v)) n elapsed = Inr r \<and> matched r
         \<and> title r = Some w
         \<and> (\<forall>t. votes (matches_of outcomes) t \<le> votes (matches_of outcomes) w)
         \<and> best \<in> set (matches_of outcomes) \<and> match_title best = w
         \<and> match_similarity best =
             Max (match_similarity ` {m \<in> set (matches_of outcomes). match_title m = w})
         \<and> confidence r = Some (match_similarity best)
         \<and> timestamp r = Some (match_timestamp best)
         \<and> frames_matched r = int (length (matches_of outcomes))
         \<and> frames_sampled r = n))
   \<and> (linspace L 0 (total_frames v - 1) n = Inr idxs
      \<and> map (frame_outcome L self) (frames_read v (opened v) idxs) = map Inr outcomes
      \<and> linspace L 0 (total_frames v' - 1) n = Inr idxs'
      \<and> map (frame_outcome L self) (frames_read v' (opened v') idxs') = map Inr outcomes'
      \<and> mset (matches_of outcomes') = mset (matches_of outcomes)
      \<and> matches_of outcomes \<noteq> []
      \<and> (\<forall>t. t \<noteq> w \<longrightarrow> votes (matches_of outcomes) t < votes (matches_of outcomes) w) \<longrightarrow>
      (\<exists>r r'. identify L self (Video_file (Some v)) n elapsed = Inr r
         \<and> identify L self (Video_file (Some v')) n elapsed = Inr r'
         \<and> title r = Some w \<and> title r' = title r \<and> confidence r' = confidence r
         \<and> frames_matched r' = frames_matched r
         \<and> (set (best_matches (matches_of outcomes) w) = {b} \<longrightarrow>
              timestamp r = Some (match_timestamp b) \<and> r' = r)))
   \<and> (linspace L 0 (total_frames v - 1) n = Inr idxs
      \<and> map (frame_outcome L self) (frames_read v (opened v) idxs) = map Inr outcomes
      \<and> mset (matches_of outcomes) = mset five_frames \<longrightarrow>
      (\<exists>r. identify L self (Video_file (Some v)) n elapsed = Inr r \<and> matched r
         \<and> title r = Some ''A'' \<and> confidence r = Some 0.90 \<and> timestamp r = Some 30
         \<and> frames_matched r = 5 \<and> frames_sampled r = n))"
proof (intro conjI impI)
  assume a: "linspace L 0 (total_frames v - 1) n = Inr idxs
      \<and> map (frame_outcome L self) (frames_read v (opened v) idxs) = map Inr outcomes
      \<and> matches_of outcomes \<noteq> []"
  define ms where "ms = matches_of outcomes"
  have ne: "ms \<noteq> []" using a by (simp add: ms_def)
  have iv: "identify_video L self (Some v) n = aggregate (db self) n (ms, 0, int (length ms))"
    unfolding ms_def using a by (simp add: identify_video_outcomes)
  from aggregate_matched[OF ne, of "db self" n 0 "int (length ms)"] obtain w pre post best where
    agg: "aggregate (db self) n (ms, 0, int (length ms)) =
             Inr \<lparr>matched = True, title = Some w,
                  year = get_year (db self) (match_media_id best),
                  timestamp = Some (match_timestamp best),
                  confidence = Some (match_similarity best),
                  match_type = get_match_type (match_similarity best),
                  processing_time_ms = None, stage1_candidates = 0,
                  stage2_candidates = int (length ms),
                  frames_sampled = n, frames_matched = int (length ms)\<rparr>"
    and le: "\<forall>t. votes ms t \<le> votes ms w"
    and bm: "best \<in> set ms" "match_title best = w"
    and mx: "match_similarity best =
               Max (match_similarity ` {m \<in> set ms. match_title m = w})"
    by blast
  define r where "r = \<lparr>matched = True, title = Some w,
                  year = get_year (db self) (match_media_id best),
                  timestamp = Some (match_timestamp best),
                  confidence = Some (match_similarity best),
                  match_type = get_match_type (match_similarity best),
                  processing_time_ms = Some elapsed, stage1_candidates = 0,
                  stage2_candidates = int (length ms),
                  frames_sampled = n, frames_matched = int (length ms)\<rparr>"
  have id: "identify L self (Video_file (Some v)) n elapsed = Inr r"
    by (simp add: identify_video_file iv agg r_def)
  have f: "matched r" "title r = Some w" "confidence r = Some (match_similarity best)"
    "timestamp r = Some (match_timestamp best)" "frames_matched r = int (length ms)"
    "frames_sampled r = n"
    by (simp_all add: r_def)
  show "\<exists>r w best. identify L self (Video_file (Some v)) n elapsed = Inr r \<and> matched r
         \<and> title r = Some w
         \<and> (\<forall>t. votes (matches_of outcomes) t \<le> votes (matches_of outcomes) w)
         \<and> best \<in> set (matches_of outcomes) \<and> match_title best = w
         \<and> match_similarity best =
             Max (match_similarity ` {m \<in> set (matches_of outcomes). match_title m = w})
         \<and> confidence r = Some (match_similarity best)
         \<and> timestamp r = Some (match_timestamp best)
         \<and> frames_matched r = int (length (matches_of outcomes))
         \<and> frames_sampled r = n"
    apply (rule exI[of _ r])
    apply (rule exI[of _ w])
    apply (rule exI[of _ best])
    using id f le bm mx unfolding ms_def by simp
next
  assume a: "linspace L 0 (total_frames v - 1) n = Inr idxs
      \<and> map (frame_outcome L self) (frames_read v (opened v) idxs) = map Inr outcomes
      \<and> linspace L 0 (total_frames v' - 1) n = Inr idxs'
      \<and> map (frame_outcome L self) (frames_read v' (opened v') idxs') = map Inr outcomes'
      \<and> mset (matches_of outcomes') = mset (matches_of outcomes)
      \<and> matches_of outcomes \<noteq> []
      \<and> (\<forall>t. t \<noteq> w \<longrightarrow> votes (matches_of outcomes) t < votes (matches_of outcomes) w)"
  define ms where "ms = matches_of outcomes"
  define ms' where "ms' = matches_of outcomes'"
  have eq: "mset ms' = mset ms" and ne: "ms \<noteq> []"
    and maj: "\<forall>t. t \<noteq> w \<longrightarrow> votes ms t < votes ms w"
    using a by (simp_all add: ms_def ms'_def)
  have len: "length ms' = length ms" using eq by (metis size_mset)
  have iv: "identify_video L self (Some v) n = aggregate (db self) n (ms, 0, int (length ms))"
    unfolding ms_def using a by (simp add: identify_video_outcomes)
  have iv': "identify_video L self (Some v') n =
               aggregate (db self) n (ms', 0, int (length ms))"
    unfolding ms'_def len[unfolded ms'_def, symmetric] using a
    by (simp add: identify_video_outcomes)
  from aggregate_order[OF eq ne maj, of "db self" n 0 "int (length ms)"] obtain ra ra' where
    agg: "aggregate (db self) n (ms, 0, int (length ms)) = Inr ra"
    and agg': "aggregate (db self) n (ms', 0, int (length ms)) = Inr ra'"
    and t: "title ra = Some w" "title ra' = title ra" "confidence ra' = confidence ra"
      "frames_matched ra' = frames_matched ra"
    and u: "\<forall>b. set (best_matches ms w) = {b} \<longrightarrow>
                  timestamp ra = Some (match_timestamp b) \<and> ra' = ra"
    by blast
  define r where "r = ra\<lparr>processing_time_ms := Some elapsed\<rparr>"
  define r' where "r' = ra'\<lparr>processing_time_ms := Some elapsed\<rparr>"
  have id: "identify L self (Video_file (Some v)) n elapsed = Inr r"
    by (simp add: identify_video_file iv agg r_def)
  have id': "identify L self (Video_file (Some v')) n elapsed = Inr r'"
    by (simp add: identify_video_file iv' agg' r'_def)
  have f: "title r = Some w" "title r' = title r" "confidence r' = confidence r"
    "frames_matched r' = frames_matched r"
    using t by (simp_all add: r_def r'_def)
  have g: "timestamp r = Some (match_timestamp b) \<and> r' = r"
    if "set (best_matches ms w) = {b}"
    using u that by (simp add: r_def r'_def)
  show "\<exists>r r'. identify L self (Video_file (Some v)) n elapsed = Inr r
         \<and> identify L self (Video_file (Some v')) n elapsed = Inr r'
         \<and> title r = Some w \<and> title r' = title r \<and> confidence r' = confidence r
         \<and> frames_matched r' = frames_matched r
         \<and> (set (best_matches (matches_of outcomes) w) = {b} \<longrightarrow>
              timestamp r = Some (match_timestamp b) \<and> r' = r)"
    apply (rule exI[of _ r])
    apply (rule exI[of _ r'])
    using id id' f g unfolding ms_def by simp
next
  assume a: "linspace L 0 (total_frames v - 1) n = Inr idxs
      \<and> map (frame_outcome L self) (frames_read v (opened v) idxs) = map Inr outcomes
      \<and> mset (matches_of outcomes) = mset five_frames"
  define ms where "ms = matches_of outcomes"
  have eq: "mset ms = mset five_frames" using a by (simp add: ms_def)
  have iv: "identify_video L self (Some v) n = aggregate (db self) n (ms, 0, int (length ms))"
    unfolding ms_def using a by (simp add: identify_video_outcomes)
  from aggregate_five_frames[OF eq, of "db self" n 0 "int (length ms)"] obtain ra where
    agg: "aggregate (db self) n (ms, 0, int (length ms)) = Inr ra"
    and t: "matched ra" "title ra = Some ''A''" "confidence ra = Some 0.90"
      "timestamp ra = Some 30" "frames_matched ra = 5" "frames_sampled ra = n"
    by blast
  define r where "r = ra\<lparr>processing_time_ms := Some elapsed\<rparr>"
  have id: "identify L self (Video_file (Some v)) n elapsed = Inr r"
    by (simp add: identify_video_file iv agg r_def)
  show "\<exists>r. identify L self (Video_file (Some v)) n elapsed = Inr r \<and> matched r
         \<and> title r = Some ''A'' \<and> confidence r = Some 0.90 \<and> timestamp r = Some 30
         \<and> frames_matched r = 5 \<and> frames_sampled r = n"
    apply (rule exI[of _ r])
    using id t by (simp add: r_def)
qed

lemma vote_aggregate:
  "aggregate vote_store 5 (five_frames, 0, 5) =
     Inr \<lparr>matched = True, title = Some ''A'', year = Some 2012, timestamp = Some 30,
          confidence = Some 0.90, match_type = PROBABLE, processing_time_ms = None,
          stage1_candidates = 0, stage2_candidates = 5, frames_sampled = 5,
          frames_matched = 5\<rparr>"
  by (simp add: five_frames_def aggregate_def winning_title_of_def most_common1_def
      max_key_def Counter_def match_title_def match_similarity_def match_media_id_def
      match_timestamp_def get_year_def get_match_type_def vote_store_media)

text \<open>
  C1 at two clips of five frames over the store for the vote: the frames of the first
  match A, A, A, B, B with the similarities of the example, the second holds the same
  frames in the order B, A, B, A, A.
\<close>

theorem identify_majority_vote_witness:
  "linspace example_libs 0 (total_frames five_frame_clip - 1) 5 = Inr [0, 1, 2, 3, 4]
   \<and> map (frame_outcome example_libs vote_recognizer)
        (frames_read five_frame_clip (opened five_frame_clip) [0, 1, 2, 3, 4]) =
      map Inr (map Some five_frames)
   \<and> linspace example_libs 0 (total_frames five_frame_clip_shuffled - 1) 5 =
      Inr [0, 1, 2, 3, 4]
   \<and> map (frame_outcome example_libs vote_recognizer)
        (frames_read five_frame_clip_shuffled (opened five_frame_clip_shuffled)
           [0, 1, 2, 3, 4]) =
      map Inr (map Some five_frames_shuffled)
   \<and> matches_of (map Some five_frames) = five_frames
   \<and> matches_of (map Some five_frames_shuffled) = five_frames_shuffled
   \<and> mset five_frames_shuffled = mset five_frames
   \<and> five_frames \<noteq> []
   \<and> votes five_frames ''A'' = 3 \<and> votes five_frames ''B'' = 2
   \<and> set (best_matches five_frames ''A'') = {(1, ''A'', 30, 0.90)}
   \<and> identify example_libs vote_recognizer (Video_file (Some five_frame_clip)) 5 12 =
        Inr \<lparr>matched = True, title = Some ''A'', year = Some 2012, timestamp = Some 30,
             confidence = Some 0.90, match_type = PROBABLE, processing_time_ms = Some 12,
             stage1_candidates = 0, stage2_candidates = 5, frames_sampled = 5,
             frames_matched = 5\<rparr>
   \<and> identify example_libs vote_recognizer (Video_file (Some five_frame_clip_shuffled)) 5 12 =
        Inr \<lparr>matched = True, title = Some ''A'', year = Some 2012, timestamp = Some 30,
             confidence = Some 0.90, match_type = PROBABLE, processing_time_ms = Some 12,
             stage1_candidates = 0, stage2_candidates = 5, frames_sampled = 5,
             frames_matched = 5\<rparr>"
proof -
  let ?res = "\<lparr>matched = True, title = Some ''A'', year = Some 2012, timestamp = Some 30,
             confidence = Some 0.90, match_type = PROBABLE, processing_time_ms = Some 12,
             stage1_candidates = 0, stage2_candidates = 5, frames_sampled = 5,
             frames_matched = 5\<rparr>"
  have m: "matches_of (map Some five_frames) = five_frames"
    "matches_of (map Some five_frames_shuffled) = five_frames_shuffled"
    by (simp_all add: matches_of_Some)
  have eq: "mset five_frames_shuffled = mset five_frames"
    by (simp add: five_frames_def five_frames_shuffled_def)
  have ne: "five_frames \<noteq> []" by (simp add: five_frames_def)
  have maj: "\<forall>t. t \<noteq> ''A'' \<longrightarrow> votes five_frames t < votes five_frames ''A''"
    by (simp add: five_frames_votes)
  have vt: "votes five_frames ''A'' = 3" "votes five_frames ''B'' = 2"
    by (simp_all add: five_frames_votes)
  have len: "int (length five_frames) = 5" by (simp add: five_frames_def)
  have id: "identify example_libs vote_recognizer (Video_file (Some five_frame_clip)) 5 12 =
        Inr ?res"
    by (simp add: identify_video_file identify_video_outcomes[OF vote_linspace(1) vote_outcomes]
        m len vote_recognizer_fields vote_aggregate)
  note t = identify_majority_vote[where L = example_libs and self = vote_recognizer
      and v = five_frame_clip and v' = five_frame_clip_shuffled and n = 5
      and idxs = "[0, 1, 2, 3, 4]" and idxs' = "[0, 1, 2, 3, 4]"
      and outcomes = "map Some five_frames" and outcomes' = "map Some five_frames_shuffled"
      and w = "''A''" and b = "(1, ''A'', 30, 0.90)" and elapsed = 12]
  from t vote_linspace vote_outcomes vote_outcomes_shuffled m eq ne maj five_frames_best
  obtain r r' where
    "identify example_libs vote_recognizer (Video_file (Some five_frame_clip)) 5 12 = Inr r"
    "identify example_libs vote_recognizer (Video_file (Some five_frame_clip_shuffled)) 5 12 =
       Inr r'"
    "r' = r"
    by auto
  with id have id': "identify example_libs vote_recognizer
      (Video_file (Some five_frame_clip_shuffled)) 5 12 = Inr ?res" by simp
  show ?thesis
    using vote_linspace vote_outcomes vote_outcomes_shuffled m eq ne vt five_frames_best id id'
    by simp
qed

text \<open>
  Which frames yield no match: Stage 1 returns no candidate, or no row of Stage 2
  reaches the threshold. A NaN similarity reaches no threshold.
\<close>

lemma at_least_None:
  "at_least t m = None \<longleftrightarrow> \<not> float_ge (scored_similarity m) (Num t)"
  by (cases m) (auto simp: at_least_def scored_similarity_def split: pyfloat.splits)

lemma match_frame_None:
  assumes "search_by_phash (db self) (compute_phash self frame) (phash_threshold self) 50 =
             Inr stage1"
    and "list_all (scorable L (db self) (compute_cnn_features self frame)) stage1"
    and "sort_permutes L"
    and "list_all (\<lambda>c. \<not> float_ge
                 (scored_similarity (scored_row L (db self) (compute_cnn_features self frame) c))
                 (Num (cnn_threshold self))) stage1"
  shows "match_frame L self frame = Inr None"
proof -
  let ?rows = "map (scored_row L (db self) (compute_cnn_features self frame)) stage1"
  have "set (list_sort_reverse L ?rows) = set ?rows"
    using list_sort_reverse_mset[OF assms(3), of ?rows] by (metis set_mset_mset)
  then have "\<forall>x\<in>set (list_sort_reverse L ?rows). at_least (cnn_threshold self) x = None"
    using assms(4) by (auto simp: list_all_iff at_least_None)
  then have "List.map_filter (at_least (cnn_threshold self)) (list_sort_reverse L ?rows) = []"
    by (simp add: List.map_filter_def filter_empty_conv)
  then show ?thesis
    by (simp add: match_frame_def match_frame_valid_total[OF assms(1,2)])
qed

text \<open>
  C4, as the code behaves. When the clip opens and every sampled frame yields no match
  without raising (it cannot be read, Stage 1 finds no candidate for it, or none of its
  similarities reaches the threshold, which a NaN similarity never does), the result is
  unmatched with \<open>frames_matched = 0\<close> and \<open>frames_sampled\<close> equal to the requested
  count; an image that is read and matches nothing gives \<open>frames_sampled = 1\<close>. When the
  clip cannot be opened or the image cannot be read, the result is unmatched with
  \<open>frames_sampled = 0\<close>. No error is raised in any of these cases. A frame on which
  \<open>_match_frame\<close> raises does not count as a frame without a match: the exception ends
  the call.
\<close>

theorem identify_no_match:
  "(linspace L 0 (total_frames v - 1) n = Inr idxs
      \<and> list_all (no_match L self) (frames_read v (opened v) idxs) \<longrightarrow>
      identify L self (Video_file (Some v)) n elapsed =
        Inr \<lparr>matched = False, title = None, year = None, timestamp = None, confidence = None,
             match_type = NONE, processing_time_ms = Some elapsed, stage1_candidates = 0,
             stage2_candidates = 0, frames_sampled = n, frames_matched = 0\<rparr>)
   \<and> (match_frame L self frame = Inr None \<longrightarrow>
      identify L self (Image_file (Some frame)) n elapsed =
        Inr \<lparr>matched = False, title = None, year = None, timestamp = None, confidence = None,
             match_type = NONE, processing_time_ms = Some elapsed, stage1_candidates = 0,
             stage2_candidates = 0, frames_sampled = 1, frames_matched = 0\<rparr>)
   \<and> identify L self (Video_file None) n elapsed =
        Inr \<lparr>matched = False, title = None, year = None, timestamp = None, confidence = None,
             match_type = NONE, processing_time_ms = Some elapsed, stage1_candidates = 0,
             stage2_candidates = 0, frames_sampled = 0, frames_matched = 0\<rparr>
   \<and> identify L self (Image_file None) n elapsed =
        Inr \<lparr>matched = False, title = None, year = None, timestamp = None, confidence = None,
             match_type = NONE, processing_time_ms = Some elapsed, stage1_candidates = 0,
             stage2_candidates = 0, frames_sampled = 0, frames_matched = 0\<rparr>
   \<and> (search_by_phash (db self) (compute_phash self frame) (phash_threshold self) 50 =
         Inr stage1
      \<and> list_all (scorable L (db self) (compute_cnn_features self frame)) stage1
      \<and> sort_permutes L
      \<and> list_all (\<lambda>c. \<not> float_ge
                 (scored_similarity (scored_row L (db self) (compute_cnn_features self frame) c))
                 (Num (cnn_threshold self))) stage1 \<longrightarrow>
      no_match L self (Some frame))
   \<and> no_match L self None
   \<and> (linspace L 0 (total_frames v - 1) n = Inr idxs
      \<and> frames_read v (opened v) idxs = pre @ Some frame # post
      \<and> list_all (frame_ok L self) pre \<and> match_frame L self frame = Inl e \<longrightarrow>
      identify L self (Video_file (Some v)) n elapsed = Inl e)
   \<and> (match_frame L self frame = Inl e \<longrightarrow>
      identify L self (Image_file (Some frame)) n elapsed = Inl e)"
proof (intro conjI impI)
  assume "linspace L 0 (total_frames v - 1) n = Inr idxs
      \<and> list_all (no_match L self) (frames_read v (opened v) idxs)"
  then show "identify L self (Video_file (Some v)) n elapsed =
        Inr \<lparr>matched = False, title = None, year = None, timestamp = None, confidence = None,
             match_type = NONE, processing_time_ms = Some elapsed, stage1_candidates = 0,
             stage2_candidates = 0, frames_sampled = n, frames_matched = 0\<rparr>"
    by (simp add: identify_def identify_video_def sample_loop_no_match aggregate_def
        RecognitionResult_default_def)
next
  assume "match_frame L self frame = Inr None"
  then show "identify L self (Image_file (Some frame)) n elapsed =
        Inr \<lparr>matched = False, title = None, year = None, timestamp = None, confidence = None,
             match_type = NONE, processing_time_ms = Some elapsed, stage1_candidates = 0,
             stage2_candidates = 0, frames_sampled = 1, frames_matched = 0\<rparr>"
    by (simp add: identify_def identify_image_def RecognitionResult_default_def)
next
  show "identify L self (Video_file None) n elapsed =
        Inr \<lparr>matched = False, title = None, year = None, timestamp = None, confidence = None,
             match_type = NONE, processing_time_ms = Some elapsed, stage1_candidates = 0,
             stage2_candidates = 0, frames_sampled = 0, frames_matched = 0\<rparr>"
    by (simp add: identify_def identify_video_def RecognitionResult_default_def)
next
  show "identify L self (Image_file None) n elapsed =
        Inr \<lparr>matched = False, title = None, year = None, timestamp = None, confidence = None,
             match_type = NONE, processing_time_ms = Some elapsed, stage1_candidates = 0,
             stage2_candidates = 0, frames_sampled = 0, frames_matched = 0\<rparr>"
    by (simp add: identify_def identify_image_def RecognitionResult_default_def)
next
  assume "search_by_phash (db self) (compute_phash self frame) (phash_threshold self) 50 =
         Inr stage1
      \<and> list_all (scorable L (db self) (compute_cnn_features self frame)) stage1
      \<and> sort_permutes L
      \<and> list_all (\<lambda>c. \<not> float_ge
                 (scored_similarity (scored_row L (db self) (compute_cnn_features self frame) c))
                 (Num (cnn_threshold self))) stage1"
  then have "match_frame L self frame = Inr None"
    using match_frame_None[of self frame stage1 L] by blast
  then show "no_match L self (Some frame)" by (simp add: no_match_def frame_outcome_def)
next
  show "no_match L self None" by (simp add: no_match_def frame_outcome_def)
next
  assume "linspace L 0 (total_frames v - 1) n = Inr idxs
      \<and> frames_read v (opened v) idxs = pre @ Some frame # post
      \<and> list_all (frame_ok L self) pre \<and> match_frame L self frame = Inl e"
  then show "identify L self (Video_file (Some v)) n elapsed = Inl e"
    by (simp add: identify_def identify_video_def sample_loop_raises)
next
  assume "match_frame L self frame = Inl e"
  then show "identify L self (Image_file (Some frame)) n elapsed = Inl e"
    by (simp add: identify_def identify_image_def)
qed

lemma example_recognizer_fields:
  "db example_recognizer = example_store" "compute_phash example_recognizer = fst"
  "compute_cnn_features example_recognizer = snd" "phash_threshold example_recognizer = 15"
  "cnn_threshold example_recognizer = 0.6"
  by (simp_all add: example_recognizer_def)

lemma example_recognizer_db: "db example_recognizer = example_store"
  by (simp add: example_recognizer_def)

lemma example_cosines_opposite:
  "cosine_float [-1, 0] [1, 0] = Inr (Num 2)"
  "cosine_float [-1, 0] [0, 1] = Inr (Num 1)"
  by (simp_all add: cosine_float_def cosine_distance_def dot_def)

lemma example_far_distances:
  "hamming_distance ''00000000ffffffff'' ''fffffffffffffff8'' = Inr 35"
  "hamming_distance ''00000000ffffffff'' ''ffffffffffffffff'' = Inr 32"
  "hamming_distance ''00000000ffffffff'' ''fffffffffffffff0'' = Inr 36"
  "hamming_distance ''00000000ffffffff'' ''0000000000000000'' = Inr 32"
  "hamming_distance ''00000000ffffffff'' ''fffffffffffffff1'' = Inr 35"
  by (simp_all add: hamming_eval)

lemma example_far_search:
  "search_by_phash example_store ''00000000ffffffff'' 15 50 = Inr []"
  by (simp add: search_by_phash_def example_store_select cand_phash_def example_far_distances
      list_sort_def slice_to_def)

text \<open>
  Three frames without a match at the example store: all four similarities are NaN,
  the best similarity is below the threshold, Stage 1 returns nothing. And a frame on
  which \<open>_match_frame\<close> raises: its vector has three dimensions.
\<close>

lemma example_no_match_nan:
  "match_frame example_libs example_recognizer (''ffffffffffffffff'', [0, 0]) = Inr None"
  by (simp add: match_frame_def match_frame_valid_def example_recognizer_fields
      example_search_15 verify_with_cnn_def example_libs_cosine example_libs_sort
      example_cosines example_titles list_sort_reverse_def timsort_eval
      List.map_filter_simps at_least_def)

lemma example_no_match_below:
  "match_frame example_libs example_recognizer (''ffffffffffffffff'', [-1, 0]) = Inr None"
  by (simp add: match_frame_def match_frame_valid_def example_recognizer_fields
      example_search_15 verify_with_cnn_def example_libs_cosine
      example_cosines_opposite example_titles list_sort_reverse_def scored_similarity_def
      number_def List.map_filter_simps at_least_def)

lemma example_no_match_far:
  "match_frame example_libs example_recognizer (''00000000ffffffff'', [1, 0]) = Inr None"
  by (simp add: match_frame_def match_frame_valid_def example_recognizer_fields
      example_far_search)

lemma example_raises:
  "match_frame example_libs example_recognizer (''ffffffffffffffff'', [1, 0, 0]) =
     Inl ValueError"
  by (simp add: match_frame_def match_frame_valid_def example_recognizer_fields
      example_search_15 verify_with_cnn_def example_libs_cosine example_cosines)

lemma example_match:
  "match_frame example_libs example_recognizer (''ffffffffffffffff'', [1, 0]) =
     Inr (Some (1, ''A'', 20, 1))"
  by (simp add: match_frame_def example_valid)

lemma no_match_video_read:
  "frames_read no_match_video (opened no_match_video) [0, 1, 2, 3, 4] =
     [None, Some (''ffffffffffffffff'', [0, 0]), Some (''ffffffffffffffff'', [-1, 0]),
      Some (''00000000ffffffff'', [1, 0]), None]"
  unfolding no_match_video_def frames_read_clip_of by simp

lemma raising_video_read:
  "frames_read raising_video (opened raising_video) [0, 1, 2, 3, 4] =
     [None, None] @ Some (''ffffffffffffffff'', [1, 0, 0]) # [None, None]"
  unfolding raising_video_def frames_read_clip_of by simp

lemma example_clip_linspace:
  "linspace example_libs 0 (total_frames no_match_video - 1) 5 = Inr [0, 1, 2, 3, 4]"
  "linspace example_libs 0 (total_frames raising_video - 1) 5 = Inr [0, 1, 2, 3, 4]"
  "linspace example_libs 0 (total_frames one_frame_video - 1) 1 = Inr [0]"
  by (simp_all add: example_libs_def no_match_video_def raising_video_def one_frame_video_def
      clip_of_def linspace_exact_def upt_rec)

text \<open>
  C4 at a clip of five sampled frames: two cannot be read, one has only NaN
  similarities, one has no similarity above the threshold and one has no Stage-1
  candidate; at the same frames given as images; and at a clip whose third frame raises.
\<close>

theorem identify_no_match_witness:
  "linspace example_libs 0 (total_frames no_match_video - 1) 5 = Inr [0, 1, 2, 3, 4]
   \<and> frames_read no_match_video (opened no_match_video) [0, 1, 2, 3, 4] =
        [None, Some (''ffffffffffffffff'', [0, 0]), Some (''ffffffffffffffff'', [-1, 0]),
         Some (''00000000ffffffff'', [1, 0]), None]
   \<and> list_all (no_match example_libs example_recognizer)
        (frames_read no_match_video (opened no_match_video) [0, 1, 2, 3, 4])
   \<and> identify example_libs example_recognizer (Video_file (Some no_match_video)) 5 12 =
        Inr \<lparr>matched = False, title = None, year = None, timestamp = None, confidence = None,
             match_type = NONE, processing_time_ms = Some 12, stage1_candidates = 0,
             stage2_candidates = 0, frames_sampled = 5, frames_matched = 0\<rparr>
   \<and> match_frame example_libs example_recognizer (''ffffffffffffffff'', [0, 0]) = Inr None
   \<and> identify example_libs example_recognizer
        (Image_file (Some (''ffffffffffffffff'', [0, 0])) :: (string \<times> vec, unit) media_file)
        5 12 =
        Inr \<lparr>matched = False, title = None, year = None, timestamp = None, confidence = None,
             match_type = NONE, processing_time_ms = Some 12, stage1_candidates = 0,
             stage2_candidates = 0, frames_sampled = 1, frames_matched = 0\<rparr>
   \<and> search_by_phash (db example_recognizer)
        (compute_phash example_recognizer (''ffffffffffffffff'', [0, 0]))
        (phash_threshold example_recognizer) 50 =
        Inr [(2, 1, 20, ''ffffffffffffffff'', [1, 0]),
             (1, 1, 10, ''fffffffffffffff8'', [1, 0]),
             (5, 2, 50, ''fffffffffffffff1'', [0, 1]),
             (3, 2, 30, ''fffffffffffffff0'', [0, 1])]
   \<and> list_all (scorable example_libs (db example_recognizer)
                  (compute_cnn_features example_recognizer (''ffffffffffffffff'', [0, 0])))
        [(2, 1, 20, ''ffffffffffffffff'', [1, 0]),
         (1, 1, 10, ''fffffffffffffff8'', [1, 0]),
         (5, 2, 50, ''fffffffffffffff1'', [0, 1]),
         (3, 2, 30, ''fffffffffffffff0'', [0, 1])]
   \<and> sort_permutes example_libs
   \<and> list_all (\<lambda>c. scored_similarity
                      (scored_row example_libs (db example_recognizer)
                         (compute_cnn_features example_recognizer
                            (''ffffffffffffffff'', [0, 0])) c) = NaN)
        [(2, 1, 20, ''ffffffffffffffff'', [1, 0]),
         (1, 1, 10, ''fffffffffffffff8'', [1, 0]),
         (5, 2, 50, ''fffffffffffffff1'', [0, 1]),
         (3, 2, 30, ''fffffffffffffff0'', [0, 1])]
   \<and> no_match example_libs example_recognizer (Some (''ffffffffffffffff'', [0, 0]))
   \<and> linspace example_libs 0 (total_frames raising_video - 1) 5 = Inr [0, 1, 2, 3, 4]
   \<and> frames_read raising_video (opened raising_video) [0, 1, 2, 3, 4] =
        [None, None] @ Some (''ffffffffffffffff'', [1, 0, 0]) # [None, None]
   \<and> list_all (frame_ok example_libs example_recognizer) [None, None]
   \<and> match_frame example_libs example_recognizer (''ffffffffffffffff'', [1, 0, 0]) =
        Inl ValueError
   \<and> identify example_libs example_recognizer (Video_file (Some raising_video)) 5 12 =
        Inl ValueError
   \<and> identify example_libs example_recognizer
        (Image_file (Some (''ffffffffffffffff'', [1, 0, 0])) :: (string \<times> vec, unit) media_file)
        5 12 = Inl ValueError"
proof -
  let ?cands = "[(2, 1, 20, ''ffffffffffffffff'', [1, 0]),
      (1, 1, 10, ''fffffffffffffff8'', [1, 0]),
      (5, 2, 50, ''fffffffffffffff1'', [0, 1]),
      (3, 2, 30, ''fffffffffffffff0'', [0, 1])] :: candidate list"
  let ?nan = "(''ffffffffffffffff'', [0, 0]) :: string \<times> vec"
  let ?bad = "(''ffffffffffffffff'', [1, 0, 0]) :: string \<times> vec"
  have n: "list_all (no_match example_libs example_recognizer)
        (frames_read no_match_video (opened no_match_video) [0, 1, 2, 3, 4])"
    unfolding no_match_video_read
    by (simp add: no_match_def frame_outcome_def example_no_match_nan example_no_match_below
        example_no_match_far)
  have s1: "search_by_phash (db example_recognizer) (compute_phash example_recognizer ?nan)
              (phash_threshold example_recognizer) 50 = Inr ?cands"
    by (simp add: example_recognizer_fields example_search_15)
  have sc: "list_all (scorable example_libs (db example_recognizer)
                  (compute_cnn_features example_recognizer ?nan)) ?cands"
    by (simp add: example_recognizer_fields scorable_row example_libs_cosine example_cosines
        example_titles)
  have nan: "list_all (\<lambda>c. scored_similarity
                      (scored_row example_libs (db example_recognizer)
                         (compute_cnn_features example_recognizer ?nan) c) = NaN) ?cands"
    by (simp add: example_recognizer_fields scored_row_def scored_similarity_def cand_blob_def
        example_libs_cosine example_cosines)
  then have below: "list_all (\<lambda>c. \<not> float_ge (scored_similarity
                      (scored_row example_libs (db example_recognizer)
                         (compute_cnn_features example_recognizer ?nan) c))
                      (Num (cnn_threshold example_recognizer))) ?cands"
    by simp
  have ok: "list_all (frame_ok example_libs example_recognizer) [None, None]"
    by (simp add: frame_ok_def frame_outcome_def)
  note t = identify_no_match[where L = example_libs and self = example_recognizer
      and v = no_match_video and n = 5 and idxs = "[0, 1, 2, 3, 4]" and elapsed = 12
      and frame = ?nan and ?stage1.0 = ?cands]
  note u = identify_no_match[where L = example_libs and self = example_recognizer
      and v = raising_video and n = 5 and idxs = "[0, 1, 2, 3, 4]" and elapsed = 12
      and frame = ?bad and pre = "[None, None]" and post = "[None, None]" and e = ValueError]
  from t example_clip_linspace(1) n
  have 1: "identify example_libs example_recognizer (Video_file (Some no_match_video)) 5 12 =
        Inr \<lparr>matched = False, title = None, year = None, timestamp = None, confidence = None,
             match_type = NONE, processing_time_ms = Some 12, stage1_candidates = 0,
             stage2_candidates = 0, frames_sampled = 5, frames_matched = 0\<rparr>"
    by blast
  from t example_no_match_nan
  have 2: "identify example_libs example_recognizer
        (Image_file (Some ?nan) :: (string \<times> vec, unit) media_file) 5 12 =
        Inr \<lparr>matched = False, title = None, year = None, timestamp = None, confidence = None,
             match_type = NONE, processing_time_ms = Some 12, stage1_candidates = 0,
             stage2_candidates = 0, frames_sampled = 1, frames_matched = 0\<rparr>"
    by blast
  from t s1 sc example_libs_sort_permutes below
  have 3: "no_match example_libs example_recognizer (Some ?nan)" by blast
  from u example_clip_linspace(2) raising_video_read ok example_raises
  have 4: "identify example_libs example_recognizer (Video_file (Some raising_video)) 5 12 =
        Inl ValueError"
    by blast
  from u example_raises
  have 5: "identify example_libs example_recognizer
        (Image_file (Some ?bad) :: (string \<times> vec, unit) media_file) 5 12 = Inl ValueError"
    by blast
  show ?thesis
    using example_clip_linspace(1,2) no_match_video_read n 1 example_no_match_nan 2 s1 sc
      example_libs_sort_permutes nan 3 raising_video_read ok example_raises 4 5
    by blast
qed

text \<open>
  C4 as stated fails twice. For an image that cannot be read, and for a clip that cannot
  be opened when five frames are requested, the result has \<open>frames_sampled = 0\<close>. And in
  a clip of which four sampled frames cannot be read and the fifth raises while it is
  matched, no frame produces a match, but the call returns no result: it ends with the
  frame's \<open>ValueError\<close>.
\<close>

theorem identify_not_found_counterexample:
  "identify example_libs example_recognizer
     (Image_file None :: (string \<times> vec, unit) media_file) 1 12 =
        Inr \<lparr>matched = False, title = None, year = None, timestamp = None, confidence = None,
             match_type = NONE, processing_time_ms = Some 12, stage1_candidates = 0,
             stage2_candidates = 0, frames_sampled = 0, frames_matched = 0\<rparr>
   \<and> identify example_libs example_recognizer
     (Video_file None :: (string \<times> vec, unit) media_file) 5 12 =
        Inr \<lparr>matched = False, title = None, year = None, timestamp = None, confidence = None,
             match_type = NONE, processing_time_ms = Some 12, stage1_candidates = 0,
             stage2_candidates = 0, frames_sampled = 0, frames_matched = 0\<rparr>
   \<and> linspace example_libs 0 (total_frames raising_video - 1) 5 = Inr [0, 1, 2, 3, 4]
   \<and> frames_read raising_video (opened raising_video) [0, 1, 2, 3, 4] =
        [None, None, Some (''ffffffffffffffff'', [1, 0, 0]), None, None]
   \<and> match_frame example_libs example_recognizer (''ffffffffffffffff'', [1, 0, 0]) =
        Inl ValueError
   \<and> identify example_libs example_recognizer (Video_file (Some raising_video)) 5 12 =
        Inl ValueError"
proof -
  have r: "frames_read raising_video (opened raising_video) [0, 1, 2, 3, 4] =
        [None, None, Some (''ffffffffffffffff'', [1, 0, 0]), None, None]"
    using raising_video_read by simp
  have ok: "list_all (frame_ok example_libs example_recognizer) [None, None]"
    by (simp add: frame_ok_def frame_outcome_def)
  have "sample_loop example_libs example_recognizer raising_video (opened raising_video)
          ([], 0, 0) [0, 1, 2, 3, 4] = Inl ValueError"
    by (rule sample_loop_raises[OF raising_video_read ok example_raises])
  then have v: "identify example_libs example_recognizer (Video_file (Some raising_video)) 5 12 =
        Inl ValueError"
    by (simp add: identify_def identify_video_def example_clip_linspace(2))
  show ?thesis
    using example_clip_linspace(2) r example_raises v
    by (simp add: identify_def identify_video_def identify_image_def
        RecognitionResult_default_def)
qed

text \<open>
  C2 evaluated at one sampled frame for which Stage 1 returns four candidates and Stage
  2 leaves two matches: the clip's result has \<open>stage1_candidates = 0\<close> and
  \<open>stage2_candidates = 1\<close>, and the image's result has both at 0, where the sums over
  the sampled frames are 4 and 2. \<open>frames_matched\<close> is 1, the number of frames that
  matched. (\<open>identify_video_counters\<close> gives the general form: the first counter is
  never advanced, the second counts matched frames; \<open>identify_video_frames_matched\<close>
  shows that \<open>frames_matched\<close> is the number of frames read that yield a match.)
\<close>

theorem identify_video_stage_counts_evaluated:
  "search_by_phash example_store ''ffffffffffffffff'' 15 50 =
     Inr [(2, 1, 20, ''ffffffffffffffff'', [1, 0]),
          (1, 1, 10, ''fffffffffffffff8'', [1, 0]),
          (5, 2, 50, ''fffffffffffffff1'', [0, 1]),
          (3, 2, 30, ''fffffffffffffff0'', [0, 1])]
   \<and> match_frame_valid example_libs example_recognizer (''ffffffffffffffff'', [1, 0]) =
        Inr [(1, ''A'', 20, 1), (1, ''A'', 10, 1)]
   \<and> identify example_libs example_recognizer (Video_file (Some one_frame_video)) 1 12 =
        Inr \<lparr>matched = True, title = Some ''A'', year = Some 2012, timestamp = Some 20,
             confidence = Some 1, match_type = STRONG, processing_time_ms = Some 12,
             stage1_candidates = 0, stage2_candidates = 1, frames_sampled = 1,
             frames_matched = 1\<rparr>
   \<and> identify example_libs example_recognizer
        (Image_file (Some (''ffffffffffffffff'', [1, 0]))) 1 12 =
        Inr \<lparr>matched = True, title = Some ''A'', year = Some 2012, timestamp = Some 20,
             confidence = Some 1, match_type = STRONG, processing_time_ms = Some 12,
             stage1_candidates = 0, stage2_candidates = 0, frames_sampled = 1,
             frames_matched = 1\<rparr>"
proof -
  have rd: "frames_read one_frame_video (opened one_frame_video) [0] =
              [Some (''ffffffffffffffff'', [1, 0])]"
    unfolding one_frame_video_def frames_read_clip_of by simp
  have o: "map (frame_outcome example_libs example_recognizer)
             (frames_read one_frame_video (opened one_frame_video) [0]) =
           map Inr [Some (1, ''A'', 20, 1)]"
    unfolding rd by (simp add: frame_outcome_def example_match)
  have a: "aggregate example_store 1 ([(1, ''A'', 20, 1)], 0, 1) =
        Inr \<lparr>matched = True, title = Some ''A'', year = Some 2012, timestamp = Some 20,
             confidence = Some 1, match_type = STRONG, processing_time_ms = None,
             stage1_candidates = 0, stage2_candidates = 1, frames_sampled = 1,
             frames_matched = 1\<rparr>"
    by (simp add: aggregate_eval)
  have v: "identify example_libs example_recognizer (Video_file (Some one_frame_video)) 1 12 =
        Inr \<lparr>matched = True, title = Some ''A'', year = Some 2012, timestamp = Some 20,
             confidence = Some 1, match_type = STRONG, processing_time_ms = Some 12,
             stage1_candidates = 0, stage2_candidates = 1, frames_sampled = 1,
             frames_matched = 1\<rparr>"
    by (simp add: identify_video_file identify_video_outcomes[OF example_clip_linspace(3) o]
        matches_of_simps example_recognizer_db a)
  have i: "identify example_libs example_recognizer
        (Image_file (Some (''ffffffffffffffff'', [1, 0]))) 1 12 =
        Inr \<lparr>matched = True, title = Some ''A'', year = Some 2012, timestamp = Some 20,
             confidence = Some 1, match_type = STRONG, processing_time_ms = Some 12,
             stage1_candidates = 0, stage2_candidates = 0, frames_sampled = 1,
             frames_matched = 1\<rparr>"
    by (simp add: identify_def identify_image_def example_match RecognitionResult_default_def
        match_title_def match_similarity_def match_media_id_def match_timestamp_def
        get_year_def get_match_type_def example_store_media example_recognizer_db)
  show ?thesis using example_search_15 example_valid v i by blast
qed

end
